(* ===== verification/Prelude.thy ===== *)
theory Prelude
  imports Main "HOL-Library.Word" "HOL-Library.Code_Target_Numeral"
begin

text \<open>
  The shared vocabulary of the development: machine integers and byte strings, the result
  type of fallible operations, little-endian encoding, the slice operations of the Rust
  standard library the code uses (\<open>chunks\<close>, \<open>chunks_exact\<close>, \<open>split_once\<close>, \<open>rsplit_once\<close>,
  \<open>split\<close>, \<open>trim\<close>, ASCII case folding, decimal printing and parsing), and the generic
  invariant argument for the state machines of the components.

  Strings are HOL strings, one character per byte; the case folding and white space used by
  the code are the ASCII ones.
\<close>

named_theorems codec_simps \<open>little-endian and array encodings\<close>
named_theorems text_simps \<open>string splitting and trimming\<close>
named_theorems step_intros \<open>introduction rules of the step relations\<close>


section \<open>Types and results\<close>

type_synonym byte = "8 word"
type_synonym bytes = "byte list"
type_synonym u16 = "16 word"
type_synonym u32 = "32 word"
type_synonym u64 = "64 word"
type_synonym i64 = "64 word"
type_synonym arr8 = "64 word"
type_synonym arr16 = "128 word"
type_synonym arr32 = "256 word"

abbreviation Ok :: "'a \<Rightarrow> 'e + 'a" where
  "Ok \<equiv> Inr"

abbreviation Err :: "'e \<Rightarrow> 'e + 'a" where
  "Err \<equiv> Inl"

fun and_then :: "'e + 'a \<Rightarrow> ('a \<Rightarrow> 'e + 'b) \<Rightarrow> 'e + 'b" where
  "and_then (Inl e) f = Inl e"
| "and_then (Inr x) f = f x"

fun is_ok :: "'e + 'a \<Rightarrow> bool" where
  "is_ok (Inl e) = False"
| "is_ok (Inr x) = True"

lemma and_then_Ok [simp]: "and_then r f = Inr y \<longleftrightarrow> (\<exists>x. r = Inr x \<and> f x = Inr y)"
  by (cases r) auto

lemma and_then_Err: "and_then r f = Inl e \<longleftrightarrow> r = Inl e \<or> (\<exists>x. r = Inr x \<and> f x = Inl e)"
  by (cases r) auto

lemma is_ok_iff: "is_ok r \<longleftrightarrow> (\<exists>x. r = Inr x)"
  by (cases r) auto

lemma not_is_ok_iff: "\<not> is_ok r \<longleftrightarrow> (\<exists>e. r = Inl e)"
  by (cases r) auto


section \<open>Little-endian encoding\<close>

text \<open>The \<open>n\<close> low-order bytes of a number, least significant first (\<open>to_le_bytes\<close>), and
  back (\<open>from_le_bytes\<close>). A fixed array \<open>[u8; k]\<close> is the \<open>8 * k\<close>-bit word whose
  little-endian bytes are its elements, so its length is part of its type.\<close>

primrec le_bytes :: "nat \<Rightarrow> nat \<Rightarrow> bytes" where
  "le_bytes 0 x = []"
| "le_bytes (Suc n) x = of_nat x # le_bytes n (x div 256)"

primrec le_nat :: "bytes \<Rightarrow> nat" where
  "le_nat [] = 0"
| "le_nat (b # bs) = unat b + 256 * le_nat bs"

definition u32_to_le :: "u32 \<Rightarrow> bytes" where
  "u32_to_le w = le_bytes 4 (unat w)"

definition u32_from_le :: "bytes \<Rightarrow> u32" where
  "u32_from_le bs = of_nat (le_nat bs)"

definition u64_to_le :: "u64 \<Rightarrow> bytes" where
  "u64_to_le w = le_bytes 8 (unat w)"

definition u64_from_le :: "bytes \<Rightarrow> u64" where
  "u64_from_le bs = of_nat (le_nat bs)"

definition arr16_to_bytes :: "arr16 \<Rightarrow> bytes" where
  "arr16_to_bytes w = le_bytes 16 (unat w)"

definition arr16_of_bytes :: "bytes \<Rightarrow> arr16" where
  "arr16_of_bytes bs = of_nat (le_nat bs)"

definition arr32_to_bytes :: "arr32 \<Rightarrow> bytes" where
  "arr32_to_bytes w = le_bytes 32 (unat w)"

definition arr32_of_bytes :: "bytes \<Rightarrow> arr32" where
  "arr32_of_bytes bs = of_nat (le_nat bs)"

lemma le_bytes_length [simp]: "length (le_bytes n x) = n"
  by (induction n arbitrary: x) auto

lemma unat_byte_of_nat: "unat (of_nat x :: byte) = x mod 256"
  by (simp add: unat_of_nat)

lemma le_nat_le_bytes: "le_nat (le_bytes n x) = x mod 256 ^ n"
proof (induction n arbitrary: x)
  case (Suc n)
  have "x mod (256 * 256 ^ n) = 256 * (x div 256 mod 256 ^ n) + x mod 256"
    by (rule mod_mult2_eq)
  then show ?case
    by (simp add: Suc unat_byte_of_nat)
qed simp

lemma byte_of_nat_mod: "(of_nat (unat (b :: byte) + 256 * k) :: byte) = b"
proof -
  have "unat b < 256"
    using unsigned_less [of b] by simp
  then show ?thesis
    by (simp add: word_unat_eq_iff unat_of_nat del: of_nat_add of_nat_mult)
qed

lemma le_bytes_le_nat [simp]: "le_bytes (length bs) (le_nat bs) = bs"
proof (induction bs)
  case (Cons b bs)
  have "unat b < 256"
    using unsigned_less [of b] by simp
  then have "(unat b + 256 * le_nat bs) div 256 = le_nat bs"
    by simp
  then show ?case
    using Cons byte_of_nat_mod [of b "le_nat bs"] by simp
qed simp

lemma le_nat_bound: "le_nat bs < 256 ^ length bs"
  using le_nat_le_bytes [of "length bs" "le_nat bs"] by (metis le_bytes_le_nat mod_less_divisor
    zero_less_numeral zero_less_power)

lemma u32_le_length [simp]: "length (u32_to_le w) = 4"
  by (simp add: u32_to_le_def)

lemma u64_le_length [simp]: "length (u64_to_le w) = 8"
  by (simp add: u64_to_le_def)

lemma arr16_length [simp]: "length (arr16_to_bytes w) = 16"
  by (simp add: arr16_to_bytes_def)

lemma arr32_length [simp]: "length (arr32_to_bytes w) = 32"
  by (simp add: arr32_to_bytes_def)

lemma word_le_roundtrip:
  assumes "256 ^ n = (2 :: nat) ^ LENGTH('a::len)"
  shows "(of_nat (le_nat (le_bytes n (unat (w :: 'a word)))) :: 'a word) = w"
  using assms by (simp add: le_nat_le_bytes)

lemma u32_roundtrip [simp, codec_simps]: "u32_from_le (u32_to_le w) = w"
  unfolding u32_from_le_def u32_to_le_def by (rule word_le_roundtrip) simp

lemma u64_roundtrip [simp, codec_simps]: "u64_from_le (u64_to_le w) = w"
  unfolding u64_from_le_def u64_to_le_def by (rule word_le_roundtrip) simp

lemma arr16_roundtrip [simp, codec_simps]: "arr16_of_bytes (arr16_to_bytes w) = w"
  unfolding arr16_of_bytes_def arr16_to_bytes_def by (rule word_le_roundtrip) simp

lemma arr32_roundtrip [simp, codec_simps]: "arr32_of_bytes (arr32_to_bytes w) = w"
  unfolding arr32_of_bytes_def arr32_to_bytes_def by (rule word_le_roundtrip) simp

lemma word_bytes_roundtrip:
  assumes "256 ^ length bs = (2 :: nat) ^ LENGTH('a::len)"
  shows "le_bytes (length bs) (unat (of_nat (le_nat bs) :: 'a word)) = bs"
proof -
  have "unat (of_nat (le_nat bs) :: 'a word) = le_nat bs"
    using le_nat_bound [of bs] assms by (simp add: unat_of_nat)
  then show ?thesis
    by simp
qed

lemma u32_bytes_roundtrip: "length bs = 4 \<Longrightarrow> u32_to_le (u32_from_le bs) = bs"
  unfolding u32_from_le_def u32_to_le_def using word_bytes_roundtrip [of bs, where 'a = 32] by simp

lemma u64_bytes_roundtrip: "length bs = 8 \<Longrightarrow> u64_to_le (u64_from_le bs) = bs"
  unfolding u64_from_le_def u64_to_le_def using word_bytes_roundtrip [of bs, where 'a = 64] by simp

lemma arr16_bytes_roundtrip: "length bs = 16 \<Longrightarrow> arr16_to_bytes (arr16_of_bytes bs) = bs"
  unfolding arr16_of_bytes_def arr16_to_bytes_def
  using word_bytes_roundtrip [of bs, where 'a = 128] by simp

lemma arr32_bytes_roundtrip: "length bs = 32 \<Longrightarrow> arr32_to_bytes (arr32_of_bytes bs) = bs"
  unfolding arr32_of_bytes_def arr32_to_bytes_def
  using word_bytes_roundtrip [of bs, where 'a = 256] by simp


section \<open>Slices\<close>

text \<open>\<open>bytes[a..b]\<close>, \<open>slice.chunks(n)\<close> and \<open>slice.chunks_exact(n)\<close>; the callers only use
  ranges inside the slice and a positive chunk length.\<close>

definition slice :: "nat \<Rightarrow> nat \<Rightarrow> 'a list \<Rightarrow> 'a list" where
  "slice a b xs = take (b - a) (drop a xs)"

function chunks :: "nat \<Rightarrow> 'a list \<Rightarrow> 'a list list" where
  "chunks n xs = (if n = 0 \<or> xs = [] then [] else take n xs # chunks n (drop n xs))"
  by pat_completeness auto
termination by (relation "measure (\<lambda>(n, xs). length xs)") auto

function chunks_exact :: "nat \<Rightarrow> 'a list \<Rightarrow> 'a list list" where
  "chunks_exact n xs =
     (if n = 0 \<or> length xs < n then [] else take n xs # chunks_exact n (drop n xs))"
  by pat_completeness auto
termination by (relation "measure (\<lambda>(n, xs). length xs)") auto

declare chunks.simps [simp del] chunks_exact.simps [simp del]

lemma slice_length [simp]: "b \<le> length xs \<Longrightarrow> length (slice a b xs) = b - a"
  by (simp add: slice_def)

lemma slice_append1: "b \<le> length xs \<Longrightarrow> slice a b (xs @ ys) = slice a b xs"
  by (auto simp: slice_def)

lemma slice_append2:
  "length xs \<le> a \<Longrightarrow> slice a b (xs @ ys) = slice (a - length xs) (b - length xs) ys"
  by (auto simp: slice_def)

lemma slice_all: "length xs = n \<Longrightarrow> slice 0 n xs = xs"
  by (simp add: slice_def)

lemma concat_chunks [simp]: "0 < n \<Longrightarrow> concat (chunks n xs) = xs"
  by (induction n xs rule: chunks.induct) (subst chunks.simps, auto)

lemma chunks_bounded: "c \<in> set (chunks n xs) \<Longrightarrow> 0 < length c \<and> length c \<le> n"
proof (induction n xs rule: chunks.induct)
  case (1 n xs)
  then show ?case
    by (cases "n = 0 \<or> xs = []") (auto simp: chunks.simps [of n xs])
qed

lemma chunks_exact_concat:
  assumes "0 < n" "\<forall>c \<in> set cs. length c = n"
  shows "chunks_exact n (concat cs) = cs"
  using assms(2)
proof (induction cs)
  case Nil
  then show ?case
    using assms(1) by (simp add: chunks_exact.simps)
next
  case (Cons c cs)
  then show ?case
    using assms(1) by (subst chunks_exact.simps) simp
qed

lemma concat_chunks_exact:
  assumes "0 < n"
  shows "n dvd length xs \<Longrightarrow> concat (chunks_exact n xs) = xs"
  using assms
proof (induction n xs rule: chunks_exact.induct)
  case (1 n xs)
  show ?case
  proof (cases "length xs < n")
    case True
    then have "xs = []"
      using 1 by (metis dvd_imp_le length_0_conv not_less gr0I)
    then show ?thesis
      using 1 by (simp add: chunks_exact.simps)
  next
    case False
    then have "n dvd length (drop n xs)"
      using 1 by (simp add: dvd_diff_nat)
    then show ?thesis
      using 1 False by (subst chunks_exact.simps) auto
  qed
qed

lemma chunks_exact_length: "c \<in> set (chunks_exact n xs) \<Longrightarrow> length c = n"
proof (induction n xs rule: chunks_exact.induct)
  case (1 n xs)
  then show ?case
    by (cases "n = 0 \<or> length xs < n") (auto simp: chunks_exact.simps [of n xs])
qed


section \<open>Strings\<close>

text \<open>\<open>str::split_once\<close>, \<open>str::rsplit_once\<close> and \<open>str::split\<close> on a one-character separator,
  \<open>str::trim\<close>, ASCII case folding.\<close>

primrec split_once :: "char \<Rightarrow> string \<Rightarrow> (string \<times> string) option" where
  "split_once c [] = None"
| "split_once c (x # xs) =
     (if x = c then Some ([], xs) else map_option (apfst (Cons x)) (split_once c xs))"

definition rsplit_once :: "char \<Rightarrow> string \<Rightarrow> (string \<times> string) option" where
  "rsplit_once c s = map_option (\<lambda>(a, b). (rev b, rev a)) (split_once c (rev s))"

primrec split_on :: "char \<Rightarrow> string \<Rightarrow> string list" where
  "split_on c [] = [[]]"
| "split_on c (x # xs) =
     (if x = c then [] # split_on c xs
      else (case split_on c xs of [] \<Rightarrow> [[x]] | p # ps \<Rightarrow> (x # p) # ps))"

definition strip_prefix_char :: "char \<Rightarrow> string \<Rightarrow> string option" where
  "strip_prefix_char c s =
     (case s of [] \<Rightarrow> None | x # xs \<Rightarrow> if x = c then Some xs else None)"

definition is_ws :: "char \<Rightarrow> bool" where
  "is_ws c = (of_char c \<in> {9, 10, 11, 12, 13, 32 :: nat})"

definition trim_start :: "string \<Rightarrow> string" where
  "trim_start s = dropWhile is_ws s"

definition trim_end :: "string \<Rightarrow> string" where
  "trim_end s = rev (dropWhile is_ws (rev s))"

definition trim :: "string \<Rightarrow> string" where
  "trim s = trim_end (trim_start s)"

definition to_lower_char :: "char \<Rightarrow> char" where
  "to_lower_char c =
     (let n = of_char c in if 65 \<le> n \<and> n \<le> (90 :: nat) then char_of (n + 32) else c)"

definition to_lower :: "string \<Rightarrow> string" where
  "to_lower s = map to_lower_char s"

definition eq_ignore_case :: "string \<Rightarrow> string \<Rightarrow> bool" where
  "eq_ignore_case a b = (to_lower a = to_lower b)"

definition is_digit :: "char \<Rightarrow> bool" where
  "is_digit c = (48 \<le> (of_char c :: nat) \<and> of_char c \<le> (57 :: nat))"

definition is_alpha :: "char \<Rightarrow> bool" where
  "is_alpha c = (let n = of_char c :: nat in 65 \<le> n \<and> n \<le> 90 \<or> 97 \<le> n \<and> n \<le> 122)"

definition is_alnum :: "char \<Rightarrow> bool" where
  "is_alnum c = (is_digit c \<or> is_alpha c)"

primrec starts_with :: "string \<Rightarrow> string \<Rightarrow> bool" where
  "starts_with [] s = True"
| "starts_with (p # ps) s = (case s of [] \<Rightarrow> False | x # xs \<Rightarrow> p = x \<and> starts_with ps xs)"

text \<open>A character of UTF-8 text starts at every byte that is not a continuation byte.\<close>

definition utf8_continuation :: "char \<Rightarrow> bool" where
  "utf8_continuation c = (128 \<le> (of_char c :: nat) \<and> (of_char c :: nat) < 192)"

definition utf8_count :: "string \<Rightarrow> nat" where
  "utf8_count s = length (filter (\<lambda>c. \<not> utf8_continuation c) s)"

fun utf8_take :: "nat \<Rightarrow> string \<Rightarrow> string" where
  "utf8_take n [] = []"
| "utf8_take n (c # cs) =
     (if utf8_continuation c then c # utf8_take n cs
      else case n of 0 \<Rightarrow> [] | Suc m \<Rightarrow> c # utf8_take m cs)"

lemma utf8_count_take: "utf8_count (utf8_take n s) \<le> n"
  by (induction n s rule: utf8_take.induct) (auto simp: utf8_count_def split: nat.split)

definition join_with :: "string \<Rightarrow> string list \<Rightarrow> string" where
  "join_with sep parts =
     (case parts of [] \<Rightarrow> [] | p # ps \<Rightarrow> p @ concat (map (\<lambda>q. sep @ q) ps))"

lemma split_once_None [text_simps]: "split_once c s = None \<longleftrightarrow> c \<notin> set s"
  by (induction s) auto

lemma split_once_absent [text_simps]: "c \<notin> set s \<Longrightarrow> split_once c s = None"
  by (simp add: split_once_None)

lemma strip_prefix_char_Cons [simp]:
  "strip_prefix_char c (c # s) = Some s" "strip_prefix_char c [] = None"
  by (simp_all add: strip_prefix_char_def)

lemma strip_prefix_char_other: "s = [] \<or> hd s \<noteq> c \<Longrightarrow> strip_prefix_char c s = None"
  by (cases s) (auto simp: strip_prefix_char_def)

lemma split_once_append [text_simps]: "c \<notin> set a \<Longrightarrow> split_once c (a @ c # b) = Some (a, b)"
  by (induction a) auto

lemma split_once_SomeD: "split_once c s = Some (a, b) \<Longrightarrow> s = a @ c # b \<and> c \<notin> set a"
proof (induction s arbitrary: a)
  case (Cons x s)
  then show ?case
    by (cases "x = c") auto
qed simp

lemma split_once_Some: "split_once c s = Some (a, b) \<longleftrightarrow> s = a @ c # b \<and> c \<notin> set a"
  using split_once_SomeD split_once_append by blast

lemma rsplit_once_None [text_simps]: "rsplit_once c s = None \<longleftrightarrow> c \<notin> set s"
  by (simp add: rsplit_once_def split_once_None)

lemma rsplit_once_absent [text_simps]: "c \<notin> set s \<Longrightarrow> rsplit_once c s = None"
  by (simp add: rsplit_once_None)

lemma rsplit_once_Some: "rsplit_once c s = Some (a, b) \<longleftrightarrow> s = a @ c # b \<and> c \<notin> set b"
proof -
  have "rsplit_once c s = Some (a, b) \<longleftrightarrow> split_once c (rev s) = Some (rev b, rev a)"
    unfolding rsplit_once_def by (cases "split_once c (rev s)") (auto simp: rev_swap)
  also have "\<dots> \<longleftrightarrow> s = a @ c # b \<and> c \<notin> set b"
    by (auto simp: split_once_Some rev_swap)
  finally show ?thesis .
qed

lemma rsplit_once_append [text_simps]: "c \<notin> set b \<Longrightarrow> rsplit_once c (a @ c # b) = Some (a, b)"
  by (simp add: rsplit_once_Some)

lemma split_on_nonempty [simp]: "split_on c s \<noteq> []"
  by (induction s) (auto split: list.splits)

lemma split_on_single [text_simps]: "c \<notin> set s \<Longrightarrow> split_on c s = [s]"
  by (induction s) auto

lemma split_on_append [text_simps]: "c \<notin> set a \<Longrightarrow> split_on c (a @ c # b) = a # split_on c b"
  by (induction a) auto

lemma split_on_no_sep: "p \<in> set (split_on c s) \<Longrightarrow> c \<notin> set p"
proof (induction s arbitrary: p)
  case (Cons x s)
  then show ?case
    by (cases "split_on c s") (auto split: if_splits)
qed simp

lemma split_on_join: "join_with [c] (split_on c s) = s"
proof (induction s)
  case (Cons x s)
  then show ?case
    by (cases "split_on c s") (auto simp: join_with_def split: list.splits)
qed (simp add: join_with_def)

lemma trim_id [text_simps]:
  "(s \<noteq> [] \<Longrightarrow> \<not> is_ws (hd s)) \<Longrightarrow> (s \<noteq> [] \<Longrightarrow> \<not> is_ws (last s)) \<Longrightarrow> trim s = s"
proof -
  have keep: "dropWhile is_ws t = t" if "t \<noteq> [] \<Longrightarrow> \<not> is_ws (hd t)" for t
    using that by (cases t) auto
  assume "s \<noteq> [] \<Longrightarrow> \<not> is_ws (hd s)" and last: "s \<noteq> [] \<Longrightarrow> \<not> is_ws (last s)"
  then have "dropWhile is_ws s = s"
    by (intro keep)
  moreover have "dropWhile is_ws (rev s) = rev s"
    using last by (intro keep) (simp add: hd_rev)
  ultimately show ?thesis
    by (simp add: trim_def trim_start_def trim_end_def)
qed

lemma trim_no_ws: "\<forall>c \<in> set s. \<not> is_ws c \<Longrightarrow> trim s = s"
  by (rule trim_id) auto

lemma trim_end_last: "trim_end s \<noteq> [] \<Longrightarrow> \<not> is_ws (last (trim_end s))"
  unfolding trim_end_def last_rev
  by (metis hd_dropWhile last_rev rev_is_Nil_conv)

lemma trim_end_prefix: "\<exists>t. s = trim_end s @ t"
  unfolding trim_end_def by (metis rev_append rev_rev_ident takeWhile_dropWhile_id)

lemma trim_idem [simp]: "trim (trim s) = trim s"
proof (rule trim_id)
  assume ne: "trim s \<noteq> []"
  obtain t where t: "trim_start s = trim s @ t"
    unfolding trim_def using trim_end_prefix by blast
  with ne have "hd (trim s) = hd (trim_start s)" "trim_start s \<noteq> []"
    by auto
  then show "\<not> is_ws (hd (trim s))"
    unfolding trim_start_def by (metis hd_dropWhile)
next
  assume "trim s \<noteq> []"
  then show "\<not> is_ws (last (trim s))"
    unfolding trim_def by (rule trim_end_last)
qed


section \<open>Decimal numbers\<close>

text \<open>Printing a number in decimal, and \<open>str::parse\<close> for an unsigned integer of a given
  width: an optional \<open>+\<close>, at least one digit, no other character, no overflow.\<close>

definition digit :: "nat \<Rightarrow> char" where
  "digit d = char_of (48 + d)"

fun show_nat :: "nat \<Rightarrow> string" where
  "show_nat n = (if n < 10 then [digit n] else show_nat (n div 10) @ [digit (n mod 10)])"

primrec parse_digits :: "nat \<Rightarrow> string \<Rightarrow> nat option" where
  "parse_digits acc [] = Some acc"
| "parse_digits acc (c # cs) =
     (if is_digit c then parse_digits (10 * acc + (of_char c - 48)) cs else None)"

definition parse_uint :: "nat \<Rightarrow> string \<Rightarrow> nat option" where
  "parse_uint w s =
     (let ds = (case s of [] \<Rightarrow> [] | c # cs \<Rightarrow> if c = CHR ''+'' then cs else s)
      in if ds = [] then None
         else case parse_digits 0 ds of
           None \<Rightarrow> None
         | Some n \<Rightarrow> if n < 2 ^ w then Some n else None)"

definition hex_digit :: "nat \<Rightarrow> char" where
  "hex_digit d = (if d < 10 then char_of (48 + d) else char_of (87 + d))"

primrec hex_fixed :: "nat \<Rightarrow> nat \<Rightarrow> string" where
  "hex_fixed 0 x = []"
| "hex_fixed (Suc n) x = hex_fixed n (x div 16) @ [hex_digit (x mod 16)]"

definition dbg_bytes :: "bytes \<Rightarrow> string" where
  "dbg_bytes bs = ''['' @ join_with '', '' (map (\<lambda>b. show_nat (unat b)) bs) @ '']''"

text \<open>\<open>from_str_radix(s, 16)\<close> for an unsigned integer of a given width, and hexadecimal
  printing.\<close>

definition hex_value :: "char \<Rightarrow> nat option" where
  "hex_value c =
     (let n = of_char c :: nat in
      if 48 \<le> n \<and> n \<le> 57 then Some (n - 48)
      else if 97 \<le> n \<and> n \<le> 102 then Some (n - 87)
      else if 65 \<le> n \<and> n \<le> 70 then Some (n - 55)
      else None)"

primrec parse_hex_digits :: "nat \<Rightarrow> string \<Rightarrow> nat option" where
  "parse_hex_digits acc [] = Some acc"
| "parse_hex_digits acc (c # cs) =
     (case hex_value c of None \<Rightarrow> None | Some d \<Rightarrow> parse_hex_digits (16 * acc + d) cs)"

definition parse_hex :: "nat \<Rightarrow> string \<Rightarrow> nat option" where
  "parse_hex w s =
     (let ds = (case s of [] \<Rightarrow> [] | c # cs \<Rightarrow> if c = CHR ''+'' then cs else s)
      in if ds = [] then None
         else case parse_hex_digits 0 ds of
           None \<Rightarrow> None
         | Some n \<Rightarrow> if n < 2 ^ w then Some n else None)"

fun show_hex :: "nat \<Rightarrow> string" where
  "show_hex n = (if n < 16 then [hex_digit n] else show_hex (n div 16) @ [hex_digit (n mod 16)])"

declare show_hex.simps [simp del]

text \<open>Bytes as text and back, one character per byte.\<close>

definition text_of :: "bytes \<Rightarrow> string" where
  "text_of bs = map (\<lambda>b. char_of (unat b)) bs"

definition bytes_of :: "string \<Rightarrow> bytes" where
  "bytes_of s = map (\<lambda>c. of_nat (of_char c)) s"

text \<open>Debug formatting of a string (\<open>{:?}\<close>): quotes, with the quote, the backslash and the line
  breaks escaped.\<close>

definition dbg_char :: "char \<Rightarrow> string" where
  "dbg_char c =
     (if c = CHR 0x22 then [CHR 0x5C, CHR 0x22]
      else if c = CHR 0x5C then [CHR 0x5C, CHR 0x5C]
      else if c = CHR 0x0A then [CHR 0x5C, CHR ''n'']
      else if c = CHR 0x0D then [CHR 0x5C, CHR ''r'']
      else if c = CHR 0x09 then [CHR 0x5C, CHR ''t'']
      else [c])"

definition dbg_str :: "string \<Rightarrow> string" where
  "dbg_str s = [CHR 0x22] @ concat (map dbg_char s) @ [CHR 0x22]"

definition show_int :: "int \<Rightarrow> string" where
  "show_int i = (if i < 0 then CHR ''-'' # show_nat (nat (- i)) else show_nat (nat i))"

declare show_nat.simps [simp del]

lemma of_char_digit: "d < 10 \<Longrightarrow> of_char (digit d) = 48 + d"
  by (simp add: digit_def)

lemma is_digit_digit [simp]: "d < 10 \<Longrightarrow> is_digit (digit d)"
  by (simp add: is_digit_def of_char_digit)

lemma parse_digits_append:
  "parse_digits acc (a @ b) =
     (case parse_digits acc a of None \<Rightarrow> None | Some n \<Rightarrow> parse_digits n b)"
  by (induction a arbitrary: acc) auto

lemma parse_digits_show [simp]: "parse_digits 0 (show_nat n) = Some n"
proof (induction n rule: show_nat.induct)
  case (1 n)
  then show ?case
    by (subst show_nat.simps) (auto simp: parse_digits_append of_char_digit)
qed

lemma show_nat_nonempty [simp]: "show_nat n \<noteq> []"
  by (subst show_nat.simps) simp

lemma show_nat_digits: "c \<in> set (show_nat n) \<Longrightarrow> is_digit c"
proof (induction n rule: show_nat.induct)
  case (1 n)
  then show ?case
    by (cases "n < 10") (auto simp: show_nat.simps [of n])
qed

lemma show_nat_inj: "show_nat a = show_nat b \<longleftrightarrow> a = b"
  by (metis option.inject parse_digits_show)

lemma parse_uint_show [text_simps]: "n < 2 ^ w \<Longrightarrow> parse_uint w (show_nat n) = Some n"
proof -
  assume n: "n < 2 ^ w"
  obtain c cs where s: "show_nat n = c # cs"
    by (cases "show_nat n") auto
  then have "is_digit c"
    using show_nat_digits [of c n] by simp
  then have "c \<noteq> CHR ''+''"
    by (auto simp: is_digit_def)
  then have "(case show_nat n of [] \<Rightarrow> [] | c # cs \<Rightarrow> if c = CHR ''+'' then cs else show_nat n)
      = show_nat n"
    using s by simp
  with n show ?thesis
    by (simp add: parse_uint_def)
qed

lemma parse_uint_bound: "parse_uint w s = Some n \<Longrightarrow> n < 2 ^ w"
  by (auto simp: parse_uint_def Let_def split: if_splits option.splits)


lemma of_char_hex_digit: "d < 16 \<Longrightarrow> of_char (hex_digit d) = (if d < 10 then 48 + d else 87 + d)"
  by (simp add: hex_digit_def)

lemma hex_value_digit [simp]: "d < 16 \<Longrightarrow> hex_value (hex_digit d) = Some d"
  by (simp add: hex_value_def of_char_hex_digit Let_def)

lemma parse_hex_digits_append:
  "parse_hex_digits acc (a @ b) =
     (case parse_hex_digits acc a of None \<Rightarrow> None | Some n \<Rightarrow> parse_hex_digits n b)"
  by (induction a arbitrary: acc) (auto split: option.splits)

lemma parse_hex_digits_show [simp]: "parse_hex_digits 0 (show_hex n) = Some n"
proof (induction n rule: show_hex.induct)
  case (1 n)
  then show ?case
    by (subst show_hex.simps) (auto simp: parse_hex_digits_append)
qed

lemma show_hex_nonempty [simp]: "show_hex n \<noteq> []"
  by (subst show_hex.simps) simp

lemma show_hex_codes:
  "c \<in> set (show_hex n) \<Longrightarrow>
     48 \<le> (of_char c :: nat) \<and> of_char c \<le> (57 :: nat) \<or>
     97 \<le> (of_char c :: nat) \<and> of_char c \<le> (102 :: nat)"
proof (induction n rule: show_hex.induct)
  case (1 n)
  have d: "48 \<le> (of_char (hex_digit m) :: nat) \<and> of_char (hex_digit m) \<le> (57 :: nat) \<or>
      97 \<le> (of_char (hex_digit m) :: nat) \<and> of_char (hex_digit m) \<le> (102 :: nat)"
    if "m < 16" for m
    using that by (auto simp: of_char_hex_digit)
  show ?case
  proof (cases "n < 16")
    case True
    then show ?thesis
      using 1 d [of n] by (simp add: show_hex.simps [of n])
  next
    case False
    then have "c \<in> set (show_hex (n div 16)) \<or> c = hex_digit (n mod 16)"
      using 1 by (auto simp: show_hex.simps [of n])
    then show ?thesis
      using 1 False d [of "n mod 16"] by auto
  qed
qed

lemma parse_hex_show: "n < 2 ^ w \<Longrightarrow> parse_hex w (show_hex n) = Some n"
proof -
  assume n: "n < 2 ^ w"
  obtain c cs where s: "show_hex n = c # cs"
    by (cases "show_hex n") auto
  then have "c \<noteq> CHR ''+''"
    using show_hex_codes [of c n] by auto
  then have "(case show_hex n of [] \<Rightarrow> [] | c # cs \<Rightarrow> if c = CHR ''+'' then cs else show_hex n)
      = show_hex n"
    using s by simp
  with n show ?thesis
    by (simp add: parse_hex_def)
qed

lemma text_of_bytes_of [simp]: "text_of (bytes_of s) = s"
proof -
  have "char_of (unat (of_nat (of_char c) :: byte)) = c" for c :: char
  proof -
    have "unat (of_nat (of_char c) :: byte) = of_char c mod 256"
      by (rule unat_byte_of_nat)
    also have "\<dots> = of_char c"
      by simp
    finally show ?thesis
      by simp
  qed
  then show ?thesis
    by (simp add: text_of_def bytes_of_def comp_def)
qed


section \<open>Searching\<close>

text \<open>\<open>haystack.windows(n).position(..)\<close> and \<open>str::find\<close>: the offset of the first occurrence of
  a non-empty needle.\<close>

primrec find_subsequence :: "'a list \<Rightarrow> 'a list \<Rightarrow> nat option" where
  "find_subsequence [] needle = (if needle = [] then Some 0 else None)"
| "find_subsequence (x # xs) needle =
     (if take (length needle) (x # xs) = needle then Some 0
      else map_option Suc (find_subsequence xs needle))"

lemma find_subsequence_first:
  "n \<noteq> [] \<Longrightarrow> hd n \<notin> set a \<Longrightarrow> find_subsequence (a @ n @ b) n = Some (length a)"
proof (induction a)
  case Nil
  then show ?case
    by (cases n) auto
next
  case (Cons x a)
  then show ?case
    by (cases n) auto
qed

lemma find_subsequence_bound: "find_subsequence h n = Some i \<Longrightarrow> i + length n \<le> length h"
proof (induction h arbitrary: i)
  case Nil
  then show ?case
    by (auto split: if_splits)
next
  case (Cons x h)
  show ?case
  proof (cases "take (length n) (x # h) = n")
    case True
    then have "length n \<le> length (x # h)"
      by (metis length_take min.cobounded1)
    then show ?thesis
      using Cons True by simp
  qed (use Cons in auto)
qed

lemma find_subsequence_at: "find_subsequence h n = Some i \<Longrightarrow> take (length n) (drop i h) = n"
  by (induction h arbitrary: i) (auto split: if_splits)

text \<open>\<open>str::split_whitespace\<close>.\<close>

function split_ws :: "string \<Rightarrow> string list" where
  "split_ws s =
     (case dropWhile is_ws s of
        [] \<Rightarrow> []
      | c # cs \<Rightarrow> (c # takeWhile (\<lambda>x. \<not> is_ws x) cs)
                   # split_ws (dropWhile (\<lambda>x. \<not> is_ws x) cs))"
  by pat_completeness auto
termination
proof (relation "measure length", goal_cases)
  case (2 s c cs)
  have "length (dropWhile (\<lambda>x. \<not> is_ws x) cs) < length (dropWhile is_ws s)"
    using length_dropWhile_le [of "\<lambda>x. \<not> is_ws x" cs] by (simp add: 2)
  also have "\<dots> \<le> length s"
    by (rule length_dropWhile_le)
  finally show ?case
    by simp
qed simp

declare split_ws.simps [simp del]


section \<open>Invariants of state machines\<close>

text \<open>Every component that is driven by a sequence of events is a step relation. An invariant
  of its initial states that every step keeps holds in every reachable state; the locale is
  interpreted by each such component.\<close>

inductive reachable :: "('s \<Rightarrow> bool) \<Rightarrow> ('s \<Rightarrow> 'l \<Rightarrow> 's \<Rightarrow> bool) \<Rightarrow> 's \<Rightarrow> bool"
  for init :: "'s \<Rightarrow> bool" and step :: "'s \<Rightarrow> 'l \<Rightarrow> 's \<Rightarrow> bool" where
  reach_init: "init s \<Longrightarrow> reachable init step s"
| reach_step: "reachable init step s \<Longrightarrow> step s l s' \<Longrightarrow> reachable init step s'"

locale inductive_invariant =
  fixes init :: "'s \<Rightarrow> bool"
    and step :: "'s \<Rightarrow> 'l \<Rightarrow> 's \<Rightarrow> bool"
    and inv :: "'s \<Rightarrow> bool"
  assumes inv_init: "init s \<Longrightarrow> inv s"
    and inv_step: "inv s \<Longrightarrow> step s l s' \<Longrightarrow> inv s'"
begin

lemma reachable_inv: "reachable init step s \<Longrightarrow> inv s"
  by (induction rule: reachable.induct) (auto intro: inv_init inv_step)

end

text \<open>Running a sequence of labels of an executable step function.\<close>

primrec run_labels :: "('s \<Rightarrow> 'l \<Rightarrow> 's option) \<Rightarrow> 'l list \<Rightarrow> 's \<Rightarrow> 's option" where
  "run_labels f [] s = Some s"
| "run_labels f (l # ls) s = (case f s l of None \<Rightarrow> None | Some s' \<Rightarrow> run_labels f ls s')"

lemma run_labels_reachable:
  assumes "run_labels f ls s = Some s'" "reachable init (\<lambda>s l s'. f s l = Some s') s"
  shows "reachable init (\<lambda>s l s'. f s l = Some s') s'"
  using assms
proof (induction ls arbitrary: s)
  case (Cons l ls)
  then obtain s1 where s1: "f s l = Some s1" "run_labels f ls s1 = Some s'"
    by (auto split: option.splits)
  with Cons.prems(2) have "reachable init (\<lambda>s l s'. f s l = Some s') s1"
    by (auto intro: reach_step)
  with s1 Cons.IH show ?case
    by blast
qed simp

end
