(* ===== verification/Libs.thy ===== *)
theory Libs
  imports Prelude
begin

text \<open>
  The errors of the client (\<open>pbs-client/src/error.rs\<close>) and the third-party primitives the code
  calls.

  The primitives (CRC-32, zstd, SHA-256, PBKDF2, AES-256-GCM, hex, percent encoding, JSON, the
  HTTP status texts) are not part of the repository: they are the fields of \<open>libs\<close>, an
  argument of every definition that uses them. What the code relies on is stated as predicates
  on that record, the hypotheses of the theorems that need them: \<open>zstd_lossless\<close> (a frame the
  encoder made decodes to its input), \<open>gcm_correct\<close> (a sealed message opens under the same key
  and IV), \<open>hex_decodes\<close> (the hex decoder reads two-digit upper-case hex).
\<close>

section \<open>Errors and primitives\<close>

datatype PbsError =
    InvalidRepository string
  | Auth string
  | FingerprintMismatch string string
  | Protocol string
  | Io string

text \<open>A JSON value, as the JSON library presents it.\<close>

datatype json =
    JNull
  | JBool bool
  | JNum int
  | JStr string
  | JArr "json list"
  | JObj "(string \<times> json) list"

fun json_get :: "json \<Rightarrow> string \<Rightarrow> json option" where
  "json_get (JObj kvs) k = map_of kvs k"
| "json_get _ k = None"

fun json_u64 :: "json \<Rightarrow> u64 option" where
  "json_u64 (JNum n) = (if 0 \<le> n \<and> n < 2 ^ 64 then Some (of_int n) else None)"
| "json_u64 _ = None"

record libs =
  crc32fast :: "bytes \<Rightarrow> u32"
  zstd_enc :: "bytes \<Rightarrow> bytes"
  zstd_dec :: "bytes \<Rightarrow> string + bytes"
  sha256 :: "bytes \<Rightarrow> arr32"
  pbkdf2_hmac :: "bytes \<Rightarrow> string \<Rightarrow> nat \<Rightarrow> arr32"
  gcm_seal :: "arr32 \<Rightarrow> arr16 \<Rightarrow> bytes \<Rightarrow> (bytes \<times> arr16) option"
  gcm_open :: "arr32 \<Rightarrow> arr16 \<Rightarrow> bytes \<Rightarrow> arr16 \<Rightarrow> bytes option"
  hex_encode :: "bytes \<Rightarrow> string"
  hex_decode :: "string \<Rightarrow> string + bytes"
  percent_encode :: "string \<Rightarrow> string"
  json_print :: "json \<Rightarrow> bytes"
  json_parse :: "bytes \<Rightarrow> string + json"
  status_text :: "nat \<Rightarrow> string"

definition zstd_lossless :: "libs \<Rightarrow> bool" where
  "zstd_lossless L = (\<forall>x. zstd_dec L (zstd_enc L x) = Inr x)"

definition gcm_correct :: "libs \<Rightarrow> bool" where
  "gcm_correct L =
     ((\<forall>k iv x. length x \<le> 2 ^ 36 \<longrightarrow> gcm_seal L k iv x \<noteq> None) \<and>
      (\<forall>k iv x ct t. gcm_seal L k iv x = Some (ct, t) \<longrightarrow> gcm_open L k iv ct t = Some x))"

definition upper_hex_digit :: "nat \<Rightarrow> char" where
  "upper_hex_digit d = (if d < 10 then char_of (48 + d) else char_of (55 + d))"

definition upper_hex2 :: "byte \<Rightarrow> string" where
  "upper_hex2 b = [upper_hex_digit (unat b div 16), upper_hex_digit (unat b mod 16)]"

definition hex_decodes :: "libs \<Rightarrow> bool" where
  "hex_decodes L = (\<forall>bs. hex_decode L (concat (map upper_hex2 bs)) = Inr bs)"

text \<open>A concrete instance, used to exhibit the properties: an additive checksum, a run-length
  code for constant byte strings as the compressor, a sum as the hash and a key offset as the
  cipher.\<close>

definition demo_zenc :: "bytes \<Rightarrow> bytes" where
  "demo_zenc x =
     (case x of [] \<Rightarrow> [0]
      | b # bs \<Rightarrow> if length x < 256 \<and> (\<forall>c \<in> set bs. c = b) then [1, of_nat (length x), b]
                  else 0 # x)"

definition demo_zdec :: "bytes \<Rightarrow> string + bytes" where
  "demo_zdec f =
     (case f of [] \<Rightarrow> Inl ''empty frame''
      | t # r \<Rightarrow> if t = 0 then Inr r
                  else (case r of [n, b] \<Rightarrow> Inr (replicate (unat n) b) | _ \<Rightarrow> Inl ''bad frame''))"

fun demo_unhex :: "string \<Rightarrow> string + bytes" where
  "demo_unhex [] = Inr []"
| "demo_unhex [c] = Inl ''odd length''"
| "demo_unhex (a # b # cs) =
     (case (hex_value a, hex_value b) of
        (Some x, Some y) \<Rightarrow>
          (case demo_unhex cs of Inl e \<Rightarrow> Inl e | Inr r \<Rightarrow> Inr (of_nat (16 * x + y) # r))
      | _ \<Rightarrow> Inl ''invalid character'')"

definition demo_libs :: libs where
  "demo_libs =
     \<lparr> crc32fast = (\<lambda>x. of_nat (sum_list (map unat x))),
       zstd_enc = demo_zenc,
       zstd_dec = demo_zdec,
       sha256 = (\<lambda>x. of_nat (8 * sum_list (map unat x) + length x)),
       pbkdf2_hmac = (\<lambda>k s n. of_nat (le_nat k + length s + n)),
       gcm_seal = (\<lambda>k iv x. Some (map (\<lambda>b. b + of_nat (unat k + unat iv)) x, of_nat (unat k))),
       gcm_open = (\<lambda>k iv x t. if t = of_nat (unat k)
                   then Some (map (\<lambda>b. b - of_nat (unat k + unat iv)) x) else None),
       hex_encode = (\<lambda>x. concat (map (\<lambda>b. hex_fixed 2 (unat b)) x)),
       hex_decode = demo_unhex,
       percent_encode = (\<lambda>s. s),
       json_print = (\<lambda>j. [123, 125]),
       json_parse = (\<lambda>b. Inr (JObj [(''data'', JNum 1)])),
       status_text = show_nat \<rparr>"

lemma demo_zstd_lossless: "zstd_lossless demo_libs"
proof -
  have "demo_zdec (demo_zenc x) = Inr x" for x
  proof (cases x)
    case (Cons b bs)
    show ?thesis
    proof (cases "length x < 256 \<and> (\<forall>c \<in> set bs. c = b)")
      case True
      then have "replicate (length x) b = x"
        using Cons by (auto simp: replicate_length_same)
      moreover have "unat (of_nat (length x) :: byte) = length x"
        using True by (simp add: unat_of_nat del: of_nat_add of_nat_Suc)
      ultimately have "demo_zdec [1, of_nat (length x), b] = Inr x"
        by (simp add: demo_zdec_def)
      moreover have "demo_zenc x = [1, of_nat (length x), b]"
        using True Cons by (simp add: demo_zenc_def)
      ultimately show ?thesis
        by simp
    qed (auto simp: Cons demo_zenc_def demo_zdec_def)
  qed (simp add: demo_zenc_def demo_zdec_def)
  then show ?thesis
    by (simp add: zstd_lossless_def demo_libs_def)
qed

lemma demo_gcm_correct: "gcm_correct demo_libs"
  by (auto simp: gcm_correct_def demo_libs_def comp_def)

lemma upper_hex_value: "d < 16 \<Longrightarrow> hex_value (upper_hex_digit d) = Some d"
  by (auto simp: hex_value_def upper_hex_digit_def Let_def)

lemma demo_unhex_upper: "demo_unhex (concat (map upper_hex2 bs)) = Inr bs"
proof (induction bs)
  case (Cons b bs)
  have "unat b < 256"
    using unsigned_less [of b] by simp
  then have "hex_value (upper_hex_digit (unat b div 16)) = Some (unat b div 16)"
    "hex_value (upper_hex_digit (unat b mod 16)) = Some (unat b mod 16)"
    by (auto intro: upper_hex_value)
  moreover have "(of_nat (16 * (unat b div 16) + unat b mod 16) :: byte) = b"
    by (simp only: mult_div_mod_eq) simp
  ultimately show ?case
    using Cons by (simp add: upper_hex2_def del: of_nat_add of_nat_mult)
qed simp

lemma demo_hex_decodes: "hex_decodes demo_libs"
  by (simp add: hex_decodes_def demo_libs_def demo_unhex_upper)

end
