(* ===== verification/Blob.thy ===== *)
theory Blob
  imports Libs
begin

text \<open>
  The DataBlob container (\<open>pbs-client/src/blob.rs\<close>): how every chunk and stored object is
  framed, with its checksum and optional compression.
\<close>

section \<open>Encoding\<close>

definition MAGIC_UNCOMPRESSED :: bytes where
  "MAGIC_UNCOMPRESSED = [66, 171, 56, 7, 190, 131, 112, 161]"

definition MAGIC_ZSTD :: bytes where
  "MAGIC_ZSTD = [49, 185, 88, 66, 111, 182, 163, 127]"

definition MAGIC_ENCRYPTED :: bytes where
  "MAGIC_ENCRYPTED = [123, 103, 133, 190, 34, 45, 76, 240]"

definition MAGIC_ENCRYPTED_ZSTD :: bytes where
  "MAGIC_ENCRYPTED_ZSTD = [230, 89, 27, 191, 11, 191, 216, 11]"

definition HEADER_SIZE :: nat where
  "HEADER_SIZE = 12"

definition crc32 :: "libs \<Rightarrow> bytes \<Rightarrow> u32" where
  "crc32 L payload = crc32fast L payload"

definition encode_uncompressed :: "libs \<Rightarrow> bytes \<Rightarrow> bytes" where
  "encode_uncompressed L payload =
     MAGIC_UNCOMPRESSED @ u32_to_le (crc32 L payload) @ payload"

definition zstd_compress :: "libs \<Rightarrow> bytes \<Rightarrow> bytes" where
  "zstd_compress L payload = zstd_enc L payload"

definition zstd_decompress :: "libs \<Rightarrow> bytes \<Rightarrow> PbsError + bytes" where
  "zstd_decompress L frame =
     (case zstd_dec L frame of Inl e \<Rightarrow> Err (Protocol e) | Inr out \<Rightarrow> Ok out)"

definition frame_zstd :: "libs \<Rightarrow> bytes \<Rightarrow> bytes" where
  "frame_zstd L frame = MAGIC_ZSTD @ u32_to_le (crc32 L frame) @ frame"

definition encode_compressed :: "libs \<Rightarrow> bytes \<Rightarrow> bytes" where
  "encode_compressed L payload = frame_zstd L (zstd_compress L payload)"

definition encode_auto :: "libs \<Rightarrow> bytes \<Rightarrow> bytes" where
  "encode_auto L payload =
     (let compressed = zstd_compress L payload
      in if length compressed < length payload then frame_zstd L compressed
         else encode_uncompressed L payload)"


section \<open>Decoding\<close>

definition crc_text :: "string \<Rightarrow> u32 \<Rightarrow> u32 \<Rightarrow> string" where
  "crc_text what stored computed =
     what @ '' crc mismatch: stored 0x'' @ hex_fixed 8 (unat stored)
       @ '', computed 0x'' @ hex_fixed 8 (unat computed)"

definition decode :: "libs \<Rightarrow> bytes \<Rightarrow> PbsError + bytes" where
  "decode L blob =
     (if length blob < HEADER_SIZE
      then Err (Protocol ''blob is shorter than the 12 byte header'')
      else
        let magic = slice 0 8 blob;
            crc_stored = u32_from_le (slice 8 12 blob);
            payload = drop HEADER_SIZE blob;
            crc_actual = crc32 L payload
        in if crc_actual \<noteq> crc_stored
           then Err (Protocol (crc_text ''blob'' crc_stored crc_actual))
           else if magic = MAGIC_UNCOMPRESSED then Ok payload
           else if magic = MAGIC_ZSTD then zstd_decompress L payload
           else if magic = MAGIC_ENCRYPTED \<or> magic = MAGIC_ENCRYPTED_ZSTD
           then Err (Protocol ''encrypted blob: a CryptConfig is required to decode it'')
           else Err (Protocol (''unknown blob magic '' @ dbg_bytes magic)))"

lemmas magic_defs = MAGIC_UNCOMPRESSED_def MAGIC_ZSTD_def MAGIC_ENCRYPTED_def
  MAGIC_ENCRYPTED_ZSTD_def

lemma magic_length [simp]:
  "length MAGIC_UNCOMPRESSED = 8" "length MAGIC_ZSTD = 8"
  "length MAGIC_ENCRYPTED = 8" "length MAGIC_ENCRYPTED_ZSTD = 8"
  by (simp_all add: magic_defs)

lemma magic_distinct [simp]:
  "MAGIC_ZSTD \<noteq> MAGIC_UNCOMPRESSED" "MAGIC_ENCRYPTED \<noteq> MAGIC_UNCOMPRESSED"
  "MAGIC_ENCRYPTED_ZSTD \<noteq> MAGIC_UNCOMPRESSED" "MAGIC_ENCRYPTED \<noteq> MAGIC_ZSTD"
  "MAGIC_ENCRYPTED_ZSTD \<noteq> MAGIC_ZSTD" "MAGIC_ENCRYPTED_ZSTD \<noteq> MAGIC_ENCRYPTED"
  by (simp_all add: magic_defs)

lemmas magic_distinct_sym [simp] = magic_distinct [symmetric]

lemma framed_fields:
  assumes "length m = 8"
  shows "slice 0 8 (m @ u32_to_le c @ p) = m"
    and "u32_from_le (slice 8 12 (m @ u32_to_le c @ p)) = c"
    and "drop HEADER_SIZE (m @ u32_to_le c @ p) = p"
    and "\<not> length (m @ u32_to_le c @ p) < HEADER_SIZE"
  using assms by (simp_all add: slice_def HEADER_SIZE_def)

lemma decode_uncompressed [simp]: "decode L (encode_uncompressed L p) = Ok p"
  unfolding decode_def encode_uncompressed_def
  by (simp only: framed_fields magic_length Let_def if_False not_True_eq_False simp_thms if_True)

lemma decode_frame_zstd: "decode L (frame_zstd L f) = zstd_decompress L f"
  unfolding decode_def frame_zstd_def
  by (simp only: framed_fields magic_length magic_distinct Let_def if_False
      not_True_eq_False simp_thms if_True)

lemma zstd_roundtrip: "zstd_lossless L \<Longrightarrow> zstd_decompress L (zstd_compress L p) = Ok p"
  by (simp add: zstd_decompress_def zstd_compress_def zstd_lossless_def)

lemma decode_auto: "zstd_lossless L \<Longrightarrow> decode L (encode_auto L p) = Ok p"
  by (simp add: encode_auto_def Let_def decode_frame_zstd zstd_roundtrip)

lemma frame_lengths:
  "length (encode_uncompressed L p) = 12 + length p"
  "length (frame_zstd L f) = 12 + length f"
  by (simp_all add: encode_uncompressed_def frame_zstd_def)

lemma encode_auto_size: "length (encode_auto L p) \<le> 12 + length p"
  by (simp add: encode_auto_def Let_def frame_lengths)


section \<open>Properties\<close>

text \<open>A blob written by \<open>encode_auto\<close> decodes to the payload it was made from, whichever of
  the two formats was chosen, and never exceeds the payload by more than the 12-byte header,
  given that zstd frames decode to what was compressed.\<close>

theorem encode_auto_roundtrip:
  assumes "zstd_lossless L"
  shows "decode L (encode_auto L payload) = Ok payload \<and>
    length (encode_auto L payload) \<le> HEADER_SIZE + length payload"
  using decode_auto [OF assms] encode_auto_size by (simp add: HEADER_SIZE_def)

theorem encode_auto_roundtrip_witness:
  "decode demo_libs (encode_auto demo_libs [7, 7, 7, 7, 7]) = Ok [7, 7, 7, 7, 7] \<and>
   encode_auto demo_libs [7, 7, 7, 7, 7] = MAGIC_ZSTD @ [13, 0, 0, 0] @ [1, 5, 7]"
proof
  show "decode demo_libs (encode_auto demo_libs [7, 7, 7, 7, 7]) = Ok [7, 7, 7, 7, 7]"
    using encode_auto_roundtrip [OF demo_zstd_lossless] by (rule conjunct1)
  show "encode_auto demo_libs [7, 7, 7, 7, 7] = MAGIC_ZSTD @ [13, 0, 0, 0] @ [1, 5, 7]"
    by code_simp
qed

text \<open>Decoding accepts a blob exactly when it has a full header, its stored CRC is the CRC of
  its payload bytes, and it is an uncompressed blob with that payload or a zstd blob whose frame
  decompresses to it. Everything else (short, corrupted, encrypted, unknown magic, bad frame)
  is an error.\<close>

theorem decode_accepts_iff:
  "decode L blob = Ok p \<longleftrightarrow>
     HEADER_SIZE \<le> length blob \<and>
     u32_from_le (slice 8 12 blob) = crc32 L (drop HEADER_SIZE blob) \<and>
     (slice 0 8 blob = MAGIC_UNCOMPRESSED \<and> p = drop HEADER_SIZE blob \<or>
      slice 0 8 blob = MAGIC_ZSTD \<and> zstd_decompress L (drop HEADER_SIZE blob) = Ok p)"
  by (auto simp: decode_def Let_def)

end
