(* ===== verification/Repository.thy ===== *)
theory Repository
  imports Blob
begin

text \<open>
  Repository strings (\<open>pbs-client/src/repository.rs\<close>):
  \<open>[[auth-id@]host[:port]:]datastore[/namespace]\<close>. Parsing (\<open>FromStr\<close>) and printing
  (\<open>Display\<close>) with the round trip between them for well-formed references.
\<close>

section \<open>Parsing and printing\<close>

definition DEFAULT_PORT :: u16 where
  "DEFAULT_PORT = 8007"

record Repository =
  auth_id :: "string option"
  host :: "string option"
  port :: "u16 option"
  datastore :: string
  namespace :: "string option"

definition repo_port :: "Repository \<Rightarrow> u16" where
  "repo_port r = (case port r of None \<Rightarrow> DEFAULT_PORT | Some p \<Rightarrow> p)"

definition parse_port :: "string \<Rightarrow> string \<Rightarrow> PbsError + u16" where
  "parse_port s ctx =
     (case parse_uint 16 s of
        Some n \<Rightarrow> Ok (of_nat n)
      | None \<Rightarrow> Err (InvalidRepository (''invalid port '' @ dbg_str s @ '' in '' @ dbg_str ctx)))"

definition split_port_datastore ::
  "string \<Rightarrow> string \<Rightarrow> PbsError + (u16 option \<times> string)" where
  "split_port_datastore tail ctx =
     (case split_once CHR '':'' tail of
        Some (p, ds) \<Rightarrow> and_then (parse_port p ctx) (\<lambda>n. Ok (Some n, ds))
      | None \<Rightarrow> Ok (None, tail))"

definition parse_host_part ::
  "string \<Rightarrow> PbsError + (string option \<times> u16 option \<times> string)" where
  "parse_host_part rest =
     (case strip_prefix_char CHR ''['' rest of
        Some after_bracket \<Rightarrow>
          (case split_once CHR '']'' after_bracket of
             None \<Rightarrow> Err (InvalidRepository (''unclosed '' @ [CHR 0x27, CHR ''['', CHR 0x27]
                            @ '' in '' @ dbg_str rest))
           | Some (h, after_close) \<Rightarrow>
               (case strip_prefix_char CHR '':'' after_close of
                  Some tail \<Rightarrow>
                    and_then (split_port_datastore tail rest)
                      (\<lambda>(p, ds). Ok (Some (''['' @ h @ '']''), p, ds))
                | None \<Rightarrow> Err (InvalidRepository
                        (''expected '' @ [CHR 0x27, CHR '':'', CHR 0x27] @ '' after ''
                         @ [CHR 0x27, CHR '']'', CHR 0x27] @ '' in '' @ dbg_str rest))))
      | None \<Rightarrow>
          (case split_on CHR '':'' rest of
             [ds] \<Rightarrow> Ok (None, None, ds)
           | [h, ds] \<Rightarrow> Ok (Some h, None, ds)
           | [h, p, ds] \<Rightarrow> and_then (parse_port p rest) (\<lambda>n. Ok (Some h, Some n, ds))
           | _ \<Rightarrow> Err (InvalidRepository
                  (''too many '' @ [CHR 0x27, CHR '':'', CHR 0x27] @ '' separated fields in ''
                   @ dbg_str rest))))"

definition split_namespace :: "string \<Rightarrow> string \<times> string option" where
  "split_namespace store_and_ns =
     (case split_once CHR ''/'' store_and_ns of
        Some (ds, ns) \<Rightarrow> if ns \<noteq> [] then (ds, Some ns) else (store_and_ns, None)
      | None \<Rightarrow> (store_and_ns, None))"

definition repo_from_str :: "string \<Rightarrow> PbsError + Repository" where
  "repo_from_str s0 =
     (let s = trim s0 in
      if s = [] then Err (InvalidRepository ''empty string'')
      else
        let (auth, rest) = (case rsplit_once CHR ''@'' s of
               Some (a, r) \<Rightarrow> (Some a, r) | None \<Rightarrow> (None, s))
        in and_then (parse_host_part rest) (\<lambda>(h, p, store_and_ns).
             let (ds, ns) = split_namespace store_and_ns in
             if ds = [] then Err (InvalidRepository (''missing datastore in '' @ dbg_str s))
             else Ok \<lparr> auth_id = auth, host = h, port = p, datastore = ds, namespace = ns \<rparr>))"

definition show_host :: "Repository \<Rightarrow> string" where
  "show_host r =
     (case host r of None \<Rightarrow> []
      | Some h \<Rightarrow> h @ (case port r of None \<Rightarrow> [] | Some p \<Rightarrow> CHR '':'' # show_nat (unat p)) @ '':'')"

definition show_store :: "Repository \<Rightarrow> string" where
  "show_store r =
     datastore r @ (case namespace r of None \<Rightarrow> [] | Some ns \<Rightarrow> CHR ''/'' # ns)"

definition repo_to_string :: "Repository \<Rightarrow> string" where
  "repo_to_string r =
     (case auth_id r of None \<Rightarrow> [] | Some a \<Rightarrow> a @ ''@'') @ show_host r @ show_store r"


section \<open>Well-formed references\<close>

text \<open>The references the documented grammar describes: no separator inside a field, a host that
  is a name or a bracketed address, a port only with a host, and nothing that trimming the
  string would remove.\<close>

definition plain_field :: "string \<Rightarrow> bool" where
  "plain_field s = (CHR '':'' \<notin> set s \<and> CHR ''@'' \<notin> set s)"

definition bracketed :: "string \<Rightarrow> bool" where
  "bracketed h =
     (\<exists>a. h = CHR ''['' # a @ '']'' \<and> CHR '']'' \<notin> set a \<and> CHR ''@'' \<notin> set a)"

definition wf_host :: "string \<Rightarrow> bool" where
  "wf_host h = (bracketed h \<or> plain_field h \<and> (h = [] \<or> hd h \<noteq> CHR ''[''))"

definition wf_repo :: "Repository \<Rightarrow> bool" where
  "wf_repo r =
     (datastore r \<noteq> [] \<and> plain_field (datastore r) \<and> CHR ''/'' \<notin> set (datastore r) \<and>
      (case namespace r of None \<Rightarrow> True | Some ns \<Rightarrow> ns \<noteq> [] \<and> plain_field ns) \<and>
      (case host r of None \<Rightarrow> port r = None \<and> hd (datastore r) \<noteq> CHR ''[''
       | Some h \<Rightarrow> wf_host h) \<and>
      trim (repo_to_string r) = repo_to_string r)"

lemma show_store_plain: "wf_repo r \<Longrightarrow> plain_field (show_store r)"
  by (auto simp: wf_repo_def plain_field_def show_store_def split: option.splits)

lemma split_namespace_show_store:
  "wf_repo r \<Longrightarrow> split_namespace (show_store r) = (datastore r, namespace r)"
  by (cases "namespace r")
     (simp_all add: wf_repo_def split_namespace_def show_store_def split_once_append
      split_once_absent)

lemma port_plain: "CHR '':'' \<notin> set (show_nat n)" "CHR ''@'' \<notin> set (show_nat n)"
  using show_nat_digits [of "CHR '':''" n] show_nat_digits [of "CHR ''@''" n]
  by (auto simp: is_digit_def)

lemma parse_port_show: "parse_port (show_nat (unat p)) ctx = Ok p"
proof -
  have "unat p < 2 ^ 16"
    using unsigned_less [of p] by simp
  then show ?thesis
    by (simp add: parse_port_def parse_uint_show)
qed

lemma parse_host_local:
  assumes "plain_field s" "s \<noteq> []" "hd s \<noteq> CHR ''[''"
  shows "parse_host_part s = Ok (None, None, s)"
  using assms by (simp add: parse_host_part_def split_on_single plain_field_def
      strip_prefix_char_other)

lemma parse_host_plain:
  assumes "plain_field h" "h = [] \<or> hd h \<noteq> CHR ''[''" "plain_field s"
  shows "parse_host_part (h @ CHR '':'' # s) = Ok (Some h, None, s)"
    and "parse_host_part (h @ CHR '':'' # show_nat (unat p) @ CHR '':'' # s)
      = Ok (Some h, Some p, s)"
proof -
  have nb: "strip_prefix_char CHR ''['' (h @ CHR '':'' # t) = None" for t
    using assms(2) by (cases h) (auto intro: strip_prefix_char_other)
  have c: "CHR '':'' \<notin> set h" "CHR '':'' \<notin> set s"
    using assms by (auto simp: plain_field_def)
  show "parse_host_part (h @ CHR '':'' # s) = Ok (Some h, None, s)"
    by (simp add: parse_host_part_def nb split_on_append split_on_single c)
  show "parse_host_part (h @ CHR '':'' # show_nat (unat p) @ CHR '':'' # s) = Ok (Some h, Some p, s)"
    by (simp add: parse_host_part_def nb split_on_append split_on_single c port_plain
        parse_port_show)
qed

lemma parse_host_bracketed:
  assumes "CHR '']'' \<notin> set a" "plain_field s"
  shows "parse_host_part (CHR ''['' # a @ '']'' @ CHR '':'' # s)
      = Ok (Some (CHR ''['' # a @ '']''), None, s)"
    and "parse_host_part (CHR ''['' # a @ '']'' @ CHR '':'' # show_nat (unat p) @ CHR '':'' # s)
      = Ok (Some (CHR ''['' # a @ '']''), Some p, s)"
  using assms by (simp_all add: parse_host_part_def split_once_append split_port_datastore_def
      split_once_absent plain_field_def port_plain parse_port_show)

lemma parse_host_show:
  assumes "wf_repo r"
  shows "parse_host_part (show_host r @ show_store r) = Ok (host r, port r, show_store r)"
proof (cases "host r")
  case None
  then have "show_store r \<noteq> []" "hd (show_store r) \<noteq> CHR ''[''"
    using assms by (auto simp: wf_repo_def show_store_def)
  then show ?thesis
    using None assms parse_host_local [OF show_store_plain [OF assms]]
    by (simp add: show_host_def wf_repo_def)
next
  case (Some h)
  then have "wf_host h"
    using assms by (simp add: wf_repo_def)
  then consider (b) a where "h = CHR ''['' # a @ '']''" "CHR '']'' \<notin> set a"
    | (p) "plain_field h" "h = [] \<or> hd h \<noteq> CHR ''[''"
    by (auto simp: wf_host_def bracketed_def)
  then show ?thesis
  proof cases
    case b
    then show ?thesis
      using Some parse_host_bracketed [OF b(2) show_store_plain [OF assms]]
      by (cases "port r") (simp_all add: show_host_def)
  next
    case p
    then show ?thesis
      using Some parse_host_plain [OF p show_store_plain [OF assms]]
      by (cases "port r") (simp_all add: show_host_def)
  qed
qed

lemma show_host_store_no_at: "wf_repo r \<Longrightarrow> CHR ''@'' \<notin> set (show_host r @ show_store r)"
  using show_store_plain [of r]
  by (auto simp: wf_repo_def show_host_def wf_host_def bracketed_def plain_field_def port_plain
      split: option.splits)


section \<open>Properties\<close>

text \<open>Printing a well-formed repository reference and parsing the text gives the reference
  back: the auth id (which may contain \<open>@\<close>), the host (a name or a bracketed IPv6 address), the
  port, the datastore and the (possibly nested) namespace are all recovered.\<close>

theorem repo_print_parse:
  assumes "wf_repo r"
  shows "repo_from_str (repo_to_string r) = Ok r"
proof -
  have "show_store r \<noteq> []"
    using assms by (auto simp: wf_repo_def show_store_def)
  then have ne: "repo_to_string r \<noteq> []"
    by (simp add: repo_to_string_def)
  have tr: "trim (repo_to_string r) = repo_to_string r"
    using assms by (simp add: wf_repo_def)
  have "(case rsplit_once CHR ''@'' (repo_to_string r) of
      Some (a, x) \<Rightarrow> (Some a, x) | None \<Rightarrow> (None, repo_to_string r))
      = (auth_id r, show_host r @ show_store r)"
    using show_host_store_no_at [OF assms]
    by (cases "auth_id r") (simp_all add: repo_to_string_def rsplit_once_append
        rsplit_once_absent del: set_append)
  moreover have "datastore r \<noteq> []"
    using assms by (simp add: wf_repo_def)
  ultimately show ?thesis
    using ne by (simp add: repo_from_str_def tr Let_def parse_host_show [OF assms]
        split_namespace_show_store [OF assms])
qed

theorem repo_print_parse_witness:
  "repo_from_str ''svc@pbs!tok@[2001:db8::1]:8007:backups/team/project'' =
     Ok \<lparr> auth_id = Some ''svc@pbs!tok'', host = Some ''[2001:db8::1]'', port = Some 8007,
          datastore = ''backups'', namespace = Some ''team/project'' \<rparr>"
proof -
  let ?r = "\<lparr> auth_id = Some ''svc@pbs!tok'', host = Some ''[2001:db8::1]'', port = Some 8007,
          datastore = ''backups'', namespace = Some ''team/project'' \<rparr>"
  have s: "repo_to_string ?r = ''svc@pbs!tok@[2001:db8::1]:8007:backups/team/project''"
    by code_simp
  have "bracketed ''[2001:db8::1]''"
    unfolding bracketed_def by (rule exI [of _ "''2001:db8::1''"]) simp
  moreover have "trim (repo_to_string ?r) = repo_to_string ?r"
    unfolding s by code_simp
  ultimately have "wf_repo ?r"
    by (simp add: wf_repo_def wf_host_def plain_field_def)
  from repo_print_parse [OF this] show ?thesis
    unfolding s .
qed

text \<open>C36: Every reference the parser accepts has a non-empty datastore, and a port only together
  with a host. A slash is left in the datastore only when it is the single trailing slash of a
  reference with no namespace.\<close>

theorem repo_parse_shape:
  assumes "repo_from_str s = Ok r"
  shows "datastore r \<noteq> [] \<and> (port r \<noteq> None \<longrightarrow> host r \<noteq> None) \<and>
    (CHR ''/'' \<in> set (datastore r) \<longrightarrow>
       namespace r = None \<and> (\<exists>ds. datastore r = ds @ ''/'' \<and> CHR ''/'' \<notin> set ds))"
proof -
  from assms obtain a rest h p sn where
    ph: "parse_host_part rest = Ok (h, p, sn)" and ne: "fst (split_namespace sn) \<noteq> []"
    and r: "r = \<lparr> auth_id = a, host = h, port = p, datastore = fst (split_namespace sn),
              namespace = snd (split_namespace sn) \<rparr>"
    by (cases "case rsplit_once CHR ''@'' (trim s) of
          Some (a, r) \<Rightarrow> (Some a, r) | None \<Rightarrow> (None, trim s)")
       (auto simp: repo_from_str_def Let_def case_prod_beta split: if_splits)
  have "p \<noteq> None \<longrightarrow> h \<noteq> None"
    using ph by (auto simp: parse_host_part_def split: list.splits if_splits option.splits)
  moreover have "snd (split_namespace sn) = None \<and>
      (\<exists>ds. fst (split_namespace sn) = ds @ ''/'' \<and> CHR ''/'' \<notin> set ds)"
    if "CHR ''/'' \<in> set (fst (split_namespace sn))"
  proof (cases "split_once CHR ''/'' sn")
    case None
    then show ?thesis
      using that split_once_None [of "CHR ''/''" sn] by (simp add: split_namespace_def)
  next
    case (Some q)
    then obtain ds ns where q: "split_once CHR ''/'' sn = Some (ds, ns)"
      by (cases q) auto
    then have sn: "sn = ds @ CHR ''/'' # ns" "CHR ''/'' \<notin> set ds"
      by (simp_all add: split_once_Some)
    then show ?thesis
      using that q by (cases "ns = []") (auto simp: split_namespace_def)
  qed
  ultimately show ?thesis
    using r ne by simp
qed

theorem repo_parse_shape_witness:
  "repo_from_str ''pbs.example.com:backups/'' =
     Ok \<lparr> auth_id = None, host = Some ''pbs.example.com'', port = None,
          datastore = ''backups/'', namespace = None \<rparr> \<and>
   (\<exists>ds. ''backups/'' = ds @ ''/'' \<and> CHR ''/'' \<notin> set ds)"
proof -
  let ?r = "\<lparr> auth_id = None, host = Some ''pbs.example.com'', port = None,
          datastore = ''backups/'', namespace = None \<rparr>"
  have p: "repo_from_str ''pbs.example.com:backups/'' = Ok ?r"
    by code_simp
  then show ?thesis
    using repo_parse_shape [OF p] by simp
qed

end
