(* ===== verification/Api.thy ===== *)
theory Api
  imports Repository
begin

text \<open>
  The management REST client (\<open>pbs-client/src/api.rs\<close>): request paths, the read loop, the
  HTTP/1.1 response parser and the chunked-transfer decoder.

  A slice out of range panics in the source; \<open>dechunk\<close> returns \<open>None\<close> there.
\<close>

section \<open>Requests\<close>

record ApiClient =
  ac_host :: string
  ac_port :: u16
  ac_auth_id :: string
  ac_secret :: string
  ac_fingerprint :: string

definition api_from_repository ::
  "Repository \<Rightarrow> string \<Rightarrow> string \<Rightarrow> PbsError + ApiClient" where
  "api_from_repository repo secret fp =
     (case host repo of
        None \<Rightarrow> Err (Protocol ''repository has no host'')
      | Some h \<Rightarrow>
          (case auth_id repo of
             None \<Rightarrow> Err (Auth ''repository has no auth id'')
           | Some a \<Rightarrow>
               if trim a = [] then Err (Auth ''repository has no auth id'')
               else Ok \<lparr> ac_host = h, ac_port = repo_port repo, ac_auth_id = trim a,
                         ac_secret = trim secret, ac_fingerprint = fp \<rparr>))"

definition snapshots_path ::
  "libs \<Rightarrow> string \<Rightarrow> string option \<Rightarrow> string \<Rightarrow> string \<Rightarrow> string" where
  "snapshots_path L ds ns ty bid =
     ''/api2/json/admin/datastore/'' @ percent_encode L ds @ ''/snapshots?backup-type=''
       @ percent_encode L ty @ ''&backup-id='' @ percent_encode L bid
       @ (case ns of None \<Rightarrow> []
          | Some n \<Rightarrow> if n = [] then [] else ''&ns='' @ percent_encode L n)"

definition acl_path :: "string \<Rightarrow> string option \<Rightarrow> string" where
  "acl_path ds ns =
     (case ns of
        Some n \<Rightarrow> if n \<noteq> [] then ''/datastore/'' @ ds @ ''/'' @ n else ''/datastore/'' @ ds
      | None \<Rightarrow> ''/datastore/'' @ ds)"

definition permissions_path :: "libs \<Rightarrow> string \<Rightarrow> string option \<Rightarrow> string" where
  "permissions_path L ds ns =
     ''/api2/json/access/permissions?path='' @ percent_encode L (acl_path ds ns)"

definition get_data :: "libs \<Rightarrow> bytes \<Rightarrow> PbsError + json" where
  "get_data L body =
     (case json_parse L body of
        Inl e \<Rightarrow> Err (Protocol (''invalid JSON response: '' @ e))
      | Inr v \<Rightarrow> Ok (case json_get v ''data'' of None \<Rightarrow> JNull | Some d \<Rightarrow> d))"

fun truthy :: "json \<Rightarrow> bool" where
  "truthy (JBool b) = b"
| "truthy (JNum n) = (0 < n \<and> n < 2 ^ 64)"
| "truthy _ = False"

definition privilege_granted :: "json \<Rightarrow> string \<Rightarrow> string \<Rightarrow> bool" where
  "privilege_granted data path name =
     (case json_get data name of
        Some v \<Rightarrow> truthy v
      | None \<Rightarrow>
          (case json_get data path of
             None \<Rightarrow> False
           | Some m \<Rightarrow> (case json_get m name of None \<Rightarrow> False | Some v \<Rightarrow> truthy v)))"


section \<open>Responses\<close>

abbreviation eol :: string where
  "eol \<equiv> [CHR 0x0D, CHR 0x0A]"

definition CRLF :: bytes where
  "CRLF = [13, 10]"

text \<open>The events of the read loop: data, a clean end, an unclean TLS end, or an error.\<close>

datatype ReadEvent = Data bytes | Eof | UnexpectedEof | ReadErr string

primrec read_raw :: "bytes \<Rightarrow> ReadEvent list \<Rightarrow> (PbsError + bytes) option" where
  "read_raw raw [] = None"
| "read_raw raw (e # es) =
     (case e of
        Eof \<Rightarrow> Some (Ok raw)
      | Data b \<Rightarrow> if b = [] then Some (Ok raw) else read_raw (raw @ b) es
      | UnexpectedEof \<Rightarrow> Some (Ok raw)
      | ReadErr m \<Rightarrow> Some (Err (Io m)))"

function dechunk :: "bytes \<Rightarrow> bytes \<Rightarrow> (PbsError + bytes) option" where
  "dechunk out body =
     (case find_subsequence body CRLF of
        None \<Rightarrow> Some (Err (Protocol ''malformed chunked body''))
      | Some line_end \<Rightarrow>
          (case parse_hex 64 (trim (hd (split_on CHR '';'' (trim (text_of (take line_end body)))))) of
             None \<Rightarrow> Some (Err (Protocol ''invalid chunk size''))
           | Some sz \<Rightarrow>
               let rest = drop (line_end + 2) body in
               if sz = 0 then Some (Ok out)
               else if length rest < sz then Some (Err (Protocol ''truncated chunk''))
               else if length rest < sz + 2 then None
               else dechunk (out @ take sz rest) (drop (sz + 2) rest)))"
  by pat_completeness auto
termination by (relation "measure (\<lambda>(out, body). length body)") auto

declare dechunk.simps [simp del]

definition first_line :: "string \<Rightarrow> string" where
  "first_line s =
     (let l = takeWhile (\<lambda>c. c \<noteq> CHR 0x0A) s
      in if l \<noteq> [] \<and> last l = CHR 0x0D then butlast l else l)"

definition status_code :: "string \<Rightarrow> nat" where
  "status_code line =
     (case split_ws line of
        _ # c # _ \<Rightarrow> (case parse_uint 16 c of Some n \<Rightarrow> n | None \<Rightarrow> 0)
      | _ \<Rightarrow> 0)"

definition parse_http_response :: "bytes \<Rightarrow> (PbsError + bytes) option" where
  "parse_http_response raw =
     (case find_subsequence raw (CRLF @ CRLF) of
        None \<Rightarrow> Some (Err (Protocol ''malformed HTTP response (no header end)''))
      | Some sep \<Rightarrow>
          let header = text_of (take sep raw);
              body = drop (sep + 4) raw;
              status_line = first_line header;
              code = status_code status_line;
              chunked = (find_subsequence (to_lower header) ''transfer-encoding: chunked'' \<noteq> None)
          in (case (if chunked then dechunk [] body else Some (Ok body)) of
                None \<Rightarrow> None
              | Some (Inl e) \<Rightarrow> Some (Inl e)
              | Some (Inr b) \<Rightarrow>
                  if \<not> (200 \<le> code \<and> code < 300)
                  then Some (Err (Protocol (''server returned '' @ trim status_line @ '': ''
                               @ text_of b)))
                  else Some (Ok b)))"

definition api_get :: "ReadEvent list \<Rightarrow> (PbsError + bytes) option" where
  "api_get events =
     (case read_raw [] events of
        None \<Rightarrow> None
      | Some (Inl e) \<Rightarrow> Some (Inl e)
      | Some (Inr raw) \<Rightarrow> parse_http_response raw)"


definition http_get_text :: "ApiClient \<Rightarrow> string \<Rightarrow> string" where
  "http_get_text a path =
     ''GET '' @ path @ '' HTTP/1.1'' @ eol
       @ ''Host: '' @ ac_host a @ '':'' @ show_nat (unat (ac_port a)) @ eol
       @ ''Authorization: PBSAPIToken='' @ ac_auth_id a @ '':'' @ ac_secret a @ eol
       @ ''Accept: application/json'' @ eol @ ''Connection: close'' @ eol @ eol"

definition api_get_data :: "libs \<Rightarrow> ReadEvent list \<Rightarrow> (PbsError + json) option" where
  "api_get_data L events = map_option (\<lambda>r. and_then r (get_data L)) (api_get events)"

text \<open>The permission query and the snapshot listing, from the response of their GET.\<close>

definition can_backup ::
  "libs \<Rightarrow> string \<Rightarrow> string option \<Rightarrow> ReadEvent list \<Rightarrow> (PbsError + bool) option" where
  "can_backup L ds ns events =
     map_option (\<lambda>r. and_then r (\<lambda>data.
       Ok (privilege_granted data (acl_path ds ns) ''Datastore.Backup''))) (api_get_data L events)"

record SnapshotFile =
  sf_filename :: string
  sf_size :: "u64 option"

record Snapshot =
  sn_backup_time :: i64
  sn_backup_id :: string
  sn_backup_type :: string
  sn_size :: "u64 option"
  sn_files :: "SnapshotFile list"
  sn_owner :: "string option"

fun json_str :: "json \<Rightarrow> string option" where
  "json_str (JStr s) = Some s"
| "json_str _ = None"

fun json_i64 :: "json \<Rightarrow> i64 option" where
  "json_i64 (JNum n) = (if - (2 ^ 63) \<le> n \<and> n < 2 ^ 63 then Some (of_int n) else None)"
| "json_i64 _ = None"

definition json_default :: "(json \<Rightarrow> 'a option) \<Rightarrow> json option \<Rightarrow> 'a option option" where
  "json_default f v =
     (case v of None \<Rightarrow> Some None
      | Some j \<Rightarrow> if j = JNull then Some None else map_option Some (f j))"

definition snapshot_file_of_json :: "json \<Rightarrow> SnapshotFile option" where
  "snapshot_file_of_json j =
     (case (Option.bind (json_get j ''filename'') json_str,
            json_default json_u64 (json_get j ''size'')) of
        (Some n, Some s) \<Rightarrow> Some \<lparr> sf_filename = n, sf_size = s \<rparr>
      | _ \<Rightarrow> None)"

fun all_some :: "'a option list \<Rightarrow> 'a list option" where
  "all_some [] = Some []"
| "all_some (x # xs) =
     (case (x, all_some xs) of (Some y, Some ys) \<Rightarrow> Some (y # ys) | _ \<Rightarrow> None)"

fun snapshot_files_of_json :: "json option \<Rightarrow> SnapshotFile list option" where
  "snapshot_files_of_json None = Some []"
| "snapshot_files_of_json (Some (JArr js)) = all_some (map snapshot_file_of_json js)"
| "snapshot_files_of_json (Some _) = None"

definition snapshot_of_json :: "json \<Rightarrow> Snapshot option" where
  "snapshot_of_json j =
     (case (Option.bind (json_get j ''backup-time'') json_i64,
            Option.bind (json_get j ''backup-id'') json_str,
            Option.bind (json_get j ''backup-type'') json_str,
            json_default json_u64 (json_get j ''size''),
            snapshot_files_of_json (json_get j ''files''),
            json_default json_str (json_get j ''owner'')) of
        (Some t, Some i, Some ty, Some sz, Some fs, Some ow) \<Rightarrow>
          Some \<lparr> sn_backup_time = t, sn_backup_id = i, sn_backup_type = ty, sn_size = sz,
                 sn_files = fs, sn_owner = ow \<rparr>
      | _ \<Rightarrow> None)"

fun snapshots_of_json :: "json \<Rightarrow> PbsError + Snapshot list" where
  "snapshots_of_json (JArr js) =
     (case all_some (map snapshot_of_json js) of
        None \<Rightarrow> Err (Protocol ''parsing snapshots'')
      | Some ss \<Rightarrow> Ok ss)"
| "snapshots_of_json _ = Err (Protocol ''parsing snapshots'')"

definition list_snapshots :: "libs \<Rightarrow> ReadEvent list \<Rightarrow> (PbsError + Snapshot list) option" where
  "list_snapshots L events = map_option (\<lambda>r. and_then r snapshots_of_json) (api_get_data L events)"

section \<open>The chunked coding\<close>

text \<open>The sender's side of the coding, as the HTTP/1.1 standard defines it: each chunk is its
  length in hexadecimal, a line break, the data and a line break; a chunk of length zero ends
  the body.\<close>

definition chunk_header :: "bytes \<Rightarrow> bytes" where
  "chunk_header c = bytes_of (show_hex (length c)) @ CRLF"

definition chunked_body :: "bytes list \<Rightarrow> bytes" where
  "chunked_body cs = concat (map (\<lambda>c. chunk_header c @ c @ CRLF) cs) @ chunk_header [] @ CRLF"

lemma hex_text_plain:
  "13 \<notin> set (bytes_of (show_hex n))" "CHR '';'' \<notin> set (show_hex n)" "trim (show_hex n) = show_hex n"
proof -
  have "(of_nat (of_char c) :: byte) \<noteq> 13" if "c \<in> set (show_hex n)" for c
  proof
    assume "(of_nat (of_char c) :: byte) = 13"
    then have "unat (of_nat (of_char c) :: byte) = 13"
      by simp
    then show False
      using show_hex_codes [OF that] by (simp add: unat_byte_of_nat)
  qed
  then show "13 \<notin> set (bytes_of (show_hex n))"
    by (auto simp: bytes_of_def)
  show "CHR '';'' \<notin> set (show_hex n)"
    using show_hex_codes [of "CHR '';''" n] by auto
  show "trim (show_hex n) = show_hex n"
  proof (rule trim_no_ws, rule ballI)
    fix c assume "c \<in> set (show_hex n)"
    from show_hex_codes [OF this] show "\<not> is_ws c"
      by (auto simp: is_ws_def)
  qed
qed

lemma dechunk_header:
  assumes "length c < 2 ^ 64"
  shows "dechunk out (chunk_header c @ rest) =
    (if c = [] then Some (Ok out)
     else if length rest < length c then Some (Err (Protocol ''truncated chunk''))
     else if length rest < length c + 2 then None
     else dechunk (out @ take (length c) rest) (drop (length c + 2) rest))"
proof -
  let ?n = "bytes_of (show_hex (length c))"
  have "find_subsequence (?n @ CRLF @ rest) CRLF = Some (length ?n)"
    by (rule find_subsequence_first) (simp_all add: CRLF_def hex_text_plain)
  then have f: "find_subsequence (chunk_header c @ rest) CRLF = Some (length ?n)"
    by (simp add: chunk_header_def)
  have t: "take (length ?n) (chunk_header c @ rest) = ?n"
    by (simp add: chunk_header_def)
  have d: "drop (length ?n + 2) (chunk_header c @ rest) = rest"
    by (simp add: chunk_header_def CRLF_def)
  have "parse_hex 64 (trim (hd (split_on CHR '';'' (trim (text_of ?n))))) = Some (length c)"
    using assms by (simp add: hex_text_plain split_on_single parse_hex_show)
  then show ?thesis
    by (subst dechunk.simps) (simp only: f t d option.case Let_def length_0_conv)
qed

lemma dechunk_chunked:
  "\<forall>c \<in> set cs. c \<noteq> [] \<and> length c < 2 ^ 64 \<Longrightarrow>
     dechunk out (chunked_body cs) = Some (Ok (out @ concat cs))"
proof (induction cs arbitrary: out)
  case Nil
  then show ?case
    by (simp add: chunked_body_def dechunk_header)
next
  case (Cons c cs)
  have "chunked_body (c # cs) = chunk_header c @ c @ CRLF @ chunked_body cs"
    by (simp add: chunked_body_def)
  then show ?case
    using Cons by (simp add: dechunk_header CRLF_def)
qed


section \<open>Properties\<close>

text \<open>The chunked-transfer decoder returns exactly the concatenation of the chunks of a
  well-formed chunked body (any number of non-empty chunks below 2^64 bytes, in order).\<close>

theorem dechunk_correct:
  assumes "\<forall>c \<in> set cs. c \<noteq> [] \<and> length c < 2 ^ 64"
  shows "dechunk [] (chunked_body cs) = Some (Ok (concat cs))"
  using dechunk_chunked [OF assms] by simp

theorem dechunk_correct_witness:
  "dechunk [] (chunked_body [bytes_of ''hello '', bytes_of ''world'']) =
     Some (Ok (bytes_of ''hello world''))"
proof -
  have "bytes_of ''hello world'' = concat [bytes_of ''hello '', bytes_of ''world'']"
    by (simp add: bytes_of_def)
  then show ?thesis
    using dechunk_correct [of "[bytes_of ''hello '', bytes_of ''world'']"]
    by (simp add: bytes_of_def)
qed

text \<open>A chunked response that is cut off inside the line break after a chunk's data makes the
  decoder slice past the end of the buffer and panic, where a cut inside the data is reported
  as a truncated chunk.\<close>

theorem dechunk_cut_after_data_panics:
  assumes "c \<noteq> []" "length c < 2 ^ 64" "length t < 2" "k < length c"
  shows "dechunk [] (chunk_header c @ c @ t) = None \<and>
    dechunk [] (chunk_header c @ take k c) = Some (Err (Protocol ''truncated chunk''))"
  using assms by (simp add: dechunk_header)

theorem dechunk_cut_after_data_panics_witness:
  "dechunk [] (bytes_of ''5'' @ CRLF @ bytes_of ''hello'' @ [13]) = None"
proof -
  have h: "chunk_header (bytes_of ''hello'') = bytes_of ''5'' @ CRLF"
    by code_simp
  have "dechunk [] (chunk_header (bytes_of ''hello'') @ bytes_of ''hello'' @ [13]) = None"
    using dechunk_cut_after_data_panics [of "bytes_of ''hello''" "[13]" 0]
    by (simp add: bytes_of_def)
  then show ?thesis
    by (simp only: h append_assoc)
qed

end
