(* ===== verification/Crypt.thy ===== *)
theory Crypt
  imports Blob
begin

text \<open>
  Client-side encryption (\<open>pbs-client/src/crypt.rs\<close>): the key configuration, the keyed chunk
  digest, and the AES-256-GCM blob. The random IV of each blob is an argument (the result of
  the operating system's generator, which may fail).
\<close>

record CryptConfig =
  enc_key :: arr32
  id_key :: arr32

definition ENC_HEADER_SIZE :: nat where
  "ENC_HEADER_SIZE = 8 + 4 + 16 + 16"

definition FINGERPRINT_INPUT :: bytes where
  "FINGERPRINT_INPUT =
     [110, 208, 239, 119, 71, 31, 255, 77, 85, 199, 168, 254, 74, 157, 182, 33, 97, 64, 127, 19,
      76, 114, 93, 223, 48, 153, 45, 37, 236, 69, 237, 38]"

definition random_key :: "string + arr32 \<Rightarrow> PbsError + arr32" where
  "random_key rnd =
     (case rnd of Inl e \<Rightarrow> Err (Protocol (''failed to generate a key: '' @ e)) | Inr k \<Rightarrow> Ok k)"

definition crypt_new :: "libs \<Rightarrow> arr32 \<Rightarrow> CryptConfig" where
  "crypt_new L k =
     \<lparr> enc_key = k, id_key = pbkdf2_hmac L (arr32_to_bytes k) ''_id_key'' 10 \<rparr>"

definition compute_digest :: "libs \<Rightarrow> CryptConfig \<Rightarrow> bytes \<Rightarrow> arr32" where
  "compute_digest L c data = sha256 L (data @ arr32_to_bytes (id_key c))"

definition fingerprint :: "libs \<Rightarrow> CryptConfig \<Rightarrow> arr32" where
  "fingerprint L c = compute_digest L c FINGERPRINT_INPUT"

definition encrypt_with_magic ::
  "libs \<Rightarrow> CryptConfig \<Rightarrow> string + arr16 \<Rightarrow> bytes \<Rightarrow> bytes \<Rightarrow> PbsError + bytes" where
  "encrypt_with_magic L c rnd payload magic =
     (case rnd of
        Inl e \<Rightarrow> Err (Protocol (''failed to generate an IV: '' @ e))
      | Inr iv \<Rightarrow>
          (case gcm_seal L (enc_key c) iv payload of
             None \<Rightarrow> Err (Protocol ''encryption failed'')
           | Some (buffer, tag) \<Rightarrow>
               Ok (magic @ u32_to_le (crc32 L buffer) @ arr16_to_bytes iv @ arr16_to_bytes tag
                     @ buffer)))"

definition encrypt_blob ::
  "libs \<Rightarrow> CryptConfig \<Rightarrow> string + arr16 \<Rightarrow> bytes \<Rightarrow> PbsError + bytes" where
  "encrypt_blob L c rnd plaintext = encrypt_with_magic L c rnd plaintext MAGIC_ENCRYPTED"

definition encrypt_compressed_blob ::
  "libs \<Rightarrow> CryptConfig \<Rightarrow> string + arr16 \<Rightarrow> bytes \<Rightarrow> PbsError + bytes" where
  "encrypt_compressed_blob L c rnd plaintext =
     (let compressed = zstd_compress L plaintext
      in if length compressed < length plaintext
         then encrypt_with_magic L c rnd compressed MAGIC_ENCRYPTED_ZSTD
         else encrypt_with_magic L c rnd plaintext MAGIC_ENCRYPTED)"

definition decrypt_blob :: "libs \<Rightarrow> CryptConfig \<Rightarrow> bytes \<Rightarrow> PbsError + bytes" where
  "decrypt_blob L c blob =
     (if length blob < ENC_HEADER_SIZE
      then Err (Protocol ''encrypted blob shorter than its header'')
      else
        let magic = slice 0 8 blob in
        if magic \<noteq> MAGIC_ENCRYPTED \<and> magic \<noteq> MAGIC_ENCRYPTED_ZSTD
        then Err (Protocol ''blob is not an AES-256-GCM encrypted blob'')
        else
          let compressed = (magic \<noteq> MAGIC_ENCRYPTED);
              crc_stored = u32_from_le (slice 8 12 blob);
              iv = arr16_of_bytes (slice 12 28 blob);
              tag = arr16_of_bytes (slice 28 44 blob);
              ciphertext = drop ENC_HEADER_SIZE blob;
              crc_actual = crc32 L ciphertext
          in if crc_actual \<noteq> crc_stored
             then Err (Protocol (crc_text ''encrypted blob'' crc_stored crc_actual))
             else
               (case gcm_open L (enc_key c) iv ciphertext tag of
                  None \<Rightarrow> Err (Protocol ''decryption failed (wrong key or corrupt data)'')
                | Some buffer \<Rightarrow>
                    if compressed then zstd_decompress L buffer else Ok buffer))"

lemma enc_framed_fields:
  assumes "length m = 8"
    and "b = m @ u32_to_le c @ arr16_to_bytes iv @ arr16_to_bytes t @ ct"
  shows "slice 0 8 b = m"
    and "u32_from_le (slice 8 12 b) = c"
    and "arr16_of_bytes (slice 12 28 b) = iv"
    and "arr16_of_bytes (slice 28 44 b) = t"
    and "drop ENC_HEADER_SIZE b = ct"
    and "\<not> length b < ENC_HEADER_SIZE"
  using assms by (simp_all add: slice_def ENC_HEADER_SIZE_def)

lemma decrypt_encrypt_with_magic:
  assumes "encrypt_with_magic L c (Inr iv) p m = Ok b" "gcm_correct L"
    and "m = MAGIC_ENCRYPTED \<or> m = MAGIC_ENCRYPTED_ZSTD"
  shows "decrypt_blob L c b = (if m = MAGIC_ENCRYPTED then Ok p else zstd_decompress L p)"
proof -
  from assms(1) obtain ct t where seal: "gcm_seal L (enc_key c) iv p = Some (ct, t)"
    and b: "b = m @ u32_to_le (crc32 L ct) @ arr16_to_bytes iv @ arr16_to_bytes t @ ct"
    by (auto simp: encrypt_with_magic_def split: option.splits)
  have "length m = 8"
    using assms(3) by auto
  note f = enc_framed_fields [OF this b]
  have "gcm_open L (enc_key c) iv ct t = Some p"
    using assms(2) seal by (simp add: gcm_correct_def)
  then show ?thesis
    using assms(3) by (auto simp: decrypt_blob_def f)
qed

lemma encrypt_with_magic_total:
  assumes "gcm_correct L" "length p \<le> 2 ^ 36"
  shows "\<exists>b. encrypt_with_magic L c (Inr iv) p m = Ok b"
proof -
  obtain ct t where "gcm_seal L (enc_key c) iv p = Some (ct, t)"
    using assms unfolding gcm_correct_def by (metis not_None_eq surj_pair)
  then show ?thesis
    by (simp add: encrypt_with_magic_def)
qed

lemma encrypt_compressed_decrypts:
  assumes "gcm_correct L" "zstd_lossless L"
    and "encrypt_compressed_blob L c (Inr iv) p = Ok b"
  shows "decrypt_blob L c b = Ok p"
proof (cases "length (zstd_compress L p) < length p")
  case True
  then have "encrypt_with_magic L c (Inr iv) (zstd_compress L p) MAGIC_ENCRYPTED_ZSTD = Ok b"
    using assms(3) by (simp add: encrypt_compressed_blob_def Let_def)
  from decrypt_encrypt_with_magic [OF this assms(1)] show ?thesis
    using zstd_roundtrip [OF assms(2)] by simp
next
  case False
  then have "encrypt_with_magic L c (Inr iv) p MAGIC_ENCRYPTED = Ok b"
    using assms(3) by (simp add: encrypt_compressed_blob_def Let_def)
  from decrypt_encrypt_with_magic [OF this assms(1)] show ?thesis
    by simp
qed

lemma encrypt_compressed_total:
  assumes "gcm_correct L" "length p \<le> 2 ^ 36"
  shows "\<exists>b. encrypt_compressed_blob L c (Inr iv) p = Ok b"
proof (cases "length (zstd_compress L p) < length p")
  case True
  then have "length (zstd_compress L p) \<le> 2 ^ 36"
    using assms(2) by linarith
  then show ?thesis
    using True encrypt_with_magic_total [OF assms(1)]
    by (simp add: encrypt_compressed_blob_def Let_def)
next
  case False
  then show ?thesis
    using encrypt_with_magic_total [OF assms] by (simp add: encrypt_compressed_blob_def Let_def)
qed


section \<open>Properties\<close>

text \<open>Encrypting a payload of at most 64 GiB under any key and IV succeeds and decrypting the
  blob with the same key gives the payload back, whether or not compression was applied; the
  plain decoder refuses every such blob.\<close>

theorem encrypt_decrypt_roundtrip:
  assumes "gcm_correct L" "zstd_lossless L" "length p \<le> 2 ^ 36"
  shows "\<exists>b. encrypt_compressed_blob L c (Inr iv) p = Ok b \<and> decrypt_blob L c b = Ok p \<and>
    \<not> is_ok (decode L b)"
proof -
  obtain b where b: "encrypt_compressed_blob L c (Inr iv) p = Ok b"
    using encrypt_compressed_total [OF assms(1,3)] by blast
  then have "slice 0 8 b = MAGIC_ENCRYPTED \<or> slice 0 8 b = MAGIC_ENCRYPTED_ZSTD"
    by (auto simp: encrypt_compressed_blob_def encrypt_with_magic_def Let_def slice_def
        split: if_splits option.splits)
  then have "\<not> is_ok (decode L b)"
    by (auto simp: decode_def Let_def)
  then show ?thesis
    using b encrypt_compressed_decrypts [OF assms(1,2) b] by blast
qed

theorem encrypt_decrypt_roundtrip_witness:
  "\<exists>b. encrypt_compressed_blob demo_libs (crypt_new demo_libs 5) (Inr 9) [4, 4, 4, 4] = Ok b \<and>
     decrypt_blob demo_libs (crypt_new demo_libs 5) b = Ok [4, 4, 4, 4] \<and>
     \<not> is_ok (decode demo_libs b)"
  by (rule encrypt_decrypt_roundtrip [OF demo_gcm_correct demo_zstd_lossless]) simp

text \<open>Decryption accepts a blob exactly when it has the 44-byte header, one of the two
  encrypted magics, a CRC over the ciphertext that matches, a ciphertext that the cipher
  authenticates under this key, IV and tag, and, for the compressed magic, a plaintext that
  decompresses. Only authenticated plaintext is ever returned.\<close>

theorem decrypt_blob_accepts_iff:
  "decrypt_blob L c blob = Ok p \<longleftrightarrow>
     ENC_HEADER_SIZE \<le> length blob \<and>
     u32_from_le (slice 8 12 blob) = crc32 L (drop ENC_HEADER_SIZE blob) \<and>
     (\<exists>q. gcm_open L (enc_key c) (arr16_of_bytes (slice 12 28 blob)) (drop ENC_HEADER_SIZE blob)
            (arr16_of_bytes (slice 28 44 blob)) = Some q \<and>
          (slice 0 8 blob = MAGIC_ENCRYPTED \<and> p = q \<or>
           slice 0 8 blob = MAGIC_ENCRYPTED_ZSTD \<and> zstd_decompress L q = Ok p))"
  by (auto simp: decrypt_blob_def Let_def split: option.splits)

end
