(* ===== verification/Index.thy ===== *)
theory Index
  imports Blob
begin

text \<open>
  The fixed and dynamic index files (\<open>pbs-client/src/index.rs\<close>) and the snapshot manifest
  (\<open>pbs-client/src/manifest.rs\<close>). The two formats share a contract, the locale
  \<open>index_codec\<close>: what is serialized parses back to the same entries with a checksum that
  verifies, a file without the format's header is refused, and so an index of one format is
  never read as the other.
\<close>

definition HEADER_LEN :: nat where
  "HEADER_LEN = 4096"

definition DIGEST_LEN :: nat where
  "DIGEST_LEN = 32"

definition DEFAULT_CHUNK_SIZE :: u64 where
  "DEFAULT_CHUNK_SIZE = 4096 * 1024"

definition chunk_digest :: "libs \<Rightarrow> bytes \<Rightarrow> arr32" where
  "chunk_digest L data = sha256 L data"

locale index_codec =
  fixes serialize :: "'b \<Rightarrow> bytes"
    and parse :: "bytes \<Rightarrow> PbsError + 'i"
    and view :: "'b \<Rightarrow> 'i"
    and verify :: "'i \<Rightarrow> bool"
    and magic :: bytes
  assumes parse_serialize: "parse (serialize b) = Ok (view b)"
    and verify_view: "verify (view b)"
    and serialize_header: "HEADER_LEN \<le> length (serialize b) \<and> slice 0 8 (serialize b) = magic"
    and parse_header: "parse bs = Ok i \<Longrightarrow> HEADER_LEN \<le> length bs \<and> slice 0 8 bs = magic"
begin

lemma reparse: "\<exists>i. parse (serialize b) = Ok i \<and> verify i \<and> i = view b"
  using parse_serialize verify_view by blast

lemma serialize_determines_view: "serialize b = serialize b' \<Longrightarrow> view b = view b'"
  using parse_serialize by (metis sum.inject(2))

lemma wrong_magic_refused: "slice 0 8 bs \<noteq> magic \<Longrightarrow> \<not> is_ok (parse bs)"
  using parse_header by (auto simp: is_ok_iff)

lemma short_refused: "length bs < HEADER_LEN \<Longrightarrow> \<not> is_ok (parse bs)"
  using parse_header by (fastforce simp: is_ok_iff)

end


section \<open>Fixed index\<close>

definition FIXED_MAGIC :: bytes where
  "FIXED_MAGIC = [47, 127, 65, 237, 145, 253, 15, 205]"

record FixedIndexBuilder =
  fb_size :: u64
  fb_chunk_size :: u64
  fb_ctime :: i64
  fb_uuid :: arr16
  fb_digests :: "arr32 list"

definition fixed_new :: "u64 \<Rightarrow> u64 \<Rightarrow> i64 \<Rightarrow> arr16 \<Rightarrow> FixedIndexBuilder" where
  "fixed_new sz chunk_size ctime uuid =
     \<lparr> fb_size = sz, fb_chunk_size = chunk_size, fb_ctime = ctime, fb_uuid = uuid,
       fb_digests = [] \<rparr>"

definition push_digest :: "arr32 \<Rightarrow> FixedIndexBuilder \<Rightarrow> FixedIndexBuilder" where
  "push_digest d b = b \<lparr> fb_digests := fb_digests b @ [d] \<rparr>"

definition chunk_count :: "FixedIndexBuilder \<Rightarrow> nat" where
  "chunk_count b = length (fb_digests b)"

text \<open>\<open>u64::div_ceil\<close>; a zero divisor panics (\<open>None\<close>).\<close>

definition u64_div_ceil :: "u64 \<Rightarrow> u64 \<Rightarrow> u64 option" where
  "u64_div_ceil a b = (if b = 0 then None else Some (a div b + (if a mod b = 0 then 0 else 1)))"

definition expected_chunk_count :: "FixedIndexBuilder \<Rightarrow> u64 option" where
  "expected_chunk_count b = u64_div_ceil (fb_size b) (fb_chunk_size b)"

definition fixed_csum :: "libs \<Rightarrow> arr32 list \<Rightarrow> arr32" where
  "fixed_csum L ds = sha256 L (concat (map arr32_to_bytes ds))"

definition fixed_serialize :: "libs \<Rightarrow> FixedIndexBuilder \<Rightarrow> bytes" where
  "fixed_serialize L b =
     FIXED_MAGIC @ arr16_to_bytes (fb_uuid b) @ u64_to_le (fb_ctime b)
       @ arr32_to_bytes (fixed_csum L (fb_digests b)) @ u64_to_le (fb_size b)
       @ u64_to_le (fb_chunk_size b) @ replicate (HEADER_LEN - 80) 0
       @ concat (map arr32_to_bytes (fb_digests b))"

record FixedIndex =
  fi_ctime :: i64
  fi_uuid :: arr16
  fi_size :: u64
  fi_chunk_size :: u64
  fi_index_csum :: arr32
  fi_digests :: "arr32 list"

definition fixed_parse :: "bytes \<Rightarrow> PbsError + FixedIndex" where
  "fixed_parse bs =
     (if length bs < HEADER_LEN then Err (Protocol ''fixed index shorter than its header'')
      else if slice 0 8 bs \<noteq> FIXED_MAGIC then Err (Protocol ''not a fixed index (bad magic)'')
      else
        let body = drop HEADER_LEN bs in
        if length body mod DIGEST_LEN \<noteq> 0
        then Err (Protocol ''fixed index body is not a whole number of digests'')
        else Ok \<lparr> fi_ctime = u64_from_le (slice 24 32 bs),
                  fi_uuid = arr16_of_bytes (slice 8 24 bs),
                  fi_size = u64_from_le (slice 64 72 bs),
                  fi_chunk_size = u64_from_le (slice 72 80 bs),
                  fi_index_csum = arr32_of_bytes (slice 32 64 bs),
                  fi_digests = map arr32_of_bytes (chunks_exact DIGEST_LEN body) \<rparr>)"

definition fixed_verify_csum :: "libs \<Rightarrow> FixedIndex \<Rightarrow> bool" where
  "fixed_verify_csum L i = (fixed_csum L (fi_digests i) = fi_index_csum i)"

definition fixed_view :: "libs \<Rightarrow> FixedIndexBuilder \<Rightarrow> FixedIndex" where
  "fixed_view L b =
     \<lparr> fi_ctime = fb_ctime b, fi_uuid = fb_uuid b, fi_size = fb_size b,
       fi_chunk_size = fb_chunk_size b, fi_index_csum = fixed_csum L (fb_digests b),
       fi_digests = fb_digests b \<rparr>"


section \<open>Dynamic index\<close>

definition DYNAMIC_MAGIC :: bytes where
  "DYNAMIC_MAGIC = [28, 145, 78, 165, 25, 186, 179, 205]"

definition DYNAMIC_ENTRY_LEN :: nat where
  "DYNAMIC_ENTRY_LEN = 8 + DIGEST_LEN"

record DynamicIndexBuilder =
  db_ctime :: i64
  db_uuid :: arr16
  db_entries :: "(u64 \<times> arr32) list"

definition dynamic_new :: "i64 \<Rightarrow> arr16 \<Rightarrow> DynamicIndexBuilder" where
  "dynamic_new ctime uuid = \<lparr> db_ctime = ctime, db_uuid = uuid, db_entries = [] \<rparr>"

definition dynamic_push :: "u64 \<Rightarrow> arr32 \<Rightarrow> DynamicIndexBuilder \<Rightarrow> DynamicIndexBuilder" where
  "dynamic_push end_offset d b = b \<lparr> db_entries := db_entries b @ [(end_offset, d)] \<rparr>"

definition entry_count :: "DynamicIndexBuilder \<Rightarrow> nat" where
  "entry_count b = length (db_entries b)"

definition entries_size :: "(u64 \<times> arr32) list \<Rightarrow> u64" where
  "entries_size es = (if es = [] then 0 else fst (last es))"

definition dynamic_total_size :: "DynamicIndexBuilder \<Rightarrow> u64" where
  "dynamic_total_size b = entries_size (db_entries b)"

definition entry_bytes :: "u64 \<times> arr32 \<Rightarrow> bytes" where
  "entry_bytes e = u64_to_le (fst e) @ arr32_to_bytes (snd e)"

definition dynamic_csum :: "libs \<Rightarrow> (u64 \<times> arr32) list \<Rightarrow> arr32" where
  "dynamic_csum L es = sha256 L (concat (map entry_bytes es))"

definition dynamic_serialize :: "libs \<Rightarrow> DynamicIndexBuilder \<Rightarrow> bytes" where
  "dynamic_serialize L b =
     DYNAMIC_MAGIC @ arr16_to_bytes (db_uuid b) @ u64_to_le (db_ctime b)
       @ arr32_to_bytes (dynamic_csum L (db_entries b)) @ replicate (HEADER_LEN - 64) 0
       @ concat (map entry_bytes (db_entries b))"

record DynamicIndex =
  di_ctime :: i64
  di_uuid :: arr16
  di_index_csum :: arr32
  di_entries :: "(u64 \<times> arr32) list"

definition entry_of_bytes :: "bytes \<Rightarrow> u64 \<times> arr32" where
  "entry_of_bytes e =
     (u64_from_le (slice 0 8 e), arr32_of_bytes (slice 8 DYNAMIC_ENTRY_LEN e))"

definition dynamic_parse :: "bytes \<Rightarrow> PbsError + DynamicIndex" where
  "dynamic_parse bs =
     (if length bs < HEADER_LEN then Err (Protocol ''dynamic index shorter than its header'')
      else if slice 0 8 bs \<noteq> DYNAMIC_MAGIC
      then Err (Protocol ''not a dynamic index (bad magic)'')
      else
        let body = drop HEADER_LEN bs in
        if length body mod DYNAMIC_ENTRY_LEN \<noteq> 0
        then Err (Protocol ''dynamic index body is not a whole number of entries'')
        else Ok \<lparr> di_ctime = u64_from_le (slice 24 32 bs),
                  di_uuid = arr16_of_bytes (slice 8 24 bs),
                  di_index_csum = arr32_of_bytes (slice 32 64 bs),
                  di_entries = map entry_of_bytes (chunks_exact DYNAMIC_ENTRY_LEN body) \<rparr>)"

definition index_digests :: "DynamicIndex \<Rightarrow> arr32 list" where
  "index_digests i = map snd (di_entries i)"

definition index_total_size :: "DynamicIndex \<Rightarrow> u64" where
  "index_total_size i = entries_size (di_entries i)"

definition dynamic_verify_csum :: "libs \<Rightarrow> DynamicIndex \<Rightarrow> bool" where
  "dynamic_verify_csum L i = (dynamic_csum L (di_entries i) = di_index_csum i)"

definition dynamic_view :: "libs \<Rightarrow> DynamicIndexBuilder \<Rightarrow> DynamicIndex" where
  "dynamic_view L b =
     \<lparr> di_ctime = db_ctime b, di_uuid = db_uuid b,
       di_index_csum = dynamic_csum L (db_entries b), di_entries = db_entries b \<rparr>"


section \<open>Manifest\<close>

definition MANIFEST_BLOB_NAME :: string where
  "MANIFEST_BLOB_NAME = ''index.json.blob''"

record FileEntry =
  fe_filename :: string
  fe_crypt_mode :: string
  fe_size :: u64
  fe_csum :: string

definition fe_new :: "libs \<Rightarrow> string \<Rightarrow> u64 \<Rightarrow> arr32 \<Rightarrow> FileEntry" where
  "fe_new L filename sz csum =
     \<lparr> fe_filename = filename, fe_crypt_mode = ''none'', fe_size = sz,
       fe_csum = hex_encode L (arr32_to_bytes csum) \<rparr>"

definition fe_fixed_image :: "libs \<Rightarrow> string \<Rightarrow> u64 \<Rightarrow> arr32 \<Rightarrow> FileEntry" where
  "fe_fixed_image L filename sz csum = fe_new L filename sz csum"

definition fe_with_crypt :: "libs \<Rightarrow> string \<Rightarrow> u64 \<Rightarrow> arr32 \<Rightarrow> bool \<Rightarrow> FileEntry" where
  "fe_with_crypt L filename sz csum encrypted =
     \<lparr> fe_filename = filename, fe_crypt_mode = (if encrypted then ''encrypt'' else ''none''),
       fe_size = sz, fe_csum = hex_encode L (arr32_to_bytes csum) \<rparr>"

record BackupManifest =
  m_backup_type :: string
  m_backup_id :: string
  m_backup_time :: i64
  m_files :: "FileEntry list"

definition manifest_new :: "string \<Rightarrow> string \<Rightarrow> i64 \<Rightarrow> FileEntry list \<Rightarrow> BackupManifest" where
  "manifest_new ty bid time files =
     \<lparr> m_backup_type = ty, m_backup_id = bid, m_backup_time = time, m_files = files \<rparr>"


section \<open>The formats meet their contract\<close>

lemma index_magic_length [simp]: "length FIXED_MAGIC = 8" "length DYNAMIC_MAGIC = 8"
  by (simp_all add: FIXED_MAGIC_def DYNAMIC_MAGIC_def)

lemma index_magics_differ: "FIXED_MAGIC \<noteq> DYNAMIC_MAGIC"
  by (simp add: FIXED_MAGIC_def DYNAMIC_MAGIC_def)

lemma entry_bytes_length [simp]: "length (entry_bytes e) = 40"
  by (simp add: entry_bytes_def)

lemma entry_roundtrip [simp]: "entry_of_bytes (entry_bytes e) = e"
  by (simp add: entry_of_bytes_def entry_bytes_def slice_def DYNAMIC_ENTRY_LEN_def DIGEST_LEN_def)

lemma digests_body:
  "map arr32_of_bytes (chunks_exact DIGEST_LEN (concat (map arr32_to_bytes ds))) = ds"
  by (subst chunks_exact_concat) (auto simp: DIGEST_LEN_def comp_def)

lemma entries_body:
  "map entry_of_bytes (chunks_exact DYNAMIC_ENTRY_LEN (concat (map entry_bytes es))) = es"
  by (subst chunks_exact_concat) (auto simp: DIGEST_LEN_def DYNAMIC_ENTRY_LEN_def comp_def)

lemma length_concat_const: "\<forall>x \<in> set xs. length (f x) = n \<Longrightarrow> length (concat (map f xs)) = n * length xs"
  by (induction xs) auto

lemma fixed_parse_serialize: "fixed_parse (fixed_serialize L b) = Ok (fixed_view L b)"
proof -
  have "length (concat (map arr32_to_bytes (fb_digests b))) = 32 * length (fb_digests b)"
    by (rule length_concat_const) simp
  then show ?thesis
    using digests_body [of "fb_digests b"]
    by (simp add: fixed_parse_def fixed_serialize_def fixed_view_def slice_def HEADER_LEN_def
        DIGEST_LEN_def)
qed

lemma dynamic_parse_serialize: "dynamic_parse (dynamic_serialize L b) = Ok (dynamic_view L b)"
proof -
  have "length (concat (map entry_bytes (db_entries b))) = 40 * length (db_entries b)"
    by (rule length_concat_const) simp
  then show ?thesis
    using entries_body [of "db_entries b"]
    by (simp add: dynamic_parse_def dynamic_serialize_def dynamic_view_def slice_def HEADER_LEN_def
        DYNAMIC_ENTRY_LEN_def DIGEST_LEN_def)
qed

interpretation fixed_idx: index_codec "fixed_serialize L" fixed_parse "fixed_view L"
  "fixed_verify_csum L" FIXED_MAGIC for L
proof (unfold_locales, goal_cases)
  case (1 b) show ?case by (rule fixed_parse_serialize)
next
  case (2 b) show ?case by (simp add: fixed_verify_csum_def fixed_view_def)
next
  case (3 b) show ?case by (simp add: fixed_serialize_def slice_def HEADER_LEN_def)
next
  case (4 bs i) then show ?case by (auto simp: fixed_parse_def split: if_splits)
qed

interpretation dynamic_idx: index_codec "dynamic_serialize L" dynamic_parse "dynamic_view L"
  "dynamic_verify_csum L" DYNAMIC_MAGIC for L
proof (unfold_locales, goal_cases)
  case (1 b) show ?case by (rule dynamic_parse_serialize)
next
  case (2 b) show ?case by (simp add: dynamic_verify_csum_def dynamic_view_def)
next
  case (3 b) show ?case by (simp add: dynamic_serialize_def slice_def HEADER_LEN_def)
next
  case (4 bs i) then show ?case by (auto simp: dynamic_parse_def split: if_splits)
qed

lemma nat_div_ceil:
  assumes "0 < (b :: nat)"
  shows "(a + b - 1) div b = a div b + (if a mod b = 0 then 0 else 1)"
proof -
  have a: "a = a div b * b + a mod b"
    by simp
  show ?thesis
  proof (cases "a mod b = 0")
    case True
    then have "(a + b - 1) div b = (a div b * b + (b - 1)) div b"
      using a assms by simp
    also have "\<dots> = a div b + (b - 1) div b"
      using assms by (intro div_mult_self3) simp
    finally show ?thesis
      using True assms by simp
  next
    case False
    have "a + b - 1 = a div b * b + b + (a mod b - 1)"
      using a False by linarith
    then have "a + b - 1 = (a div b + 1) * b + (a mod b - 1)"
      by (simp only: distrib_right mult_1)
    then have "(a + b - 1) div b = (a div b + 1) + (a mod b - 1) div b"
      using assms by (simp only: div_mult_self3 neq0_conv)
    moreover have "a mod b - 1 < b"
      using assms mod_less_divisor [OF assms, of a] by linarith
    ultimately show ?thesis
      using False by simp
  qed
qed

lemma unat_div_ceil:
  assumes "0 < unat (b :: u64)"
  shows "unat (a div b + (if a mod b = 0 then 0 else 1)) = (unat a + unat b - 1) div unat b"
proof -
  have q: "unat (a div b) = unat a div unat b" and r: "unat (a mod b) = unat a mod unat b"
    by (simp_all add: unat_div unat_mod)
  show ?thesis
  proof (cases "a mod b = 0")
    case True
    then have "unat a mod unat b = 0"
      using r by simp
    then show ?thesis
      using True q nat_div_ceil [OF assms, of "unat a"] by simp
  next
    case False
    then have ne: "unat a mod unat b \<noteq> 0"
      using r unat_eq_zero [of "a mod b"] by simp
    then have "1 < unat b"
      using assms by (cases "unat b = 1") auto
    moreover have "0 < unat a"
      using ne by (cases "unat a") auto
    ultimately have "unat a div unat b < unat a"
      by (rule div_less_dividend)
    moreover have "unat a < 2 ^ 64"
      using unsigned_less [of a] by simp
    ultimately have "unat (a div b + 1) = unat (a div b) + 1"
      using q by (subst unat_add_lem [THEN iffD1]) auto
    then show ?thesis
      using False ne q nat_div_ceil [OF assms, of "unat a"] by simp
  qed
qed

lemma length_chunks:
  assumes "0 < n"
  shows "length (chunks n xs) = (length xs + n - 1) div n"
  using assms
proof (induction n xs rule: chunks.induct)
  case (1 n xs)
  show ?case
  proof (cases "xs = []")
    case False
    then have "length (chunks n xs) = Suc ((length (drop n xs) + n - 1) div n)"
      using 1 by (subst chunks.simps) simp
    also have "\<dots> = (length xs + n - 1) div n"
    proof (cases "length xs \<le> n")
      case True
      then have "length xs + n - 1 = 1 * n + (length xs - 1)"
        using False by (simp add: Suc_leI)
      then have "(length xs + n - 1) div n = 1 + (length xs - 1) div n"
        using 1 by (simp only: div_mult_self3)
      moreover have "0 < length xs"
        using False by simp
      with True have "length xs - 1 < n"
        by linarith
      ultimately show ?thesis
        using True 1 by simp
    next
      case False
      then have "length xs + n - 1 = 1 * n + (length xs - n + n - 1)"
        by simp
      then show ?thesis
        using 1 by (simp only: div_mult_self3 length_drop)
    qed
    finally show ?thesis .
  qed (use 1 in \<open>simp add: chunks.simps\<close>)
qed


section \<open>Properties\<close>

text \<open>A serialized fixed index parses back to exactly the size, chunk size, time, uuid and
  digest list it was built from, its recorded checksum verifies, and a dynamic-index parser
  refuses it.\<close>

theorem fixed_index_roundtrip:
  "fixed_parse (fixed_serialize L b) = Ok (fixed_view L b) \<and>
   fixed_verify_csum L (fixed_view L b) \<and>
   fi_digests (fixed_view L b) = fb_digests b \<and>
   \<not> is_ok (dynamic_parse (fixed_serialize L b))"
  using fixed_idx.parse_serialize fixed_idx.verify_view fixed_idx.serialize_header [of L b]
    dynamic_idx.wrong_magic_refused index_magics_differ
  by (simp add: fixed_view_def)

text \<open>The chunk count a fixed-index builder expects (\<open>u64\<close> ceiling division of the declared
  size by the chunk size) is the number of chunks an image of that size is split into, for
  every image below 2^64 bytes and every non-zero chunk size; no wrap-around occurs.\<close>

theorem expected_chunk_count_exact:
  assumes "fb_size b = of_nat (length img)" "length img < 2 ^ 64" "fb_chunk_size b \<noteq> 0"
  shows "\<exists>n. expected_chunk_count b = Some n \<and>
    unat n = length (chunks (unat (fb_chunk_size b)) img)"
proof -
  have pos: "0 < unat (fb_chunk_size b)"
    using assms(3) by (simp add: unat_gt_0)
  have "unat (fb_size b) = length img"
    using assms(1,2) by (simp add: unat_of_nat)
  then show ?thesis
    using assms(3) unat_div_ceil [OF pos, of "fb_size b"] length_chunks [OF pos, of img]
    by (simp add: expected_chunk_count_def u64_div_ceil_def)
qed

theorem expected_chunk_count_exact_witness:
  "\<exists>n. expected_chunk_count (fixed_new 7 3 0 0) = Some n \<and>
     unat n = length (chunks (unat (fb_chunk_size (fixed_new 7 3 0 0))) (replicate 7 (1 :: byte)))"
  by (rule expected_chunk_count_exact) (simp_all add: fixed_new_def)

text \<open>A serialized dynamic index parses back to exactly its entries (cumulative end offset and
  digest of every chunk, in order), reports the same total size, its recorded checksum verifies,
  and a fixed-index parser refuses it.\<close>

theorem dynamic_index_roundtrip:
  "\<exists>i. dynamic_parse (dynamic_serialize L b) = Ok i \<and> di_entries i = db_entries b \<and>
     index_total_size i = dynamic_total_size b \<and> dynamic_verify_csum L i \<and>
     \<not> is_ok (fixed_parse (dynamic_serialize L b))"
proof -
  have "\<not> is_ok (fixed_parse (dynamic_serialize L b))"
    using dynamic_idx.serialize_header [of L b] fixed_idx.wrong_magic_refused index_magics_differ
    by simp
  then show ?thesis
    using dynamic_idx.reparse [of L b]
    by (auto simp: dynamic_view_def index_total_size_def dynamic_total_size_def)
qed

end
