(* ===== verification/Session.thy ===== *)
theory Session
  imports Api Crypt Index
begin

text \<open>
  The protocol session of the client (\<open>pbs-client/src/session.rs\<close>, first half): session
  parameters, certificate pinning, the upgrade handshake, single HTTP/2 requests, and the
  operations of \<open>BackupWriter\<close> and \<open>ReaderClient\<close>.

  The server is third-party: it is a function from its state and a request to its next state
  and its response, an argument of every operation. A response is a transport error or a
  status with the events of its body stream. The requests are the constructors of \<open>Req\<close>;
  \<open>render\<close> gives the method, path and body the code sends for each. A connection keeps the
  sequence of requests sent with their responses, so that properties can speak about what
  reached the server and what it acknowledged.
\<close>

section \<open>Parameters\<close>

definition APPEND_BATCH :: nat where
  "APPEND_BATCH = 64"

definition pipeline_width :: "nat \<Rightarrow> nat option \<Rightarrow> nat" where
  "pipeline_width pipeline_override cores =
     (if pipeline_override = 0
      then (let c = (case cores of Some n \<Rightarrow> n | None \<Rightarrow> 4) in min 16 (max 2 (c div 2)))
      else pipeline_override)"

record SessionParams =
  sp_host :: string
  sp_port :: u16
  sp_datastore :: string
  sp_auth_id :: string
  sp_secret :: string
  sp_fingerprint :: string
  sp_backup_type :: string
  sp_backup_id :: string
  sp_backup_time :: i64
  sp_namespace :: "string option"

definition params_from_repository ::
  "Repository \<Rightarrow> string \<Rightarrow> string \<Rightarrow> string \<Rightarrow> string \<Rightarrow> i64 \<Rightarrow> PbsError + SessionParams" where
  "params_from_repository repo secret fp ty bid time =
     (case host repo of
        None \<Rightarrow> Err (Protocol ''repository has no host'')
      | Some h \<Rightarrow>
          (case auth_id repo of
             None \<Rightarrow> Err (Auth ''repository has no auth id'')
           | Some a \<Rightarrow>
               if trim a = [] then Err (Auth ''repository has no auth id'')
               else Ok \<lparr> sp_host = h, sp_port = repo_port repo, sp_datastore = datastore repo,
                         sp_auth_id = trim a, sp_secret = trim secret, sp_fingerprint = fp,
                         sp_backup_type = ty, sp_backup_id = bid, sp_backup_time = time,
                         sp_namespace = namespace repo \<rparr>))"

definition snapshot_query :: "libs \<Rightarrow> SessionParams \<Rightarrow> string" where
  "snapshot_query L p =
     ''store='' @ percent_encode L (sp_datastore p) @ ''&backup-type=''
       @ percent_encode L (sp_backup_type p) @ ''&backup-id='' @ percent_encode L (sp_backup_id p)
       @ ''&backup-time='' @ show_int (sint (sp_backup_time p))
       @ (case sp_namespace p of None \<Rightarrow> []
          | Some ns \<Rightarrow> if ns = [] then [] else ''&ns='' @ percent_encode L ns)"


section \<open>Certificate pinning\<close>

definition parse_fingerprint :: "libs \<Rightarrow> string \<Rightarrow> PbsError + arr32" where
  "parse_fingerprint L fp =
     (case hex_decode L (filter (\<lambda>c. \<not> is_ws c \<and> c \<noteq> CHR '':'') fp) of
        Inl e \<Rightarrow> Err (Protocol (''invalid fingerprint hex: '' @ e))
      | Inr bs \<Rightarrow>
          if length bs = 32 then Ok (arr32_of_bytes bs)
          else Err (Protocol (''fingerprint must be 32 bytes, got '' @ show_nat (length bs))))"

definition verify_server_cert :: "libs \<Rightarrow> arr32 \<Rightarrow> bytes \<Rightarrow> string + unit" where
  "verify_server_cert L expected cert =
     (let actual = sha256 L cert in
      if actual = expected then Ok ()
      else Err (''certificate fingerprint mismatch: expected ''
             @ hex_encode L (arr32_to_bytes expected) @ '', got ''
             @ hex_encode L (arr32_to_bytes actual)))"

text \<open>The connector built for a fingerprint, as the certificate check it performs.\<close>

definition tls_connector :: "libs \<Rightarrow> string \<Rightarrow> PbsError + (bytes \<Rightarrow> string + unit)" where
  "tls_connector L fp = and_then (parse_fingerprint L fp) (\<lambda>e. Ok (verify_server_cert L e))"

text \<open>\<open>fingerprint_hex\<close> of the relay (\<open>pbsgui-engine/src/relay/tls.rs\<close>): how the proxy prints
  its own certificate's fingerprint for the agents to pin.\<close>

definition fingerprint_hex :: "libs \<Rightarrow> bytes \<Rightarrow> string" where
  "fingerprint_hex L cert_der =
     join_with '':'' (map upper_hex2 (arr32_to_bytes (sha256 L cert_der)))"


section \<open>The upgrade handshake\<close>

definition ends_with :: "'a list \<Rightarrow> 'a list \<Rightarrow> bool" where
  "ends_with suffix xs =
     (length suffix \<le> length xs \<and> drop (length xs - length suffix) xs = suffix)"

text \<open>The byte-wise header reader: the stream is the list of bytes (or a read error) still to
  come; its end is a closed connection.\<close>

fun read_headers :: "bytes \<Rightarrow> (string + byte) list \<Rightarrow> PbsError + string \<times> (string + byte) list" where
  "read_headers buf [] = Err (Protocol ''connection closed during upgrade'')"
| "read_headers buf (Inl e # s) = Err (Io e)"
| "read_headers buf (Inr b # s) =
     (let buf' = buf @ [b] in
      if ends_with (CRLF @ CRLF) buf' then Ok (text_of buf', s)
      else if 16 * 1024 < length buf' then Err (Protocol ''upgrade response headers too large'')
      else read_headers buf' s)"

definition contains :: "string \<Rightarrow> string \<Rightarrow> bool" where
  "contains s needle = (find_subsequence s needle \<noteq> None)"

definition upgrade_request :: "SessionParams \<Rightarrow> string \<Rightarrow> string \<Rightarrow> string" where
  "upgrade_request p path protocol_id =
     ''GET '' @ path @ '' HTTP/1.1'' @ eol
       @ ''Host: '' @ sp_host p @ '':'' @ show_nat (unat (sp_port p)) @ eol
       @ ''Authorization: PBSAPIToken='' @ sp_auth_id p @ '':'' @ sp_secret p @ eol
       @ ''Upgrade: '' @ protocol_id @ eol @ ''Connection: upgrade'' @ eol @ eol"

definition writer_upgrade :: "libs \<Rightarrow> SessionParams \<Rightarrow> string" where
  "writer_upgrade L p =
     upgrade_request p (''/api2/json/backup?'' @ snapshot_query L p) ''proxmox-backup-protocol-v1''"

definition reader_upgrade :: "libs \<Rightarrow> SessionParams \<Rightarrow> string" where
  "reader_upgrade L p =
     upgrade_request p (''/api2/json/reader?'' @ snapshot_query L p)
       ''proxmox-backup-reader-protocol-v1''"

definition upgrade_status :: "string \<Rightarrow> PbsError + unit" where
  "upgrade_status headers =
     (let status_line = first_line headers in
      if \<not> contains status_line ''101'' then
        let hint =
          (if contains status_line ''403'' then
             '' (the PBS token lacks permission on this datastore/namespace, or another owner holds this backup group)''
           else if contains status_line ''401'' then
             '' (the PBS token id or secret was not accepted)''
           else '''')
        in Err (Protocol (''expected 101 Switching Protocols, got: '' @ status_line @ hint))
      else Ok ())"


section \<open>Single requests\<close>

datatype BodyEvent = BodyData bytes | BodyErr string

type_synonym response = "string + nat \<times> BodyEvent list"

definition is_success :: "nat \<Rightarrow> bool" where
  "is_success status = (200 \<le> status \<and> status < 300)"

primrec read_body :: "bool \<Rightarrow> nat \<Rightarrow> bytes \<Rightarrow> BodyEvent list \<Rightarrow> PbsError + nat \<times> bytes" where
  "read_body tolerate_close status out [] = Ok (status, out)"
| "read_body tolerate_close status out (e # es) =
     (case e of
        BodyData d \<Rightarrow> read_body tolerate_close status (out @ d) es
      | BodyErr m \<Rightarrow>
          if tolerate_close \<and> is_success status then Ok (status, out)
          else Err (Protocol (''http/2 error: '' @ m)))"

definition h2_request :: "bool \<Rightarrow> response \<Rightarrow> PbsError + nat \<times> bytes" where
  "h2_request tolerate_close r =
     (case r of
        Inl e \<Rightarrow> Err (Protocol (''http/2 error: '' @ e))
      | Inr (status, body) \<Rightarrow> read_body tolerate_close status [] body)"

definition ensure_ok :: "libs \<Rightarrow> nat \<times> bytes \<Rightarrow> PbsError + unit" where
  "ensure_ok L sb =
     (if is_success (fst sb) then Ok ()
      else Err (Protocol (''server returned '' @ status_text L (fst sb) @ '': ''
                 @ text_of (snd sb))))"

definition unwrap_data :: "libs \<Rightarrow> bytes \<Rightarrow> PbsError + json" where
  "unwrap_data L body =
     (case json_parse L body of
        Inl e \<Rightarrow> Err (Protocol (''invalid JSON response: '' @ e))
      | Inr v \<Rightarrow> Ok (case json_get v ''data'' of None \<Rightarrow> JNull | Some d \<Rightarrow> d))"

datatype Req =
    CreateFixed string u64
  | FixedChunk u64 arr32 u64 bytes
  | AppendFixed u64 "arr32 list" "u64 list"
  | CloseFixed u64 u64 u64 arr32
  | UploadBlob string bytes
  | CreateDynamic string
  | DynamicChunk u64 arr32 u64 bytes
  | AppendDynamic u64 "arr32 list" "u64 list"
  | CloseDynamic u64 u64 u64 arr32
  | Previous string
  | Finish
  | Download string
  | GetChunk arr32

definition hex32 :: "libs \<Rightarrow> arr32 \<Rightarrow> string" where
  "hex32 L d = hex_encode L (arr32_to_bytes d)"

definition show_u64 :: "u64 \<Rightarrow> string" where
  "show_u64 w = show_nat (unat w)"

definition append_body :: "libs \<Rightarrow> u64 \<Rightarrow> arr32 list \<Rightarrow> u64 list \<Rightarrow> bytes" where
  "append_body L wid digests offsets =
     json_print L (JObj [(''wid'', JNum (uint wid)),
       (''digest-list'', JArr (map (\<lambda>d. JStr (hex32 L d)) digests)),
       (''offset-list'', JArr (map (\<lambda>n. JNum (uint n)) offsets))])"

record http_request =
  hr_method :: string
  hr_path :: string
  hr_content_type :: "string option"
  hr_body :: "bytes option"

definition chunk_query :: "libs \<Rightarrow> string \<Rightarrow> u64 \<Rightarrow> arr32 \<Rightarrow> u64 \<Rightarrow> bytes \<Rightarrow> string" where
  "chunk_query L path wid d len encoded =
     path @ ''?wid='' @ show_u64 wid @ ''&digest='' @ hex32 L d @ ''&size='' @ show_u64 len
       @ ''&encoded-size='' @ show_nat (length encoded)"

definition close_query :: "libs \<Rightarrow> string \<Rightarrow> u64 \<Rightarrow> u64 \<Rightarrow> u64 \<Rightarrow> arr32 \<Rightarrow> string" where
  "close_query L path wid n sz csum =
     path @ ''?wid='' @ show_u64 wid @ ''&chunk-count='' @ show_u64 n @ ''&size='' @ show_u64 sz
       @ ''&csum='' @ hex32 L csum"

fun render :: "libs \<Rightarrow> Req \<Rightarrow> http_request" where
  "render L (CreateFixed name sz) =
     \<lparr> hr_method = ''POST'', hr_path = ''/fixed_index?archive-name='' @ percent_encode L name
         @ ''&size='' @ show_u64 sz, hr_content_type = None, hr_body = None \<rparr>"
| "render L (FixedChunk wid d len encoded) =
     \<lparr> hr_method = ''POST'', hr_path = chunk_query L ''/fixed_chunk'' wid d len encoded,
       hr_content_type = Some ''application/octet-stream'', hr_body = Some encoded \<rparr>"
| "render L (AppendFixed wid ds os) =
     \<lparr> hr_method = ''PUT'', hr_path = ''/fixed_index'',
       hr_content_type = Some ''application/json'', hr_body = Some (append_body L wid ds os) \<rparr>"
| "render L (CloseFixed wid n sz csum) =
     \<lparr> hr_method = ''POST'', hr_path = close_query L ''/fixed_close'' wid n sz csum,
       hr_content_type = None, hr_body = None \<rparr>"
| "render L (UploadBlob name blob) =
     \<lparr> hr_method = ''POST'', hr_path = ''/blob?file-name='' @ percent_encode L name
         @ ''&encoded-size='' @ show_nat (length blob),
       hr_content_type = Some ''application/octet-stream'', hr_body = Some blob \<rparr>"
| "render L (CreateDynamic name) =
     \<lparr> hr_method = ''POST'', hr_path = ''/dynamic_index?archive-name='' @ percent_encode L name,
       hr_content_type = None, hr_body = None \<rparr>"
| "render L (DynamicChunk wid d len encoded) =
     \<lparr> hr_method = ''POST'', hr_path = chunk_query L ''/dynamic_chunk'' wid d len encoded,
       hr_content_type = Some ''application/octet-stream'', hr_body = Some encoded \<rparr>"
| "render L (AppendDynamic wid ds os) =
     \<lparr> hr_method = ''PUT'', hr_path = ''/dynamic_index'',
       hr_content_type = Some ''application/json'', hr_body = Some (append_body L wid ds os) \<rparr>"
| "render L (CloseDynamic wid n sz csum) =
     \<lparr> hr_method = ''POST'', hr_path = close_query L ''/dynamic_close'' wid n sz csum,
       hr_content_type = None, hr_body = None \<rparr>"
| "render L (Previous name) =
     \<lparr> hr_method = ''GET'', hr_path = ''/previous?archive-name='' @ percent_encode L name,
       hr_content_type = None, hr_body = None \<rparr>"
| "render L Finish =
     \<lparr> hr_method = ''POST'', hr_path = ''/finish'', hr_content_type = None, hr_body = None \<rparr>"
| "render L (Download name) =
     \<lparr> hr_method = ''GET'', hr_path = ''/download?file-name='' @ percent_encode L name,
       hr_content_type = None, hr_body = None \<rparr>"
| "render L (GetChunk d) =
     \<lparr> hr_method = ''GET'', hr_path = ''/chunk?digest='' @ hex32 L d,
       hr_content_type = None, hr_body = None \<rparr>"


section \<open>Connections and operations\<close>

record 's conn =
  c_srv :: 's
  c_log :: "(Req \<times> response) list"

type_synonym 's server = "'s \<Rightarrow> Req \<Rightarrow> 's \<times> response"

abbreviation sent :: "'s conn \<Rightarrow> Req list" where
  "sent c \<equiv> map fst (c_log c)"

fun acked :: "Req \<times> response \<Rightarrow> bool" where
  "acked (req, Inl e) = False"
| "acked (req, Inr (st, es)) = is_success st"

definition call :: "'s server \<Rightarrow> bool \<Rightarrow> Req \<Rightarrow> 's conn \<Rightarrow> (PbsError + nat \<times> bytes) \<times> 's conn" where
  "call sv tolerate_close req c =
     (let (s', r) = sv (c_srv c) req
      in (h2_request tolerate_close r, \<lparr> c_srv = s', c_log = c_log c @ [(req, r)] \<rparr>))"

text \<open>A committing (status-only) operation, and a creating one that reads the writer id.\<close>

definition commit_op :: "libs \<Rightarrow> 's server \<Rightarrow> Req \<Rightarrow> 's conn \<Rightarrow> (PbsError + unit) \<times> 's conn" where
  "commit_op L sv req c = (let (r, c') = call sv True req c in (and_then r (ensure_ok L), c'))"

definition create_op ::
  "libs \<Rightarrow> 's server \<Rightarrow> string \<Rightarrow> Req \<Rightarrow> 's conn \<Rightarrow> (PbsError + u64) \<times> 's conn" where
  "create_op L sv what req c =
     (let (r, c') = call sv False req c in
      (and_then r (\<lambda>sb. and_then (ensure_ok L sb) (\<lambda>_. and_then (unwrap_data L (snd sb)) (\<lambda>v.
         case json_u64 v of Some w \<Rightarrow> Ok w
         | None \<Rightarrow> Err (Protocol (what @ '' did not return a wid''))))), c'))"

definition create_fixed_index where
  "create_fixed_index L sv name sz = create_op L sv ''fixed_index'' (CreateFixed name sz)"

definition upload_chunk where
  "upload_chunk L sv wid d len encoded = commit_op L sv (FixedChunk wid d len encoded)"

definition append_fixed_index where
  "append_fixed_index L sv wid ds os = commit_op L sv (AppendFixed wid ds os)"

definition close_fixed_index where
  "close_fixed_index L sv wid n sz csum = commit_op L sv (CloseFixed wid n sz csum)"

definition upload_blob where
  "upload_blob L sv name blob = commit_op L sv (UploadBlob name blob)"

definition create_dynamic_index where
  "create_dynamic_index L sv name = create_op L sv ''dynamic_index'' (CreateDynamic name)"

definition upload_dynamic_chunk where
  "upload_dynamic_chunk L sv wid d len encoded = commit_op L sv (DynamicChunk wid d len encoded)"

definition append_dynamic_index where
  "append_dynamic_index L sv wid ds os = commit_op L sv (AppendDynamic wid ds os)"

definition close_dynamic_index where
  "close_dynamic_index L sv wid n sz csum = commit_op L sv (CloseDynamic wid n sz csum)"

definition finish_session where
  "finish_session L sv = commit_op L sv Finish"

definition download_previous ::
  "'s server \<Rightarrow> string \<Rightarrow> 's conn \<Rightarrow> (PbsError + bytes option) \<times> 's conn" where
  "download_previous sv name c =
     (let (r, c') = call sv False (Previous name) c in
      (and_then r (\<lambda>sb. Ok (if is_success (fst sb) then Some (snd sb) else None)), c'))"

definition read_op :: "libs \<Rightarrow> 's server \<Rightarrow> Req \<Rightarrow> 's conn \<Rightarrow> (PbsError + bytes) \<times> 's conn" where
  "read_op L sv req c =
     (let (r, c') = call sv False req c in
      (and_then r (\<lambda>sb. and_then (ensure_ok L sb) (\<lambda>_. Ok (snd sb))), c'))"

definition download where
  "download L sv name = read_op L sv (Download name)"

definition download_chunk where
  "download_chunk L sv d = read_op L sv (GetChunk d)"

lemmas op_defs = create_fixed_index_def upload_chunk_def append_fixed_index_def
  close_fixed_index_def upload_blob_def create_dynamic_index_def upload_dynamic_chunk_def
  append_dynamic_index_def close_dynamic_index_def finish_session_def download_def
  download_chunk_def

lemma call_log: "c_log (snd (call sv t req c)) = c_log c @ [(req, snd (sv (c_srv c) req))]"
  by (simp add: call_def case_prod_beta)

lemma commit_op_log [simp]:
  "c_log (snd (commit_op L sv req c)) = c_log c @ [(req, snd (sv (c_srv c) req))]"
  by (simp add: commit_op_def case_prod_beta call_log)

lemma create_op_log [simp]:
  "c_log (snd (create_op L sv w req c)) = c_log c @ [(req, snd (sv (c_srv c) req))]"
  by (simp add: create_op_def case_prod_beta call_log)

lemma read_op_log [simp]:
  "c_log (snd (read_op L sv req c)) = c_log c @ [(req, snd (sv (c_srv c) req))]"
  by (simp add: read_op_def case_prod_beta call_log)

lemma download_previous_log [simp]:
  "c_log (snd (download_previous sv name c)) =
     c_log c @ [(Previous name, snd (sv (c_srv c) (Previous name)))]"
  by (simp add: download_previous_def case_prod_beta call_log)


section \<open>Properties of single requests\<close>

lemma read_body_strict:
  "read_body False st out es = Ok (s, b) \<longleftrightarrow>
     s = st \<and> (\<exists>ds. es = map BodyData ds \<and> b = out @ concat ds)"
proof (induction es arbitrary: out)
  case (Cons e es)
  show ?case
  proof (cases e)
    case (BodyData d)
    show ?thesis
    proof
      assume "read_body False st out (e # es) = Ok (s, b)"
      then obtain ds where "s = st" "es = map BodyData ds" "b = (out @ d) @ concat ds"
        using Cons.IH [of "out @ d"] BodyData by auto
      then show "s = st \<and> (\<exists>ds. e # es = map BodyData ds \<and> b = out @ concat ds)"
        using BodyData by (intro conjI exI [of _ "d # ds"]) auto
    qed (use Cons.IH [of "out @ d"] BodyData in \<open>auto simp: Cons_eq_map_conv\<close>)
  qed auto
qed auto

lemma read_body_tolerant: "is_success st \<Longrightarrow> \<exists>b. read_body True st out es = Ok (st, b)"
  by (induction es arbitrary: out) (auto split: BodyEvent.splits)

lemma read_body_failed:
  "\<not> is_success st \<Longrightarrow> read_body t st out es = Ok (s, b) \<Longrightarrow> s = st"
  by (induction es arbitrary: out) (auto split: BodyEvent.splits if_splits)

lemma read_body_status: "read_body t st out es = Ok (s, b) \<Longrightarrow> s = st"
  by (induction es arbitrary: out) (auto split: BodyEvent.splits if_splits)

lemma commit_op_ok_iff:
  "fst (commit_op L sv req c) = Ok () \<longleftrightarrow>
     (\<exists>st es. snd (sv (c_srv c) req) = Inr (st, es) \<and> is_success st)"
proof -
  obtain s' r where sv: "sv (c_srv c) req = (s', r)"
    by (cases "sv (c_srv c) req")
  show ?thesis
  proof (cases r)
    case (Inr sb)
    obtain st es where sb: "sb = (st, es)"
      by (cases sb)
    show ?thesis
    proof (cases "is_success st")
      case True
      then show ?thesis
        using read_body_tolerant [OF True, of "[]" es]
        by (auto simp: commit_op_def call_def sv Inr sb h2_request_def ensure_ok_def)
    next
      case False
      then show ?thesis
        using read_body_failed [OF False, of True "[]" es]
        by (auto simp: commit_op_def call_def sv Inr sb h2_request_def ensure_ok_def
            split: if_splits)
    qed
  qed (simp add: commit_op_def call_def sv h2_request_def)
qed

lemma commit_op_acked: "fst (commit_op L sv req c) = Ok u \<longleftrightarrow> acked (req, snd (sv (c_srv c) req))"
proof -
  have "fst (commit_op L sv req c) = Ok u \<longleftrightarrow> fst (commit_op L sv req c) = Ok ()"
    by simp
  then show ?thesis
    unfolding commit_op_ok_iff by (cases "snd (sv (c_srv c) req)") auto
qed

lemma read_headers_ok:
  assumes "read_headers buf s = Ok (h, rest)" "length buf \<le> 16 * 1024"
  shows "\<exists>bs. s = map Inr bs @ rest \<and> bs \<noteq> [] \<and> h = text_of (buf @ bs) \<and>
    ends_with (CRLF @ CRLF) (buf @ bs) \<and> length (buf @ bs) \<le> 16 * 1024 + 1 \<and>
    (\<forall>k < length bs. 0 < k \<longrightarrow> \<not> ends_with (CRLF @ CRLF) (buf @ take k bs))"
  using assms
proof (induction buf s rule: read_headers.induct)
  case (3 buf b s)
  show ?case
  proof (cases "ends_with (CRLF @ CRLF) (buf @ [b])")
    case True
    then have "h = text_of (buf @ [b])" "rest = s"
      using 3 by (auto simp: Let_def)
    then show ?thesis
      using True 3 by (intro exI [of _ "[b]"]) auto
  next
    case False
    then have le: "length (buf @ [b]) \<le> 16 * 1024"
      and rec: "read_headers (buf @ [b]) s = Ok (h, rest)"
      using 3 by (auto simp: Let_def split: if_splits)
    obtain bs where bs: "s = map Inr bs @ rest" "bs \<noteq> []" "h = text_of (buf @ [b] @ bs)"
      "ends_with (CRLF @ CRLF) (buf @ [b] @ bs)" "length (buf @ [b] @ bs) \<le> 16 * 1024 + 1"
      and before: "\<forall>k < length bs. 0 < k \<longrightarrow> \<not> ends_with (CRLF @ CRLF) (buf @ [b] @ take k bs)"
      using 3(1) [OF refl False _ rec le] le by auto
    have "\<not> ends_with (CRLF @ CRLF) (buf @ take k (b # bs))"
      if "k < length (b # bs)" "0 < k" for k
    proof (cases k)
      case (Suc j)
      then show ?thesis
        using before False that by (cases j) auto
    qed (use that in simp)
    then show ?thesis
      using bs by (intro exI [of _ "b # bs"]) auto
  qed
qed auto


section \<open>Properties\<close>



text \<open>Reading the upgrade response consumes exactly the bytes up to and including the first
  blank line and nothing of the HTTP/2 data after it, and never buffers more than 16 KiB plus
  one byte.\<close>

theorem read_headers_exact:
  assumes "read_headers [] s = Ok (h, rest)"
  shows "\<exists>bs. s = map Inr bs @ rest \<and> h = text_of bs \<and> ends_with (CRLF @ CRLF) bs \<and>
    length bs \<le> 16 * 1024 + 1 \<and> (\<forall>k < length bs. \<not> ends_with (CRLF @ CRLF) (take k bs))"
proof -
  obtain bs where bs: "s = map Inr bs @ rest" "h = text_of bs" "ends_with (CRLF @ CRLF) bs"
    "length bs \<le> 16 * 1024 + 1"
    and before: "\<forall>k < length bs. 0 < k \<longrightarrow> \<not> ends_with (CRLF @ CRLF) (take k bs)"
    using read_headers_ok [OF assms] by auto
  have "\<not> ends_with (CRLF @ CRLF) (take 0 bs)"
    by (simp add: ends_with_def CRLF_def)
  with before have "\<forall>k < length bs. \<not> ends_with (CRLF @ CRLF) (take k bs)"
    by (metis gr0I)
  with bs show ?thesis
    by blast
qed

theorem read_headers_exact_witness:
  "\<exists>bs. (map Inr (bytes_of ''HTTP/1.1 101'' @ [13, 10, 13, 10, 80, 82]) :: (string + byte) list) =
       map Inr bs @ map Inr [80, 82] \<and>
     length bs \<le> 16 * 1024 + 1 \<and> ends_with (CRLF @ CRLF) bs"
proof -
  let ?h = "bytes_of ''HTTP/1.1 101'' @ [13, 10, 13, 10]"
  have "read_headers [] (map Inr (?h @ [80, 82])) = Ok (text_of ?h, map Inr [80, 82])"
    by code_simp
  from read_headers_exact [OF this] obtain bs where
    "(map Inr (?h @ [80, 82]) :: (string + byte) list) = map Inr bs @ map Inr [80, 82]" "length bs \<le> 16 * 1024 + 1"
    "ends_with (CRLF @ CRLF) bs"
    by blast
  then show ?thesis
    by (intro exI [of _ bs] conjI) (simp_all only: append_assoc append.simps)
qed

text \<open>A request whose body is consumed succeeds only with the complete body the server sent (a
  connection lost midway is an error), whereas a status-only commit succeeds exactly when the
  server answered with a success status, whatever happens to the connection afterwards.\<close>

theorem request_strictness:
  "(h2_request False r = Ok (st, b) \<longleftrightarrow> (\<exists>ds. r = Inr (st, map BodyData ds) \<and> b = concat ds)) \<and>
   (fst (commit_op L sv req c) = Ok () \<longleftrightarrow>
      (\<exists>st es. snd (sv (c_srv c) req) = Inr (st, es) \<and> is_success st))"
proof
  show "h2_request False r = Ok (st, b) \<longleftrightarrow> (\<exists>ds. r = Inr (st, map BodyData ds) \<and> b = concat ds)"
    by (cases r) (auto simp: h2_request_def read_body_strict)
qed (rule commit_op_ok_iff)


section \<open>A concrete server\<close>

text \<open>A server that acknowledges every request, and a session, for the concrete runs.\<close>

definition ack_server :: "unit server" where
  "ack_server s req = (s, Inr (200, []))"

definition demo_params :: SessionParams where
  "demo_params =
     \<lparr> sp_host = ''pbs'', sp_port = 8007, sp_datastore = ''store'', sp_auth_id = ''a@pbs!t'',
       sp_secret = ''s'', sp_fingerprint = '''', sp_backup_type = ''host'', sp_backup_id = ''vm'',
       sp_backup_time = 1000, sp_namespace = None \<rparr>"

end
