(* ===== verification/Chunk.thy ===== *)
theory Chunk
  imports Crypt Index
begin

text \<open>
  What a backup does to one chunk and a restore undoes (\<open>pbs-client/src/session.rs\<close>): the
  digest it is addressed by (plain or keyed), its encoding (plain or encrypted, with or
  without compression), and decoding with verification against the digest.
\<close>

definition digest_of :: "libs \<Rightarrow> CryptConfig option \<Rightarrow> bytes \<Rightarrow> arr32" where
  "digest_of L crypt data =
     (case crypt of Some c \<Rightarrow> compute_digest L c data | None \<Rightarrow> chunk_digest L data)"

definition encode_chunk ::
  "libs \<Rightarrow> CryptConfig option \<Rightarrow> bool \<Rightarrow> string + arr16 \<Rightarrow> bytes \<Rightarrow> PbsError + bytes" where
  "encode_chunk L crypt compress rnd data =
     (case (crypt, compress) of
        (Some c, True) \<Rightarrow> encrypt_compressed_blob L c rnd data
      | (Some c, False) \<Rightarrow> encrypt_blob L c rnd data
      | (None, True) \<Rightarrow> Ok (encode_auto L data)
      | (None, False) \<Rightarrow> Ok (encode_uncompressed L data))"

definition decode_blob :: "libs \<Rightarrow> bytes \<Rightarrow> CryptConfig option \<Rightarrow> PbsError + bytes" where
  "decode_blob L raw crypt =
     (let is_encrypted = 8 \<le> length raw \<and>
            (slice 0 8 raw = MAGIC_ENCRYPTED \<or> slice 0 8 raw = MAGIC_ENCRYPTED_ZSTD)
      in if is_encrypted then
           (case crypt of
              Some c \<Rightarrow> decrypt_blob L c raw
            | None \<Rightarrow> Err (Protocol
                ''this snapshot is encrypted but no encryption key was provided''))
         else decode L raw)"

definition decode_and_verify_chunk ::
  "libs \<Rightarrow> bytes \<Rightarrow> CryptConfig option \<Rightarrow> arr32 \<Rightarrow> PbsError + bytes" where
  "decode_and_verify_chunk L raw crypt expected =
     and_then (decode_blob L raw crypt) (\<lambda>data.
       if digest_of L crypt data \<noteq> expected
       then Err (Protocol (''chunk '' @ hex_encode L (arr32_to_bytes expected)
              @ '' failed verification: its data does not match its digest (corrupt or tampered datastore)''))
       else Ok data)"

lemma verified_digest: "decode_and_verify_chunk L raw crypt d = Ok data \<Longrightarrow> digest_of L crypt data = d"
  by (auto simp: decode_and_verify_chunk_def split: if_splits)

lemma plain_blob_magic:
  "slice 0 8 (encode_uncompressed L p) = MAGIC_UNCOMPRESSED"
  "slice 0 8 (encode_auto L p) \<in> {MAGIC_UNCOMPRESSED, MAGIC_ZSTD}"
  by (auto simp: encode_uncompressed_def encode_auto_def frame_zstd_def slice_def Let_def)

lemma decode_blob_plain:
  "slice 0 8 raw \<in> {MAGIC_UNCOMPRESSED, MAGIC_ZSTD} \<Longrightarrow> decode_blob L raw crypt = decode L raw"
  by (auto simp: decode_blob_def Let_def)

lemma encrypted_blob_magic:
  "encrypt_with_magic L c rnd p m = Ok b \<Longrightarrow> length m = 8 \<Longrightarrow> slice 0 8 b = m \<and> 8 \<le> length b"
  by (auto simp: encrypt_with_magic_def slice_def split: sum.splits option.splits)

lemma decode_blob_encrypted:
  assumes "encrypt_with_magic L c rnd p m = Ok b" "m = MAGIC_ENCRYPTED \<or> m = MAGIC_ENCRYPTED_ZSTD"
  shows "decode_blob L b (Some c) = decrypt_blob L c b"
  using encrypted_blob_magic [OF assms(1)] assms(2) by (auto simp: decode_blob_def Let_def)

lemma encode_chunk_decodes:
  assumes "zstd_lossless L" "gcm_correct L" "encode_chunk L crypt compress (Inr iv) data = Ok b"
  shows "decode_blob L b crypt = Ok data"
proof (cases crypt)
  case None
  then show ?thesis
    using assms plain_blob_magic [of L data] decode_auto [OF assms(1)]
    by (cases compress) (auto simp: encode_chunk_def decode_blob_plain)
next
  case (Some c)
  show ?thesis
  proof (cases compress)
    case True
    then have e: "encrypt_compressed_blob L c (Inr iv) data = Ok b"
      using assms(3) Some by (simp add: encode_chunk_def)
    then obtain p m where "encrypt_with_magic L c (Inr iv) p m = Ok b"
      "m = MAGIC_ENCRYPTED \<or> m = MAGIC_ENCRYPTED_ZSTD"
      by (auto simp: encrypt_compressed_blob_def Let_def split: if_splits)
    then show ?thesis
      using Some encrypt_compressed_decrypts [OF assms(2,1) e] by (simp add: decode_blob_encrypted)
  next
    case False
    then have e: "encrypt_with_magic L c (Inr iv) data MAGIC_ENCRYPTED = Ok b"
      using assms(3) Some by (simp add: encode_chunk_def encrypt_blob_def)
    from decrypt_encrypt_with_magic [OF this assms(2)] show ?thesis
      using Some decode_blob_encrypted [OF e] by simp
  qed
qed

lemma encode_chunk_verifies:
  assumes "zstd_lossless L" "gcm_correct L" "encode_chunk L crypt compress (Inr iv) data = Ok b"
  shows "decode_and_verify_chunk L b crypt (digest_of L crypt data) = Ok data"
  using encode_chunk_decodes [OF assms] by (simp add: decode_and_verify_chunk_def)


section \<open>Properties\<close>

text \<open>C15: A chunk encoded by a backup, plain or encrypted, compressed or not, decodes on restore
  with the same key and passes verification against the digest the backup recorded for it; and
  whatever blob a server returns, a chunk is accepted only if its content has exactly the digest
  it was requested by.\<close>

theorem chunk_store_roundtrip:
  assumes "zstd_lossless L" "gcm_correct L" "encode_chunk L crypt compress (Inr iv) data = Ok b"
  shows "decode_and_verify_chunk L b crypt (digest_of L crypt data) = Ok data \<and>
    (\<forall>raw d x. decode_and_verify_chunk L raw crypt d = Ok x \<longrightarrow> digest_of L crypt x = d)"
  using encode_chunk_verifies [OF assms] verified_digest by blast

theorem chunk_store_roundtrip_witness:
  "\<exists>b. encode_chunk demo_libs (Some (crypt_new demo_libs 5)) True (Inr 9) [4, 4, 4, 4] = Ok b \<and>
     decode_and_verify_chunk demo_libs b (Some (crypt_new demo_libs 5))
       (digest_of demo_libs (Some (crypt_new demo_libs 5)) [4, 4, 4, 4]) = Ok [4, 4, 4, 4]"
proof -
  obtain b where b: "encode_chunk demo_libs (Some (crypt_new demo_libs 5)) True (Inr 9) [4, 4, 4, 4]
      = Ok b"
    using encrypt_compressed_total [OF demo_gcm_correct, of "[4, 4, 4, 4]" "crypt_new demo_libs 5" 9]
    by (auto simp: encode_chunk_def)
  from chunk_store_roundtrip [OF demo_zstd_lossless demo_gcm_correct b] b show ?thesis
    by blast
qed

text \<open>C37: A chunk of an unencrypted backup decodes but never verifies when the reader is given a
  key: the verification then always uses the keyed digest, so unless the plain and keyed hashes
  of the chunk coincide the restore fails although the data is intact.\<close>

theorem plain_chunk_rejected_with_key:
  assumes "zstd_lossless L" "sha256 L data \<noteq> sha256 L (data @ arr32_to_bytes (id_key c))"
  shows "decode_blob L (encode_auto L data) (Some c) = Ok data \<and>
    decode_and_verify_chunk L (encode_auto L data) None (digest_of L None data) = Ok data \<and>
    \<not> is_ok (decode_and_verify_chunk L (encode_auto L data) (Some c) (digest_of L None data))"
proof -
  have d: "decode_blob L (encode_auto L data) k = Ok data" for k
    using plain_blob_magic(2) decode_auto [OF assms(1)] by (simp add: decode_blob_plain)
  show ?thesis
    using assms(2) by (simp add: d decode_and_verify_chunk_def digest_of_def compute_digest_def
        chunk_digest_def)
qed

theorem plain_chunk_rejected_with_key_witness:
  "\<not> is_ok (decode_and_verify_chunk demo_libs (encode_auto demo_libs [1, 2])
      (Some \<lparr> enc_key = 3, id_key = 7 \<rparr>) (digest_of demo_libs None [1, 2]))"
proof -
  have "sha256 demo_libs [1, 2] \<noteq> sha256 demo_libs ([1, 2] @ arr32_to_bytes (id_key \<lparr> enc_key = 3, id_key = 7 \<rparr>))"
    by code_simp
  from plain_chunk_rejected_with_key [OF demo_zstd_lossless this] show ?thesis
    by blast
qed

end
