(* ===== verification/Upload.thy ===== *)
theory Upload
  imports Session Chunk
begin

text \<open>
  Writing a snapshot (\<open>pbs-client/src/session.rs\<close>): \<open>backup_fixed_image\<close> as a sequential
  program, and \<open>backup_dynamic_reader\<close> as a state machine.

  The dynamic backup is concurrent: the chunker feeds a queue, the main task takes chunks from
  it and spawns uploads (at most the pipeline width at a time), and the uploads run and finish
  in any order. A label says what happens next: the main task proceeds (\<open>Main\<close>), the \<open>i\<close>-th
  upload in flight runs to its end (\<open>Run i\<close>), or the main task reaps a finished upload
  (\<open>Reap\<close>). \<open>backup_step\<close> is the machine; a blocked or ended machine has no step.

  The chunk boundaries are chosen by the FastCDC library: the chunks delivered and the chunker's
  final result (a read error ends the stream early) are part of the configuration.
\<close>

section \<open>Manifest blob\<close>

definition file_entry_json :: "FileEntry \<Rightarrow> json" where
  "file_entry_json e =
     JObj [(''filename'', JStr (fe_filename e)), (''crypt-mode'', JStr (fe_crypt_mode e)),
           (''size'', JNum (uint (fe_size e))), (''csum'', JStr (fe_csum e))]"

definition manifest_json :: "BackupManifest \<Rightarrow> json" where
  "manifest_json m =
     JObj [(''backup-type'', JStr (m_backup_type m)), (''backup-id'', JStr (m_backup_id m)),
           (''backup-time'', JNum (sint (m_backup_time m))),
           (''files'', JArr (map file_entry_json (m_files m))), (''unprotected'', JObj [])]"

definition manifest_blob :: "libs \<Rightarrow> SessionParams \<Rightarrow> FileEntry \<Rightarrow> bytes" where
  "manifest_blob L p entry =
     encode_uncompressed L (json_print L (manifest_json
       (manifest_new (sp_backup_type p) (sp_backup_id p) (sp_backup_time p) [entry])))"


section \<open>Fixed-index image\<close>

text \<open>The loop over the image's chunks: the builder, the batch of digests and offsets not yet
  appended, and the offset of the next chunk.\<close>

fun fixed_loop ::
  "libs \<Rightarrow> 's server \<Rightarrow> u64 \<Rightarrow> bytes list \<Rightarrow> FixedIndexBuilder \<Rightarrow> arr32 list \<Rightarrow> u64 list \<Rightarrow> u64
     \<Rightarrow> 's conn \<Rightarrow> (PbsError + FixedIndexBuilder \<times> arr32 list \<times> u64 list) \<times> 's conn" where
  "fixed_loop L sv wid [] b bd bo off c = (Ok (b, bd, bo), c)"
| "fixed_loop L sv wid (chunk # rest) b bd bo off c =
     (let d = chunk_digest L chunk;
          (r, c1) = upload_chunk L sv wid d (of_nat (length chunk)) (encode_auto L chunk) c
      in case r of
           Inl e \<Rightarrow> (Err e, c1)
         | Inr _ \<Rightarrow>
             let b' = push_digest d b; bd' = bd @ [d]; bo' = bo @ [off];
                 off' = off + of_nat (length chunk)
             in if APPEND_BATCH \<le> length bd' then
                  let (r2, c2) = append_fixed_index L sv wid bd' bo' c1 in
                  (case r2 of
                     Inl e \<Rightarrow> (Err e, c2)
                   | Inr _ \<Rightarrow> fixed_loop L sv wid rest b' [] [] off' c2)
                else fixed_loop L sv wid rest b' bd' bo' off' c1)"

definition fixed_commit ::
  "libs \<Rightarrow> 's server \<Rightarrow> SessionParams \<Rightarrow> string \<Rightarrow> u64 \<Rightarrow> u64 \<Rightarrow> FixedIndexBuilder \<Rightarrow> 's conn
     \<Rightarrow> (PbsError + arr32) \<times> 's conn" where
  "fixed_commit L sv p name wid sz b c =
     (let csum = fixed_csum L (fb_digests b);
          (r, c1) = close_fixed_index L sv wid (of_nat (chunk_count b)) sz csum c
      in case r of Inl e \<Rightarrow> (Err e, c1)
         | Inr _ \<Rightarrow>
             let (r2, c2) = upload_blob L sv MANIFEST_BLOB_NAME
                   (manifest_blob L p (fe_fixed_image L name sz csum)) c1
             in case r2 of Inl e \<Rightarrow> (Err e, c2)
                | Inr _ \<Rightarrow>
                    let (r3, c3) = finish_session L sv c2
                    in (and_then r3 (\<lambda>_. Ok csum), c3))"

definition backup_fixed_image ::
  "libs \<Rightarrow> 's server \<Rightarrow> u64 \<Rightarrow> SessionParams \<Rightarrow> string \<Rightarrow> bytes \<Rightarrow> arr16 \<Rightarrow> 's conn
     \<Rightarrow> (PbsError + arr32) \<times> 's conn" where
  "backup_fixed_image L sv chunk_size p name img uuid c =
     (let sz = of_nat (length img);
          (r, c1) = create_fixed_index L sv name sz c
      in case r of Inl e \<Rightarrow> (Err e, c1)
         | Inr wid \<Rightarrow>
             let (r2, c2) = fixed_loop L sv wid (chunks (unat chunk_size) img)
                   (fixed_new sz chunk_size (sp_backup_time p) uuid) [] [] 0 c1
             in case r2 of Inl e \<Rightarrow> (Err e, c2)
                | Inr (b, bd, bo) \<Rightarrow>
                    if bd \<noteq> [] then
                      let (r3, c3) = append_fixed_index L sv wid bd bo c2 in
                      (case r3 of Inl e \<Rightarrow> (Err e, c3)
                       | Inr _ \<Rightarrow> fixed_commit L sv p name wid sz b c3)
                    else fixed_commit L sv p name wid sz b c2)"


section \<open>Dynamic backup\<close>

record BackupStats =
  st_chunks :: u64
  st_reused :: u64
  st_uploaded :: u64
  st_bytes :: u64
  st_uploaded_bytes :: u64
  st_stored_bytes :: u64
  st_csum :: arr32

record BackupProgress =
  bp_bytes_done :: u64
  bp_total_bytes :: u64
  bp_chunks :: u64
  bp_reused :: u64
  bp_uploaded :: u64
  bp_uploaded_bytes :: u64
  bp_reused_bytes :: u64
  bp_stored_bytes :: u64

text \<open>Opening the session's index: fetch the previous index for its digests (an unreadable one is
  ignored), then create the new one.\<close>

definition begin_dynamic ::
  "libs \<Rightarrow> 's server \<Rightarrow> string \<Rightarrow> bool \<Rightarrow> 's conn \<Rightarrow> (PbsError + arr32 list \<times> u64) \<times> 's conn" where
  "begin_dynamic L sv name dedup c =
     (let (r, c1) =
        (if dedup then
           let (r0, c0) = download_previous sv name c in
           (and_then r0 (\<lambda>prev.
              case prev of
                None \<Rightarrow> Ok []
              | Some bs \<Rightarrow> (case dynamic_parse bs of Inl _ \<Rightarrow> Ok [] | Inr i \<Rightarrow> Ok (index_digests i))), c0)
         else (Ok [], c))
      in case r of Inl e \<Rightarrow> (Err e, c1)
         | Inr known \<Rightarrow>
             let (r2, c2) = create_dynamic_index L sv name c1
             in (and_then r2 (\<lambda>wid. Ok (known, wid)), c2))"

datatype Phase =
    Streaming
  | Draining
  | Appending "(arr32 list \<times> u64 list) list"
  | Joining
  | Closing
  | Cataloging
  | Manifesting
  | Finishing
  | Done BackupStats
  | Failed PbsError

record bcfg =
  bc_params :: SessionParams
  bc_archive :: string
  bc_compress :: bool
  bc_crypt :: "CryptConfig option"
  bc_total :: u64
  bc_chunks :: "bytes list"
  bc_chunker :: "string + unit"
  bc_catalog :: "(string \<times> bytes) option option"
  bc_width :: nat
  bc_uuid :: arr16
  bc_rnd :: "nat \<Rightarrow> string + arr16"
  bc_known :: "arr32 list"
  bc_wid :: u64

record 's bstate =
  bs_conn :: "'s conn"
  bs_phase :: Phase
  bs_todo :: "bytes list"
  bs_builder :: DynamicIndexBuilder
  bs_digests :: "arr32 list"
  bs_offsets :: "u64 list"
  bs_end :: u64
  bs_chunks :: u64
  bs_reused :: u64
  bs_uploaded :: u64
  bs_uploaded_bytes :: u64
  bs_reused_bytes :: u64
  bs_stored :: u64
  bs_inflight :: "(nat \<times> arr32 \<times> bytes) list"
  bs_finished :: "(PbsError + unit) list"
  bs_progress :: "BackupProgress list"

definition init_state :: "bcfg \<Rightarrow> 's conn \<Rightarrow> 's bstate" where
  "init_state cfg c =
     \<lparr> bs_conn = c, bs_phase = Streaming, bs_todo = bc_chunks cfg,
       bs_builder = dynamic_new (sp_backup_time (bc_params cfg)) (bc_uuid cfg),
       bs_digests = [], bs_offsets = [], bs_end = 0, bs_chunks = 0, bs_reused = 0,
       bs_uploaded = 0, bs_uploaded_bytes = 0, bs_reused_bytes = 0, bs_stored = 0,
       bs_inflight = [], bs_finished = [], bs_progress = [] \<rparr>"

text \<open>Index bookkeeping for a received chunk, after it was counted as reused or uploaded: the
  entry, the progress report, and the ordered lists of digests and start offsets.\<close>

definition record_chunk :: "bcfg \<Rightarrow> u64 \<Rightarrow> arr32 \<Rightarrow> 's bstate \<Rightarrow> 's bstate" where
  "record_chunk cfg start d s =
     s \<lparr> bs_builder := dynamic_push (bs_end s) d (bs_builder s),
         bs_progress := bs_progress s @ [\<lparr> bp_bytes_done = bs_end s, bp_total_bytes = bc_total cfg,
            bp_chunks = bs_chunks s, bp_reused = bs_reused s, bp_uploaded = bs_uploaded s,
            bp_uploaded_bytes = bs_uploaded_bytes s, bp_reused_bytes = bs_reused_bytes s,
            bp_stored_bytes = bs_stored s \<rparr>],
         bs_digests := bs_digests s @ [d],
         bs_offsets := bs_offsets s @ [start] \<rparr>"

definition receive_chunk :: "libs \<Rightarrow> bcfg \<Rightarrow> bytes \<Rightarrow> bytes list \<Rightarrow> 's bstate \<Rightarrow> 's bstate option" where
  "receive_chunk L cfg data rest s =
     (let d = digest_of L (bc_crypt cfg) data;
          start = bs_end s;
          len = of_nat (length data);
          s1 = s \<lparr> bs_todo := rest, bs_end := bs_end s + len, bs_chunks := bs_chunks s + 1 \<rparr>
      in if d \<in> set (bc_known cfg) then
           Some (record_chunk cfg start d
             (s1 \<lparr> bs_reused := bs_reused s1 + 1, bs_reused_bytes := bs_reused_bytes s1 + len \<rparr>))
         else if length (bs_inflight s1) < bc_width cfg then
           Some (record_chunk cfg start d
             (s1 \<lparr> bs_uploaded_bytes := bs_uploaded_bytes s1 + len,
                   bs_inflight := bs_inflight s1 @ [(length (bs_digests s1), d, data)],
                   bs_uploaded := bs_uploaded s1 + 1 \<rparr>))
         else None)"

definition reap :: "'s bstate \<Rightarrow> 's bstate option" where
  "reap s =
     (case bs_finished s of
        [] \<Rightarrow> None
      | Inl e # fs \<Rightarrow> Some (s \<lparr> bs_finished := fs, bs_phase := Failed e \<rparr>)
      | Inr _ # fs \<Rightarrow> Some (s \<lparr> bs_finished := fs \<rparr>))"

definition index_batches :: "arr32 list \<Rightarrow> u64 list \<Rightarrow> (arr32 list \<times> u64 list) list" where
  "index_batches ds os = zip (chunks APPEND_BATCH ds) (chunks APPEND_BATCH os)"

definition main_stream :: "libs \<Rightarrow> bcfg \<Rightarrow> 's bstate \<Rightarrow> 's bstate option" where
  "main_stream L cfg s =
     (case bs_todo s of
        [] \<Rightarrow> Some (s \<lparr> bs_phase := Draining \<rparr>)
      | data # rest \<Rightarrow> receive_chunk L cfg data rest s)"

definition main_drain :: "'s bstate \<Rightarrow> 's bstate option" where
  "main_drain s =
     (if bs_finished s \<noteq> [] then reap s
      else if bs_inflight s = []
      then Some (s \<lparr> bs_phase := Appending (index_batches (bs_digests s) (bs_offsets s)) \<rparr>)
      else None)"

text \<open>Advance to a phase when an operation on the connection succeeded, fail otherwise.\<close>

definition after_op :: "(PbsError + 'a) \<times> 's conn \<Rightarrow> Phase \<Rightarrow> 's bstate \<Rightarrow> 's bstate" where
  "after_op rc ph s =
     s \<lparr> bs_conn := snd rc, bs_phase := (case fst rc of Inl e \<Rightarrow> Failed e | Inr _ \<Rightarrow> ph) \<rparr>"

definition backup_stats :: "libs \<Rightarrow> 's bstate \<Rightarrow> BackupStats" where
  "backup_stats L s =
     \<lparr> st_chunks = bs_chunks s, st_reused = bs_reused s, st_uploaded = bs_uploaded s,
       st_bytes = dynamic_total_size (bs_builder s), st_uploaded_bytes = bs_uploaded_bytes s,
       st_stored_bytes = bs_stored s, st_csum = dynamic_csum L (db_entries (bs_builder s)) \<rparr>"

definition main_append ::
  "libs \<Rightarrow> 's server \<Rightarrow> bcfg \<Rightarrow> (arr32 list \<times> u64 list) list \<Rightarrow> 's bstate \<Rightarrow> 's bstate" where
  "main_append L sv cfg batches s =
     (case batches of
        [] \<Rightarrow> s \<lparr> bs_phase := Joining \<rparr>
      | (ds, os) # rest \<Rightarrow>
          after_op (append_dynamic_index L sv (bc_wid cfg) ds os (bs_conn s)) (Appending rest) s)"

definition main_join :: "bcfg \<Rightarrow> 's bstate \<Rightarrow> 's bstate" where
  "main_join cfg s =
     s \<lparr> bs_phase := (case bc_chunker cfg of Inl e \<Rightarrow> Failed (Io e) | Inr _ \<Rightarrow> Closing) \<rparr>"

definition main_close :: "libs \<Rightarrow> 's server \<Rightarrow> bcfg \<Rightarrow> 's bstate \<Rightarrow> 's bstate" where
  "main_close L sv cfg s =
     after_op (close_dynamic_index L sv (bc_wid cfg) (of_nat (entry_count (bs_builder s)))
       (dynamic_total_size (bs_builder s)) (dynamic_csum L (db_entries (bs_builder s)))
       (bs_conn s)) Cataloging s"

definition main_catalog :: "libs \<Rightarrow> 's server \<Rightarrow> bcfg \<Rightarrow> 's bstate \<Rightarrow> 's bstate" where
  "main_catalog L sv cfg s =
     (case bc_catalog cfg of
        Some (Some (name, content)) \<Rightarrow>
          (case encode_chunk L (bc_crypt cfg) (bc_compress cfg)
                  (bc_rnd cfg (length (bc_chunks cfg))) content of
             Inl e \<Rightarrow> s \<lparr> bs_phase := Failed e \<rparr>
           | Inr blob \<Rightarrow> after_op (upload_blob L sv name blob (bs_conn s)) Manifesting s)
      | _ \<Rightarrow> s \<lparr> bs_phase := Manifesting \<rparr>)"

definition main_manifest :: "libs \<Rightarrow> 's server \<Rightarrow> bcfg \<Rightarrow> 's bstate \<Rightarrow> 's bstate" where
  "main_manifest L sv cfg s =
     (let entry = fe_with_crypt L (bc_archive cfg) (dynamic_total_size (bs_builder s))
            (dynamic_csum L (db_entries (bs_builder s))) (bc_crypt cfg \<noteq> None)
      in after_op (upload_blob L sv MANIFEST_BLOB_NAME (manifest_blob L (bc_params cfg) entry)
           (bs_conn s)) Finishing s)"

definition main_finish :: "libs \<Rightarrow> 's server \<Rightarrow> 's bstate \<Rightarrow> 's bstate" where
  "main_finish L sv s =
     after_op (finish_session L sv (bs_conn s)) (Done (backup_stats L s)) s"

definition main_step :: "libs \<Rightarrow> 's server \<Rightarrow> bcfg \<Rightarrow> 's bstate \<Rightarrow> 's bstate option" where
  "main_step L sv cfg s =
     (case bs_phase s of
        Streaming \<Rightarrow> main_stream L cfg s
      | Draining \<Rightarrow> main_drain s
      | Appending batches \<Rightarrow> Some (main_append L sv cfg batches s)
      | Joining \<Rightarrow> Some (main_join cfg s)
      | Closing \<Rightarrow> Some (main_close L sv cfg s)
      | Cataloging \<Rightarrow> Some (main_catalog L sv cfg s)
      | Manifesting \<Rightarrow> Some (main_manifest L sv cfg s)
      | Finishing \<Rightarrow> Some (main_finish L sv s)
      | Done st \<Rightarrow> None
      | Failed e \<Rightarrow> None)"

text \<open>An upload task: encode on a worker thread, then send; its result waits to be joined.\<close>

definition remove_nth :: "nat \<Rightarrow> 'a list \<Rightarrow> 'a list" where
  "remove_nth i xs = take i xs @ drop (Suc i) xs"

definition run_upload :: "libs \<Rightarrow> 's server \<Rightarrow> bcfg \<Rightarrow> nat \<Rightarrow> 's bstate \<Rightarrow> 's bstate option" where
  "run_upload L sv cfg i s =
     (if i < length (bs_inflight s) then
        (case bs_inflight s ! i of (k, d, data) \<Rightarrow>
           let s1 = s \<lparr> bs_inflight := remove_nth i (bs_inflight s) \<rparr> in
           (case encode_chunk L (bc_crypt cfg) (bc_compress cfg) (bc_rnd cfg k) data of
              Inl e \<Rightarrow> Some (s1 \<lparr> bs_finished := bs_finished s @ [Err e] \<rparr>)
            | Inr encoded \<Rightarrow>
                let (r, c') = upload_dynamic_chunk L sv (bc_wid cfg) d (of_nat (length data)) encoded
                      (bs_conn s)
                in Some (s1 \<lparr> bs_stored := bs_stored s + of_nat (length encoded),
                              bs_conn := c', bs_finished := bs_finished s @ [r] \<rparr>)))
      else None)"

datatype BLabel = Main | Run nat | Reap

definition backup_step :: "libs \<Rightarrow> 's server \<Rightarrow> bcfg \<Rightarrow> 's bstate \<Rightarrow> BLabel \<Rightarrow> 's bstate option" where
  "backup_step L sv cfg s l =
     (case l of
        Main \<Rightarrow> main_step L sv cfg s
      | Run i \<Rightarrow> if bs_phase s = Streaming \<or> bs_phase s = Draining then run_upload L sv cfg i s
                  else None
      | Reap \<Rightarrow> if bs_phase s = Streaming then reap s else None)"

definition backup_rel :: "libs \<Rightarrow> 's server \<Rightarrow> bcfg \<Rightarrow> 's bstate \<Rightarrow> BLabel \<Rightarrow> 's bstate \<Rightarrow> bool" where
  "backup_rel L sv cfg s l s' = (backup_step L sv cfg s l = Some s')"

end
