(* ===== verification/Commit.thy ===== *)
theory Commit
  imports Upload
begin

text \<open>
  What a committed snapshot guarantees. The invariant of the dynamic backup machine
  (theory \<open>Upload\<close>) and its consequence: a commit request is sent only for a stream that ended
  without error, after every chunk is on the server, the index lists exactly the stream's
  chunks at their offsets, and every earlier request was acknowledged. The same for the fixed
  image backup.
\<close>

section \<open>Offsets\<close>

fun starts :: "u64 \<Rightarrow> bytes list \<Rightarrow> u64 list" where
  "starts off [] = []"
| "starts off (c # cs) = off # starts (off + of_nat (length c)) cs"

fun ends :: "u64 \<Rightarrow> bytes list \<Rightarrow> u64 list" where
  "ends off [] = []"
| "ends off (c # cs) = (off + of_nat (length c)) # ends (off + of_nat (length c)) cs"

definition total :: "bytes list \<Rightarrow> u64" where
  "total cs = of_nat (length (concat cs))"

lemma starts_length [simp]: "length (starts off cs) = length cs"
  by (induction cs arbitrary: off) auto

lemma ends_length [simp]: "length (ends off cs) = length cs"
  by (induction cs arbitrary: off) auto

lemma total_simps [simp]: "total [] = 0" "total (c # cs) = of_nat (length c) + total cs"
  "total (a @ b) = total a + total b"
  by (simp_all add: total_def)

lemma starts_snoc: "starts off (cs @ [c]) = starts off cs @ [off + total cs]"
  by (induction cs arbitrary: off) (simp_all add: add.assoc)

lemma ends_snoc: "ends off (cs @ [c]) = ends off cs @ [off + total cs + of_nat (length c)]"
  by (induction cs arbitrary: off) (simp_all add: add.assoc)

lemma last_ends: "cs \<noteq> [] \<Longrightarrow> last (ends off cs) = off + total cs"
  by (induction cs arbitrary: off rule: rev_induct) (simp_all add: ends_snoc add.assoc)

definition chunk_entries :: "libs \<Rightarrow> CryptConfig option \<Rightarrow> bytes list \<Rightarrow> (u64 \<times> arr32) list" where
  "chunk_entries L crypt cs = zip (ends 0 cs) (map (digest_of L crypt) cs)"

lemma chunk_entries_snoc:
  "chunk_entries L crypt (cs @ [c]) =
     chunk_entries L crypt cs @ [(total cs + of_nat (length c), digest_of L crypt c)]"
  by (simp add: chunk_entries_def ends_snoc)

lemma chunk_entries_length [simp]: "length (chunk_entries L crypt cs) = length cs"
  by (simp add: chunk_entries_def)

lemma entries_size_chunks: "entries_size (chunk_entries L crypt cs) = total cs"
proof (cases cs rule: rev_cases)
  case (snoc ys y)
  then show ?thesis
    by (simp add: entries_size_def chunk_entries_snoc)
qed (simp add: entries_size_def chunk_entries_def)

lemma index_batches_concat:
  assumes "length ds = length os"
  shows "concat (map fst (index_batches ds os)) = ds" "concat (map snd (index_batches ds os)) = os"
proof -
  have "length (chunks APPEND_BATCH ds) = length (chunks APPEND_BATCH os)"
    using assms by (simp add: length_chunks APPEND_BATCH_def)
  then show "concat (map fst (index_batches ds os)) = ds" "concat (map snd (index_batches ds os)) = os"
    by (simp_all add: index_batches_def APPEND_BATCH_def)
qed


section \<open>The invariant\<close>

text \<open>Bookkeeping: the index and the counters describe the chunks received so far.\<close>

definition known_chunk :: "libs \<Rightarrow> bcfg \<Rightarrow> bytes \<Rightarrow> bool" where
  "known_chunk L cfg c = (digest_of L (bc_crypt cfg) c \<in> set (bc_known cfg))"

definition base_inv :: "libs \<Rightarrow> bcfg \<Rightarrow> bytes list \<Rightarrow> 's bstate \<Rightarrow> bool" where
  "base_inv L cfg rcv s =
     (bc_chunks cfg = rcv @ bs_todo s \<and>
      bs_digests s = map (digest_of L (bc_crypt cfg)) rcv \<and>
      bs_offsets s = starts 0 rcv \<and>
      db_entries (bs_builder s) = chunk_entries L (bc_crypt cfg) rcv \<and>
      bs_end s = total rcv \<and>
      bs_chunks s = of_nat (length rcv) \<and>
      bs_reused s = of_nat (length (filter (known_chunk L cfg) rcv)) \<and>
      bs_uploaded s = of_nat (length (filter (\<lambda>c. \<not> known_chunk L cfg c) rcv)) \<and>
      bs_uploaded_bytes s = total (filter (\<lambda>c. \<not> known_chunk L cfg c) rcv))"

text \<open>Uploads: every received chunk that was not known is in flight, or acknowledged, or the
  failure of some upload is waiting to be joined.\<close>

definition upload_of :: "libs \<Rightarrow> bcfg \<Rightarrow> bytes \<Rightarrow> Req \<Rightarrow> bool" where
  "upload_of L cfg c req =
     (\<exists>k enc. encode_chunk L (bc_crypt cfg) (bc_compress cfg) (bc_rnd cfg k) c = Ok enc \<and>
        req = DynamicChunk (bc_wid cfg) (digest_of L (bc_crypt cfg) c) (of_nat (length c)) enc)"

definition pending_failure :: "'s bstate \<Rightarrow> bool" where
  "pending_failure s = ((\<exists>e. Err e \<in> set (bs_finished s)) \<or> (\<exists>e. bs_phase s = Failed e))"

definition upload_inv :: "libs \<Rightarrow> bcfg \<Rightarrow> (Req \<times> response) list \<Rightarrow> bytes list \<Rightarrow> 's bstate \<Rightarrow> bool" where
  "upload_inv L cfg log rcv s =
     ((\<forall>(k, d, data) \<in> set (bs_inflight s). d = digest_of L (bc_crypt cfg) data) \<and>
      (\<forall>c \<in> set rcv. known_chunk L cfg c \<or> c \<in> (snd \<circ> snd) ` set (bs_inflight s) \<or>
         (\<exists>x \<in> set log. upload_of L cfg c (fst x) \<and> acked x) \<or> pending_failure s))"

text \<open>The requests sent, by phase.\<close>

definition append_req :: "bcfg \<Rightarrow> arr32 list \<times> u64 list \<Rightarrow> Req" where
  "append_req cfg b = AppendDynamic (bc_wid cfg) (fst b) (snd b)"

definition close_req :: "libs \<Rightarrow> bcfg \<Rightarrow> bytes list \<Rightarrow> Req" where
  "close_req L cfg cs =
     CloseDynamic (bc_wid cfg) (of_nat (length cs)) (total cs)
       (dynamic_csum L (chunk_entries L (bc_crypt cfg) cs))"

definition manifest_req :: "libs \<Rightarrow> bcfg \<Rightarrow> bytes list \<Rightarrow> Req" where
  "manifest_req L cfg cs =
     UploadBlob MANIFEST_BLOB_NAME (manifest_blob L (bc_params cfg)
       (fe_with_crypt L (bc_archive cfg) (total cs)
          (dynamic_csum L (chunk_entries L (bc_crypt cfg) cs)) (bc_crypt cfg \<noteq> None)))"

definition all_batches :: "libs \<Rightarrow> bcfg \<Rightarrow> (arr32 list \<times> u64 list) list" where
  "all_batches L cfg =
     index_batches (map (digest_of L (bc_crypt cfg)) (bc_chunks cfg)) (starts 0 (bc_chunks cfg))"

fun is_chunk_req :: "Req \<Rightarrow> bool" where
  "is_chunk_req (DynamicChunk w d n e) = True"
| "is_chunk_req _ = False"

fun is_blob_req :: "Req \<Rightarrow> bool" where
  "is_blob_req (UploadBlob n b) = True"
| "is_blob_req _ = False"

definition quiet :: "'s bstate \<Rightarrow> bool" where
  "quiet s = (bs_todo s = [] \<and> bs_inflight s = [] \<and> bs_finished s = [])"

definition phase_trace ::
  "libs \<Rightarrow> bcfg \<Rightarrow> 's bstate \<Rightarrow> (arr32 list \<times> u64 list) list \<Rightarrow> Req list \<Rightarrow> bool" where
  "phase_trace L cfg s done rest =
     (case bs_phase s of
        Streaming \<Rightarrow> done = [] \<and> rest = []
      | Draining \<Rightarrow> done = [] \<and> rest = [] \<and> bs_todo s = []
      | Appending bs \<Rightarrow> quiet s \<and> rest = [] \<and> done @ bs = all_batches L cfg
      | Joining \<Rightarrow> quiet s \<and> rest = [] \<and> done = all_batches L cfg
      | Closing \<Rightarrow> quiet s \<and> rest = [] \<and> done = all_batches L cfg \<and> bc_chunker cfg = Ok ()
      | Cataloging \<Rightarrow> quiet s \<and> done = all_batches L cfg \<and> bc_chunker cfg = Ok () \<and>
          rest = [close_req L cfg (bc_chunks cfg)]
      | Manifesting \<Rightarrow> quiet s \<and> done = all_batches L cfg \<and> bc_chunker cfg = Ok () \<and>
          (\<exists>cat. list_all is_blob_req cat \<and> rest = close_req L cfg (bc_chunks cfg) # cat)
      | Finishing \<Rightarrow> quiet s \<and> done = all_batches L cfg \<and> bc_chunker cfg = Ok () \<and>
          (\<exists>cat. list_all is_blob_req cat \<and> rest = close_req L cfg (bc_chunks cfg) # cat
             @ [manifest_req L cfg (bc_chunks cfg)])
      | Done st \<Rightarrow> quiet s \<and> done = all_batches L cfg \<and> bc_chunker cfg = Ok () \<and>
          st = backup_stats L s \<and>
          (\<exists>cat. list_all is_blob_req cat \<and> rest = close_req L cfg (bc_chunks cfg) # cat
             @ [manifest_req L cfg (bc_chunks cfg), Finish])
      | Failed e \<Rightarrow> Finish \<notin> set rest)"

definition sent_inv :: "libs \<Rightarrow> bcfg \<Rightarrow> (Req \<times> response) list \<Rightarrow> 's bstate \<Rightarrow> bool" where
  "sent_inv L cfg log s =
     (\<exists>ups done rest. map fst log = ups @ map (append_req cfg) done @ rest \<and>
        list_all is_chunk_req ups \<and> phase_trace L cfg s done rest)"

text \<open>Acknowledgements: while the run has not failed, every request so far was acknowledged,
  unless the failure of an upload is waiting to be joined.\<close>

definition ack_inv :: "(Req \<times> response) list \<Rightarrow> 's bstate \<Rightarrow> bool" where
  "ack_inv log s = (list_all acked log \<or> pending_failure s)"

definition running_inv :: "libs \<Rightarrow> bcfg \<Rightarrow> (Req \<times> response) list \<Rightarrow> 's bstate \<Rightarrow> bool" where
  "running_inv L cfg log0 s =
     (\<exists>rcv log. c_log (bs_conn s) = log0 @ log \<and> base_inv L cfg rcv s \<and>
        upload_inv L cfg log rcv s \<and> sent_inv L cfg log s \<and> ack_inv log s)"

text \<open>A run in which the commit request itself was refused has the trace of a complete one.\<close>

definition refused_commit :: "libs \<Rightarrow> bcfg \<Rightarrow> (Req \<times> response) list \<Rightarrow> 's bstate \<Rightarrow> bool" where
  "refused_commit L cfg log0 s =
     (\<exists>(s0 :: 's bstate) r. running_inv L cfg log0 s0 \<and> bs_phase s0 = Finishing \<and>
        c_log (bs_conn s) = c_log (bs_conn s0) @ [(Finish, r)] \<and> (\<exists>e. bs_phase s = Failed e))"

definition backup_inv :: "libs \<Rightarrow> bcfg \<Rightarrow> (Req \<times> response) list \<Rightarrow> 's bstate \<Rightarrow> bool" where
  "backup_inv L cfg log0 s = (running_inv L cfg log0 s \<or> refused_commit L cfg log0 s)"


section \<open>Every step keeps it\<close>

lemma running_init: "running_inv L cfg (c_log c) (init_state cfg c)"
  unfolding running_inv_def
  by (rule exI [of _ "[]"], rule exI [of _ "[]"])
     (simp add: init_state_def base_inv_def upload_inv_def sent_inv_def ack_inv_def
      phase_trace_def dynamic_new_def chunk_entries_def)

lemma receive_keeps:
  assumes "running_inv L cfg log0 s" "bs_phase s = Streaming" "bs_todo s = data # rest"
    and "receive_chunk L cfg data rest s = Some s'"
  shows "running_inv L cfg log0 s'"
proof -
  from assms(1) obtain rcv log where
    log: "c_log (bs_conn s) = log0 @ log" and base: "base_inv L cfg rcv s"
    and up: "upload_inv L cfg log rcv s" and sent: "sent_inv L cfg log s" and ack: "ack_inv log s"
    by (auto simp: running_inv_def)
  have keep: "bs_conn s' = bs_conn s" "bs_phase s' = bs_phase s" "bs_finished s' = bs_finished s"
    using assms(4) by (auto simp: receive_chunk_def record_chunk_def Let_def split: if_splits)
  have "base_inv L cfg (rcv @ [data]) s'"
    using base assms(3,4)
    by (auto simp: receive_chunk_def record_chunk_def base_inv_def Let_def known_chunk_def
        dynamic_push_def starts_snoc chunk_entries_snoc split: if_splits)
  moreover have "upload_inv L cfg log (rcv @ [data]) s'"
  proof -
    have "bs_inflight s' = bs_inflight s \<and> known_chunk L cfg data \<or>
        (\<exists>k. bs_inflight s' = bs_inflight s @ [(k, digest_of L (bc_crypt cfg) data, data)])"
      using assms(4)
      by (auto simp: receive_chunk_def record_chunk_def Let_def known_chunk_def split: if_splits)
    moreover have "pending_failure s' = pending_failure s"
      using keep by (simp add: pending_failure_def)
    ultimately show ?thesis
      using up by (fastforce simp: upload_inv_def)
  qed
  moreover have "sent_inv L cfg log s'"
    using sent keep assms(2) by (auto simp: sent_inv_def phase_trace_def)
  moreover have "ack_inv log s'"
    using ack keep by (simp add: ack_inv_def pending_failure_def)
  ultimately show ?thesis
    using log keep by (auto simp: running_inv_def)
qed

lemma reap_keeps:
  assumes "running_inv L cfg log0 s" "bs_phase s = Streaming \<or> bs_phase s = Draining"
    and "reap s = Some s'"
  shows "running_inv L cfg log0 s'"
proof -
  from assms(1) obtain rcv log where
    log: "c_log (bs_conn s) = log0 @ log" and base: "base_inv L cfg rcv s"
    and up: "upload_inv L cfg log rcv s" and sent: "sent_inv L cfg log s" and ack: "ack_inv log s"
    by (auto simp: running_inv_def)
  from assms(3) obtain r fs where f: "bs_finished s = r # fs"
    and s': "s' = (case r of Inl e \<Rightarrow> s \<lparr> bs_finished := fs, bs_phase := Failed e \<rparr>
                   | Inr _ \<Rightarrow> s \<lparr> bs_finished := fs \<rparr>)"
    by (auto simp: reap_def split: list.splits sum.splits)
  have pf: "pending_failure s' = pending_failure s"
    using f s' assms(2) by (cases r) (auto simp: pending_failure_def)
  have "base_inv L cfg rcv s'"
    using base s' by (cases r) (auto simp: base_inv_def)
  moreover have "upload_inv L cfg log rcv s'"
    using up s' pf by (cases r) (auto simp: upload_inv_def)
  moreover have "sent_inv L cfg log s'"
  proof -
    obtain ups where u: "map fst log = ups" "list_all is_chunk_req ups"
      and "phase_trace L cfg s [] []"
      using sent assms(2) by (auto simp: sent_inv_def phase_trace_def)
    then have "phase_trace L cfg s' [] []"
      using s' assms(2) by (cases r) (auto simp: phase_trace_def)
    then show ?thesis
      unfolding sent_inv_def using u by (intro exI [of _ ups] exI [of _ "[]"]) simp
  qed
  moreover have "ack_inv log s'"
    using ack pf by (simp add: ack_inv_def)
  moreover have "bs_conn s' = bs_conn s"
    using s' by (cases r) auto
  ultimately show ?thesis
    using log by (auto simp: running_inv_def)
qed

lemma set_remove_nth:
  assumes "i < length xs"
  shows "set xs = insert (xs ! i) (set (remove_nth i xs))"
proof -
  have "xs = take i xs @ xs ! i # drop (Suc i) xs"
    using assms by (rule id_take_nth_drop)
  then have "set xs = set (take i xs @ xs ! i # drop (Suc i) xs)"
    by simp
  then show ?thesis
    by (auto simp: remove_nth_def)
qed

lemma run_keeps:
  assumes "running_inv L cfg log0 s" "bs_phase s = Streaming \<or> bs_phase s = Draining"
    and "run_upload L sv cfg i s = Some s'"
  shows "running_inv L cfg log0 s'"
proof -
  from assms(1) obtain rcv log where
    log: "c_log (bs_conn s) = log0 @ log" and base: "base_inv L cfg rcv s"
    and up: "upload_inv L cfg log rcv s" and sent: "sent_inv L cfg log s" and ack: "ack_inv log s"
    by (auto simp: running_inv_def)
  from assms(3) obtain k d data where i: "i < length (bs_inflight s)"
    and t: "bs_inflight s ! i = (k, d, data)"
    by (cases "bs_inflight s ! i") (auto simp: run_upload_def split: if_splits)
  have ins: "set (bs_inflight s) = insert (k, d, data) (set (remove_nth i (bs_inflight s)))"
    using set_remove_nth [OF i] t by simp
  have d: "d = digest_of L (bc_crypt cfg) data"
    using up ins by (auto simp: upload_inv_def)
  show ?thesis
  proof (cases "encode_chunk L (bc_crypt cfg) (bc_compress cfg) (bc_rnd cfg k) data")
    case (Inl e)
    then have s': "s' = s \<lparr> bs_inflight := remove_nth i (bs_inflight s),
        bs_finished := bs_finished s @ [Err e] \<rparr>"
      using assms(3) i t by (simp add: run_upload_def Let_def)
    then have "base_inv L cfg rcv s'" "upload_inv L cfg log rcv s'" "ack_inv log s'"
      using base up ins by (auto simp: base_inv_def upload_inv_def ack_inv_def pending_failure_def)
    moreover have "sent_inv L cfg log s'"
      using sent s' assms(2) by (auto simp: sent_inv_def phase_trace_def)
    ultimately show ?thesis
      using log s' by (auto simp: running_inv_def)
  next
    case (Inr enc)
    define req where "req = DynamicChunk (bc_wid cfg) d (of_nat (length data)) enc"
    define x where "x = (req, snd (sv (c_srv (bs_conn s)) req))"
    define rc where "rc = commit_op L sv req (bs_conn s)"
    have s': "s' = s \<lparr> bs_inflight := remove_nth i (bs_inflight s),
        bs_stored := bs_stored s + of_nat (length enc), bs_conn := snd rc,
        bs_finished := bs_finished s @ [fst rc] \<rparr>"
      using assms(3) i t Inr
      by (simp add: run_upload_def Let_def case_prod_beta op_defs rc_def req_def)
    have log': "c_log (bs_conn s') = log0 @ log @ [x]"
      using log s' by (simp add: rc_def x_def)
    have ok: "fst rc = Ok () \<longleftrightarrow> acked x"
      using commit_op_acked unfolding rc_def x_def by blast
    have upl: "upload_of L cfg data (fst x)"
      using Inr d by (auto simp: upload_of_def x_def req_def)
    have bad: "pending_failure s'" if na: "\<not> acked x"
    proof -
      obtain e where "fst rc = Err e"
        using na ok by (cases "fst rc") auto
      then show ?thesis
        using s' by (auto simp: pending_failure_def)
    qed
    have mono: "pending_failure s \<Longrightarrow> pending_failure s'"
      using s' assms(2) by (auto simp: pending_failure_def)
    have "base_inv L cfg rcv s'"
      using base s' by (simp add: base_inv_def)
    moreover have "upload_inv L cfg (log @ [x]) rcv s'"
    proof -
      have "known_chunk L cfg c \<or> c \<in> (snd \<circ> snd) ` set (remove_nth i (bs_inflight s)) \<or>
          (\<exists>y \<in> set (log @ [x]). upload_of L cfg c (fst y) \<and> acked y) \<or> pending_failure s'"
        if "c \<in> set rcv" for c
      proof (cases "acked x")
        case True
        then show ?thesis
          using up that upl ins mono by (auto simp: upload_inv_def)
      qed (use bad in simp)
      moreover have "\<forall>(k, d, data) \<in> set (remove_nth i (bs_inflight s)).
          d = digest_of L (bc_crypt cfg) data"
        using up ins by (auto simp: upload_inv_def)
      ultimately show ?thesis
        using s' by (simp add: upload_inv_def)
    qed
    moreover have "ack_inv (log @ [x]) s'"
      using ack mono bad by (auto simp: ack_inv_def)
    moreover have "sent_inv L cfg (log @ [x]) s'"
    proof -
      obtain ups where u: "map fst log = ups" "list_all is_chunk_req ups"
        and "phase_trace L cfg s [] []"
        using sent assms(2) by (auto simp: sent_inv_def phase_trace_def)
      then have "phase_trace L cfg s' [] []"
        using s' assms(2) by (auto simp: phase_trace_def)
      then show ?thesis
        unfolding sent_inv_def using u
        by (intro exI [of _ "ups @ [req]"] exI [of _ "[]"]) (simp add: x_def req_def)
    qed
    ultimately show ?thesis
      unfolding running_inv_def using log' by blast
  qed
qed

text \<open>Once the stream is drained, all chunks have been received.\<close>

lemma all_received:
  assumes "base_inv L cfg rcv s" "bs_todo s = []"
  shows "rcv = bc_chunks cfg"
    and "index_batches (bs_digests s) (bs_offsets s) = all_batches L cfg"
    and "db_entries (bs_builder s) = chunk_entries L (bc_crypt cfg) (bc_chunks cfg)"
  using assms by (auto simp: base_inv_def all_batches_def)

lemma drain_keeps:
  assumes "running_inv L cfg log0 s" "bs_phase s = Draining" "main_drain s = Some s'"
  shows "running_inv L cfg log0 s'"
proof (cases "bs_finished s = []")
  case False
  then show ?thesis
    using assms reap_keeps [of L cfg log0 s s'] by (simp add: main_drain_def)
next
  case True
  then have fl: "bs_inflight s = []"
    and s': "s' = s \<lparr> bs_phase := Appending (index_batches (bs_digests s) (bs_offsets s)) \<rparr>"
    using assms(3) by (auto simp: main_drain_def split: if_splits)
  from assms(1) obtain rcv log where
    log: "c_log (bs_conn s) = log0 @ log" and base: "base_inv L cfg rcv s"
    and up: "upload_inv L cfg log rcv s" and sent: "sent_inv L cfg log s" and ack: "ack_inv log s"
    by (auto simp: running_inv_def)
  obtain ups where u: "map fst log = ups" "list_all is_chunk_req ups" and td: "bs_todo s = []"
    using sent assms(2) by (auto simp: sent_inv_def phase_trace_def)
  have pf: "pending_failure s' = pending_failure s" "\<not> pending_failure s"
    using True assms(2) s' by (auto simp: pending_failure_def)
  have "base_inv L cfg rcv s'" "upload_inv L cfg log rcv s'" "ack_inv log s'"
    using base up ack s' pf by (auto simp: base_inv_def upload_inv_def ack_inv_def)
  moreover have "sent_inv L cfg log s'"
    unfolding sent_inv_def using u td fl True s' all_received(2) [OF base td]
    by (intro exI [of _ ups] exI [of _ "[]"]) (simp add: phase_trace_def quiet_def)
  ultimately show ?thesis
    unfolding running_inv_def using log s' by auto
qed

text \<open>A step of the main task after the drain: it keeps the bookkeeping, extends the log by what
  it sent, and moves to a phase whose trace is the extended one.\<close>

lemma quiet_step:
  assumes "running_inv L cfg log0 s" "quiet s" "\<not> pending_failure s"
    and "c_log (bs_conn s') = c_log (bs_conn s) @ xs"
    and "\<And>ups done rest. phase_trace L cfg s done rest \<Longrightarrow>
      \<exists>more rest'. map fst xs = map (append_req cfg) more @ drop (length rest) rest' \<and>
        (more \<noteq> [] \<longrightarrow> rest = []) \<and> take (length rest) rest' = rest \<and>
        phase_trace L cfg s' (done @ more) rest'"
    and "bs_todo s' = bs_todo s" "bs_inflight s' = bs_inflight s"
    and "bs_finished s' = bs_finished s" "bs_builder s' = bs_builder s"
    and "bs_digests s' = bs_digests s" "bs_offsets s' = bs_offsets s" "bs_end s' = bs_end s"
    and "bs_chunks s' = bs_chunks s" "bs_reused s' = bs_reused s"
    and "bs_uploaded s' = bs_uploaded s" "bs_uploaded_bytes s' = bs_uploaded_bytes s"
    and "list_all acked xs \<or> pending_failure s'"
  shows "running_inv L cfg log0 s'"
proof -
  from assms(1) obtain rcv log where
    log: "c_log (bs_conn s) = log0 @ log" and base: "base_inv L cfg rcv s"
    and up: "upload_inv L cfg log rcv s" and sent: "sent_inv L cfg log s" and ack: "ack_inv log s"
    by (auto simp: running_inv_def)
  have "base_inv L cfg rcv s'"
    using base assms(6-16) by (simp add: base_inv_def)
  moreover have "upload_inv L cfg (log @ xs) rcv s'"
    using up assms(2,3,7) by (auto simp: upload_inv_def quiet_def)
  moreover have "ack_inv (log @ xs) s'"
    using ack assms(3,17) by (auto simp: ack_inv_def)
  moreover have "sent_inv L cfg (log @ xs) s'"
  proof -
    obtain ups dn rest where u: "map fst log = ups @ map (append_req cfg) dn @ rest"
      "list_all is_chunk_req ups" "phase_trace L cfg s dn rest"
      using sent by (auto simp: sent_inv_def)
    obtain mr rest' where m: "map fst xs = map (append_req cfg) mr @ drop (length rest) rest'"
      "mr \<noteq> [] \<longrightarrow> rest = []" "take (length rest) rest' = rest"
      "phase_trace L cfg s' (dn @ mr) rest'"
      using assms(5) [OF u(3)] by blast
    have "rest @ map (append_req cfg) mr @ drop (length rest) rest' = map (append_req cfg) mr @ rest'"
      using m(2,3) by (cases "mr = []") (metis append_Nil append_take_drop_id list.simps(8), simp)
    then have "map fst (log @ xs) = ups @ map (append_req cfg) (dn @ mr) @ rest'"
      using u(1) m(1) by simp
    then show ?thesis
      unfolding sent_inv_def using u(2) m(4) by blast
  qed
  ultimately show ?thesis
    unfolding running_inv_def using log assms(4) by (metis append_assoc)
qed

lemma phase_quiet:
  assumes "running_inv L cfg log0 s"
    and "bs_phase s \<noteq> Streaming" "bs_phase s \<noteq> Draining" "\<forall>e. bs_phase s \<noteq> Failed e"
  shows "quiet s" "\<not> pending_failure s"
    and "db_entries (bs_builder s) = chunk_entries L (bc_crypt cfg) (bc_chunks cfg)"
proof -
  from assms(1) obtain rcv log ups dn rest where b: "base_inv L cfg rcv s"
    and "phase_trace L cfg s dn rest"
    by (auto simp: running_inv_def sent_inv_def)
  with assms show q: "quiet s"
    by (auto simp: phase_trace_def split: Phase.splits)
  then show "\<not> pending_failure s"
    using assms(4) by (simp add: quiet_def pending_failure_def)
  show "db_entries (bs_builder s) = chunk_entries L (bc_crypt cfg) (bc_chunks cfg)"
    using all_received(3) [OF b] q by (simp add: quiet_def)
qed

lemma after_commit:
  assumes "s' = after_op (commit_op L sv req (bs_conn s)) ph s"
  obtains x where "c_log (bs_conn s') = c_log (bs_conn s) @ [x]" "fst x = req"
    "acked x \<and> bs_phase s' = ph \<or> (\<exists>e. bs_phase s' = Failed e)"
proof -
  let ?x = "(req, snd (sv (c_srv (bs_conn s)) req))"
  have "acked ?x \<and> bs_phase s' = ph \<or> (\<exists>e. bs_phase s' = Failed e)"
    using commit_op_acked [of L sv req "bs_conn s"] assms
    by (cases "fst (commit_op L sv req (bs_conn s))") (auto simp: after_op_def)
  then show ?thesis
    using assms by (intro that [of ?x]) (simp_all add: after_op_def)
qed

lemma after_op_fields [simp]:
  "bs_todo (after_op rc ph s) = bs_todo s" "bs_inflight (after_op rc ph s) = bs_inflight s"
  "bs_finished (after_op rc ph s) = bs_finished s" "bs_builder (after_op rc ph s) = bs_builder s"
  "bs_digests (after_op rc ph s) = bs_digests s" "bs_offsets (after_op rc ph s) = bs_offsets s"
  "bs_end (after_op rc ph s) = bs_end s" "bs_chunks (after_op rc ph s) = bs_chunks s"
  "bs_reused (after_op rc ph s) = bs_reused s" "bs_uploaded (after_op rc ph s) = bs_uploaded s"
  "bs_uploaded_bytes (after_op rc ph s) = bs_uploaded_bytes s"
  "bs_stored (after_op rc ph s) = bs_stored s"
  "quiet (after_op rc ph s) = quiet s"
  by (simp_all add: after_op_def quiet_def)

text \<open>A committing request of the main task in a quiet phase that extends the tail of the trace.\<close>

lemma quiet_commit:
  assumes "running_inv L cfg log0 s" "quiet s" "\<not> pending_failure s"
    and "s' = after_op (commit_op L sv req (bs_conn s)) ph s" "req \<noteq> Finish"
    and "\<And>dn rest. phase_trace L cfg s dn rest \<Longrightarrow> Finish \<notin> set rest"
    and "\<And>dn rest. phase_trace L cfg s dn rest \<Longrightarrow> bs_phase s' = ph \<Longrightarrow> quiet s' \<Longrightarrow>
      phase_trace L cfg s' dn (rest @ [req])"
  shows "running_inv L cfg log0 s'"
proof -
  obtain x where x: "c_log (bs_conn s') = c_log (bs_conn s) @ [x]" "fst x = req"
    and ph: "acked x \<and> bs_phase s' = ph \<or> (\<exists>e. bs_phase s' = Failed e)"
    using after_commit [OF assms(4)] by blast
  show ?thesis
  proof (rule quiet_step [OF assms(1-3) x(1)])
    fix dn rest assume p: "phase_trace L cfg s dn rest"
    have "phase_trace L cfg s' dn (rest @ [req])"
    proof (cases "bs_phase s' = ph")
      case True
      moreover have "quiet s'"
        using assms(2,4) by simp
      ultimately show ?thesis
        using assms(7) [OF p] by blast
    next
      case False
      then obtain e where "bs_phase s' = Failed e"
        using ph by blast
      then show ?thesis
        using assms(5) assms(6) [OF p] by (simp add: phase_trace_def)
    qed
    then show "\<exists>more rest'. map fst [x] = map (append_req cfg) more @ drop (length rest) rest' \<and>
        (more \<noteq> [] \<longrightarrow> rest = []) \<and> take (length rest) rest' = rest \<and>
        phase_trace L cfg s' (dn @ more) rest'"
      using x(2) by (intro exI [of _ "[]"] exI [of _ "rest @ [req]"]) simp
  qed (use assms(4) ph in \<open>auto simp: pending_failure_def\<close>)
qed

lemma append_keeps:
  assumes "running_inv L cfg log0 s" "bs_phase s = Appending bs"
  shows "running_inv L cfg log0 (main_append L sv cfg bs s)"
proof -
  let ?s' = "main_append L sv cfg bs s"
  have q: "quiet s" "\<not> pending_failure s"
    using phase_quiet [OF assms(1)] assms(2) by simp_all
  show ?thesis
  proof (cases bs)
    case Nil
    show ?thesis
    proof (rule quiet_step [OF assms(1) q])
      show "c_log (bs_conn ?s') = c_log (bs_conn s) @ []"
        using Nil by (simp add: main_append_def)
    next
      fix dn rest assume "phase_trace L cfg s dn rest"
      then have "phase_trace L cfg ?s' dn rest"
        using assms(2) Nil by (simp add: phase_trace_def main_append_def quiet_def)
      then show "\<exists>more rest'. map fst [] = map (append_req cfg) more @ drop (length rest) rest' \<and>
          (more \<noteq> [] \<longrightarrow> rest = []) \<and> take (length rest) rest' = rest \<and>
          phase_trace L cfg ?s' (dn @ more) rest'"
        by (intro exI [of _ "[]"] exI [of _ rest]) simp
    qed (use Nil in \<open>auto simp: main_append_def\<close>)
  next
    case (Cons b rest0)
    have s': "?s' = after_op (commit_op L sv (append_req cfg b) (bs_conn s)) (Appending rest0) s"
      using Cons by (cases b) (simp add: main_append_def op_defs append_req_def)
    obtain x where x: "c_log (bs_conn ?s') = c_log (bs_conn s) @ [x]" "fst x = append_req cfg b"
      and ph: "acked x \<and> bs_phase ?s' = Appending rest0 \<or> (\<exists>e. bs_phase ?s' = Failed e)"
      using after_commit [OF s'] by blast
    show ?thesis
    proof (rule quiet_step [OF assms(1) q x(1)])
      fix dn rest assume p: "phase_trace L cfg s dn rest"
      then have "phase_trace L cfg ?s' (dn @ [b]) rest" "rest = []"
        using assms(2) Cons ph s' by (auto simp: phase_trace_def)
      then show "\<exists>more rest'. map fst [x] = map (append_req cfg) more @ drop (length rest) rest' \<and>
          (more \<noteq> [] \<longrightarrow> rest = []) \<and> take (length rest) rest' = rest \<and>
          phase_trace L cfg ?s' (dn @ more) rest'"
        using x(2) by (intro exI [of _ "[b]"] exI [of _ rest]) simp
    qed (use ph s' in \<open>auto simp: pending_failure_def\<close>)
  qed
qed

text \<open>Steps that only change the phase.\<close>

lemma quiet_phase_change:
  assumes "running_inv L cfg log0 s" "quiet s" "\<not> pending_failure s"
    and "\<And>dn rest. phase_trace L cfg s dn rest \<Longrightarrow>
      phase_trace L cfg (s \<lparr> bs_phase := ph \<rparr>) dn rest"
  shows "running_inv L cfg log0 (s \<lparr> bs_phase := ph \<rparr>)"
proof (rule quiet_step [OF assms(1-3), where xs = "[]"])
  fix dn rest assume "phase_trace L cfg s dn rest"
  from assms(4) [OF this]
  show "\<exists>more rest'. map fst [] = map (append_req cfg) more @ drop (length rest) rest' \<and>
      (more \<noteq> [] \<longrightarrow> rest = []) \<and> take (length rest) rest' = rest \<and>
      phase_trace L cfg (s \<lparr> bs_phase := ph \<rparr>) (dn @ more) rest'"
    by (intro exI [of _ "[]"] exI [of _ rest]) simp
qed simp_all

lemma join_keeps:
  assumes "running_inv L cfg log0 s" "bs_phase s = Joining"
  shows "running_inv L cfg log0 (main_join cfg s)"
  unfolding main_join_def
proof (rule quiet_phase_change [OF assms(1)])
  fix dn rest assume "phase_trace L cfg s dn rest"
  then show "phase_trace L cfg (s \<lparr> bs_phase := case bc_chunker cfg of Inl e \<Rightarrow> Failed (Io e)
      | Inr _ \<Rightarrow> Closing \<rparr>) dn rest"
    using assms(2) by (auto simp: phase_trace_def quiet_def split: sum.splits)
qed (use phase_quiet [OF assms(1)] assms(2) in simp_all)

lemma close_keeps:
  assumes "running_inv L cfg log0 s" "bs_phase s = Closing"
  shows "running_inv L cfg log0 (main_close L sv cfg s)"
proof -
  have q: "quiet s" "\<not> pending_failure s"
    and e: "db_entries (bs_builder s) = chunk_entries L (bc_crypt cfg) (bc_chunks cfg)"
    using phase_quiet [OF assms(1)] assms(2) by simp_all
  have "main_close L sv cfg s =
      after_op (commit_op L sv (close_req L cfg (bc_chunks cfg)) (bs_conn s)) Cataloging s"
    by (simp add: main_close_def op_defs close_req_def entry_count_def dynamic_total_size_def e
        entries_size_chunks)
  then show ?thesis
    by (rule quiet_commit [OF assms(1) q])
       (use assms(2) in \<open>auto simp: close_req_def phase_trace_def\<close>)
qed

lemma no_finish_in_blobs: "list_all is_blob_req cat \<Longrightarrow> Finish \<notin> set cat"
  by (induction cat) auto

lemma catalog_keeps:
  assumes "running_inv L cfg log0 s" "bs_phase s = Cataloging"
  shows "running_inv L cfg log0 (main_catalog L sv cfg s)"
proof -
  have q: "quiet s" "\<not> pending_failure s"
    using phase_quiet [OF assms(1)] assms(2) by simp_all
  have nf: "Finish \<notin> set rest" if "phase_trace L cfg s dn rest" for dn rest
    using that assms(2) by (auto simp: phase_trace_def close_req_def)
  have skip: "running_inv L cfg log0 (s \<lparr> bs_phase := Manifesting \<rparr>)"
    by (rule quiet_phase_change [OF assms(1) q])
       (use assms(2) in \<open>auto simp: phase_trace_def quiet_def\<close>)
  show ?thesis
  proof (cases "\<exists>name content. bc_catalog cfg = Some (Some (name, content))")
    case True
    then obtain name content where c: "bc_catalog cfg = Some (Some (name, content))"
      by blast
    show ?thesis
    proof (cases "encode_chunk L (bc_crypt cfg) (bc_compress cfg)
        (bc_rnd cfg (length (bc_chunks cfg))) content")
      case (Inl e)
      have "running_inv L cfg log0 (s \<lparr> bs_phase := Failed e \<rparr>)"
        by (rule quiet_phase_change [OF assms(1) q]) (use nf in \<open>auto simp: phase_trace_def\<close>)
      then show ?thesis
        using c Inl by (simp add: main_catalog_def)
    next
      case (Inr blob)
      then have "main_catalog L sv cfg s =
          after_op (commit_op L sv (UploadBlob name blob) (bs_conn s)) Manifesting s"
        using c by (simp add: main_catalog_def op_defs)
      then show ?thesis
        by (rule quiet_commit [OF assms(1) q])
           (use nf assms(2) in \<open>auto simp: phase_trace_def\<close>)
    qed
  next
    case False
    then have "main_catalog L sv cfg s = s \<lparr> bs_phase := Manifesting \<rparr>"
      by (auto simp: main_catalog_def split: option.splits)
    then show ?thesis
      using skip by simp
  qed
qed

lemma manifest_keeps:
  assumes "running_inv L cfg log0 s" "bs_phase s = Manifesting"
  shows "running_inv L cfg log0 (main_manifest L sv cfg s)"
proof -
  have q: "quiet s" "\<not> pending_failure s"
    and e: "db_entries (bs_builder s) = chunk_entries L (bc_crypt cfg) (bc_chunks cfg)"
    using phase_quiet [OF assms(1)] assms(2) by simp_all
  have "main_manifest L sv cfg s =
      after_op (commit_op L sv (manifest_req L cfg (bc_chunks cfg)) (bs_conn s)) Finishing s"
    by (simp add: main_manifest_def op_defs manifest_req_def dynamic_total_size_def e
        entries_size_chunks)
  then show ?thesis
  proof (rule quiet_commit [OF assms(1) q])
    fix dn rest assume "phase_trace L cfg s dn rest"
    then show "Finish \<notin> set rest"
      using assms(2) no_finish_in_blobs by (auto simp: phase_trace_def close_req_def)
  qed (use assms(2) in \<open>auto simp: phase_trace_def manifest_req_def\<close>)
qed

lemma finish_keeps:
  assumes "running_inv L cfg log0 s" "bs_phase s = Finishing"
  shows "backup_inv L cfg log0 (main_finish L sv s)"
proof -
  let ?s' = "main_finish L sv s"
  have q: "quiet s" "\<not> pending_failure s"
    using phase_quiet [OF assms(1)] assms(2) by simp_all
  have s': "?s' = after_op (commit_op L sv Finish (bs_conn s)) (Done (backup_stats L s)) s"
    by (simp add: main_finish_def op_defs)
  obtain x where x: "c_log (bs_conn ?s') = c_log (bs_conn s) @ [x]" "fst x = Finish"
    and ph: "acked x \<and> bs_phase ?s' = Done (backup_stats L s) \<or> (\<exists>e. bs_phase ?s' = Failed e)"
    using after_commit [OF s'] by blast
  show ?thesis
  proof (cases "\<exists>e. bs_phase ?s' = Failed e")
    case True
    then have "refused_commit L cfg log0 ?s'"
      unfolding refused_commit_def using assms x
      by (intro exI [of _ s] exI [of _ "snd x"]) (metis prod.collapse)
    then show ?thesis
      by (simp add: backup_inv_def)
  next
    case False
    then have done_ph: "acked x" "bs_phase ?s' = Done (backup_stats L s)"
      using ph by auto
    have st: "backup_stats L ?s' = backup_stats L s"
      by (simp add: backup_stats_def s')
    have "running_inv L cfg log0 ?s'"
    proof (rule quiet_step [OF assms(1) q x(1)])
      fix dn rest assume "phase_trace L cfg s dn rest"
      then have "phase_trace L cfg ?s' dn (rest @ [Finish])"
        using assms(2) done_ph st s' by (auto simp: phase_trace_def)
      then show "\<exists>more rest'. map fst [x] = map (append_req cfg) more @ drop (length rest) rest' \<and>
          (more \<noteq> [] \<longrightarrow> rest = []) \<and> take (length rest) rest' = rest \<and>
          phase_trace L cfg ?s' (dn @ more) rest'"
        using x(2) by (intro exI [of _ "[]"] exI [of _ "rest @ [Finish]"]) simp
    qed (use done_ph s' in auto)
    then show ?thesis
      by (simp add: backup_inv_def)
  qed
qed

lemma step_keeps:
  assumes "backup_inv L cfg log0 s" "backup_rel L sv cfg s l s'"
  shows "backup_inv L cfg log0 s'"
proof -
  have st: "backup_step L sv cfg s l = Some s'"
    using assms(2) by (simp add: backup_rel_def)
  have "running_inv L cfg log0 s"
    using assms(1) st
    by (auto simp: backup_inv_def refused_commit_def backup_step_def main_step_def
        split: BLabel.splits)
  note run = this
  show ?thesis
  proof (cases l)
    case Main
    then have m: "main_step L sv cfg s = Some s'"
      using st by (simp add: backup_step_def)
    show ?thesis
    proof (cases "bs_phase s")
      case Streaming
      then have ms: "main_stream L cfg s = Some s'"
        using m by (simp add: main_step_def)
      show ?thesis
      proof (cases "bs_todo s")
        case Nil
        then have "s' = s \<lparr> bs_phase := Draining \<rparr>"
          using ms by (simp add: main_stream_def)
        moreover have "running_inv L cfg log0 (s \<lparr> bs_phase := Draining \<rparr>)"
          using run Nil Streaming
          by (auto simp: running_inv_def base_inv_def upload_inv_def sent_inv_def ack_inv_def
              phase_trace_def pending_failure_def)
        ultimately show ?thesis
          by (simp add: backup_inv_def)
      next
        case (Cons data rest)
        then have "receive_chunk L cfg data rest s = Some s'"
          using ms by (simp add: main_stream_def)
        from receive_keeps [OF run Streaming Cons this] show ?thesis
          by (simp add: backup_inv_def)
      qed
    qed (use m run finish_keeps [OF run, of sv] in \<open>auto simp: main_step_def backup_inv_def intro: drain_keeps append_keeps
        join_keeps close_keeps catalog_keeps manifest_keeps\<close>)
  next
    case (Run i)
    then show ?thesis
      using st run_keeps [OF run] by (auto simp: backup_step_def backup_inv_def split: if_splits)
  next
    case Reap
    then show ?thesis
      using st reap_keeps [OF run] by (auto simp: backup_step_def backup_inv_def split: if_splits)
  qed
qed

interpretation backup_run: inductive_invariant "\<lambda>s. s = init_state cfg c" "backup_rel L sv cfg"
  "backup_inv L cfg (c_log c)" for L sv cfg c
proof (unfold_locales, goal_cases)
  case (1 s)
  then show ?case
    by (simp add: backup_inv_def running_init)
next
  case (2 s l s')
  then show ?case
    by (rule step_keeps)
qed

end
