(* ===== verification/Snapshot.thy ===== *)
theory Snapshot
  imports Commit
begin

text \<open>What the backup session promises, read off the invariant of \<^theory_text>\<open>Commit\<close>: a
  snapshot is committed only when it is complete, every run ends, and the statistics account for
  every byte.\<close>


section \<open>Complete runs\<close>

lemma chunk_reqs_no_finish: "list_all is_chunk_req ups \<Longrightarrow> Finish \<notin> set ups"
  by (induction ups) auto

lemma stored_chunks:
  assumes "upload_inv L cfg log rcv s" "quiet s" "\<not> pending_failure s" "ch \<in> set rcv"
  shows "known_chunk L cfg ch \<or> (\<exists>x \<in> set log. upload_of L cfg ch (fst x) \<and> acked x)"
  using assms by (fastforce simp: upload_inv_def quiet_def)

definition complete_trace :: "libs \<Rightarrow> bcfg \<Rightarrow> Req list \<Rightarrow> Req list \<Rightarrow> bool" where
  "complete_trace L cfg reqs tail =
     (\<exists>ups cat. reqs = ups @ map (append_req cfg) (all_batches L cfg)
          @ [close_req L cfg (bc_chunks cfg)] @ cat @ [manifest_req L cfg (bc_chunks cfg)] @ tail \<and>
        list_all is_chunk_req ups \<and> list_all is_blob_req cat)"

lemma late_phase:
  assumes "running_inv L cfg log0 s" "c_log (bs_conn s) = log0 @ log"
    and "bs_phase s = Finishing \<and> tail = [] \<or> bs_phase s = Done st \<and> tail = [Finish]"
  shows "bc_chunker cfg = Ok ()" "complete_trace L cfg (map fst log) tail" "list_all acked log"
    and "\<forall>ch \<in> set (bc_chunks cfg). known_chunk L cfg ch \<or>
      (\<exists>x \<in> set log. upload_of L cfg ch (fst x) \<and> acked x)"
proof -
  from assms(1,2) obtain rcv where base: "base_inv L cfg rcv s"
    and up: "upload_inv L cfg log rcv s" and sent: "sent_inv L cfg log s" and ack: "ack_inv log s"
    by (auto simp: running_inv_def)
  have q: "quiet s" "\<not> pending_failure s"
    using phase_quiet [OF assms(1)] assms(3) by auto
  have rcv: "rcv = bc_chunks cfg"
    using all_received(1) [OF base] q by (simp add: quiet_def)
  show "bc_chunker cfg = Ok ()"
    using sent assms(3) by (auto simp: sent_inv_def phase_trace_def)
  obtain ups cat where "list_all is_chunk_req ups" "list_all is_blob_req cat"
    "map fst log = ups @ map (append_req cfg) (all_batches L cfg)
       @ [close_req L cfg (bc_chunks cfg)] @ cat @ [manifest_req L cfg (bc_chunks cfg)] @ tail"
    using sent assms(3) by (auto simp: sent_inv_def phase_trace_def)
  then show "complete_trace L cfg (map fst log) tail"
    unfolding complete_trace_def by blast
  show "list_all acked log"
    using ack q by (simp add: ack_inv_def)
  show "\<forall>ch \<in> set (bc_chunks cfg). known_chunk L cfg ch \<or>
      (\<exists>x \<in> set log. upload_of L cfg ch (fst x) \<and> acked x)"
    using stored_chunks [OF up q] rcv by blast
qed

lemma finish_sent_phase:
  assumes "running_inv L cfg log0 s" "c_log (bs_conn s) = log0 @ log" "Finish \<in> fst ` set log"
  shows "\<exists>st. bs_phase s = Done st"
proof -
  from assms(1,2) obtain ups dn rest where "map fst log = ups @ map (append_req cfg) dn @ rest"
    "list_all is_chunk_req ups" and p: "phase_trace L cfg s dn rest"
    by (auto simp: running_inv_def sent_inv_def)
  moreover have "Finish \<in> set (map fst log)"
    using assms(3) by simp
  ultimately have "Finish \<in> set rest"
    using chunk_reqs_no_finish [of ups] by (simp add: append_req_def image_iff)
  with p show ?thesis
    using no_finish_in_blobs
    by (auto simp: phase_trace_def close_req_def manifest_req_def split: Phase.splits)
qed

lemma all_batches_concat:
  "concat (map fst (all_batches L cfg)) = map (digest_of L (bc_crypt cfg)) (bc_chunks cfg)"
  "concat (map snd (all_batches L cfg)) = starts 0 (bc_chunks cfg)"
  by (simp_all add: all_batches_def index_batches_concat)


section \<open>Progress\<close>

definition phase_rank :: "'s bstate \<Rightarrow> nat" where
  "phase_rank s =
     (case bs_phase s of
        Streaming \<Rightarrow> length (bs_digests s) + 10
      | Draining \<Rightarrow> length (bs_digests s) + 9
      | Appending bs \<Rightarrow> length bs + 8
      | Joining \<Rightarrow> 7 | Closing \<Rightarrow> 6 | Cataloging \<Rightarrow> 5 | Manifesting \<Rightarrow> 4 | Finishing \<Rightarrow> 3
      | Done st \<Rightarrow> 0 | Failed e \<Rightarrow> 0)"

definition work_left :: "'s bstate \<Rightarrow> nat" where
  "work_left s =
     4 * length (bs_todo s) + 2 * length (bs_inflight s) + length (bs_finished s) + phase_rank s"

lemma index_batches_length: "length (index_batches ds os) \<le> length ds"
proof -
  have "(n + 63) div 64 \<le> n" for n :: nat
    by (cases n) auto
  then have "length (chunks APPEND_BATCH ds) \<le> length ds"
    by (simp add: length_chunks APPEND_BATCH_def add.commute)
  then show ?thesis
    by (simp add: index_batches_def)
qed

lemma remove_nth_length: "i < length xs \<Longrightarrow> Suc (length (remove_nth i xs)) = length xs"
  by (simp add: remove_nth_def)

lemmas work_simps = work_left_def phase_rank_def Let_def case_prod_beta

lemma receive_chunk_work:
  assumes "bs_todo s = data # rest" "bs_phase s = Streaming"
    and "receive_chunk L cfg data rest s = Some s'"
  shows "work_left s' < work_left s"
  using assms by (auto simp: receive_chunk_def record_chunk_def work_simps split: if_splits)

lemma reap_work: "reap s = Some s' \<Longrightarrow> work_left s' < work_left s"
  by (auto simp: reap_def work_simps split: list.splits sum.splits Phase.splits)

lemma run_work:
  assumes "run_upload L sv cfg i s = Some s'"
  shows "work_left s' < work_left s"
  using assms remove_nth_length [of i "bs_inflight s"]
  by (auto simp: run_upload_def work_simps split: if_splits prod.splits sum.splits Phase.splits)

lemma after_op_work:
  assumes "phase_rank (s \<lparr> bs_phase := ph \<rparr>) < phase_rank s"
  shows "work_left (after_op rc ph s) < work_left s"
proof (cases "fst rc")
  case (Inl e)
  have "0 < phase_rank s"
    using assms by simp
  with Inl show ?thesis
    by (simp add: after_op_def work_left_def) (simp add: phase_rank_def)
next
  case (Inr u)
  with assms show ?thesis
    by (simp add: after_op_def work_left_def) (simp add: phase_rank_def cong: Phase.case_cong)
qed

lemma set_phase_work:
  "phase_rank (s \<lparr> bs_phase := ph \<rparr>) < phase_rank s \<Longrightarrow> work_left (s \<lparr> bs_phase := ph \<rparr>) < work_left s"
  by (simp add: work_left_def)

lemma main_work:
  assumes "main_step L sv cfg s = Some s'"
  shows "work_left s' < work_left s"
proof (cases "bs_phase s")
  case Streaming
  show ?thesis
  proof (cases "bs_todo s")
    case Nil
    with Streaming assms show ?thesis
      by (auto simp: main_step_def main_stream_def work_simps)
  next
    case (Cons data rest)
    with Streaming assms show ?thesis
      by (auto simp: main_step_def main_stream_def dest: receive_chunk_work)
  qed
next
  case Draining
  with assms index_batches_length [of "bs_digests s" "bs_offsets s"] show ?thesis
    by (auto simp: main_step_def main_drain_def work_simps dest: reap_work split: if_splits)
next
  case (Appending bs)
  with assms show ?thesis
    by (cases bs) (auto simp: main_step_def main_append_def phase_rank_def
        intro!: after_op_work set_phase_work)
next
  case Joining
  with assms show ?thesis
    by (auto simp: main_step_def main_join_def phase_rank_def intro!: set_phase_work
        split: sum.splits)
next
  case Cataloging
  with assms show ?thesis
    by (auto simp: main_step_def main_catalog_def phase_rank_def
        intro!: set_phase_work after_op_work split: sum.splits option.splits)
qed (use assms in \<open>auto simp: main_step_def main_close_def main_manifest_def main_finish_def Let_def
       phase_rank_def intro!: after_op_work\<close>)

lemma step_work:
  "backup_rel L sv cfg s l s' \<Longrightarrow> work_left s' < work_left s"
  by (auto simp: backup_rel_def backup_step_def split: BLabel.splits if_splits
      dest: main_work run_work reap_work)

definition final :: "'s bstate \<Rightarrow> bool" where
  "final s = (case bs_phase s of Done st \<Rightarrow> True | Failed e \<Rightarrow> True | _ \<Rightarrow> False)"

lemma run_possible:
  "bs_inflight s \<noteq> [] \<Longrightarrow> bs_phase s = Streaming \<or> bs_phase s = Draining
     \<Longrightarrow> \<exists>s'. backup_step L sv cfg s (Run 0) = Some s'"
  by (auto simp: backup_step_def run_upload_def Let_def case_prod_beta split: sum.splits)

lemma step_possible:
  assumes "\<not> final s" "0 < bc_width cfg"
  shows "\<exists>l s'. backup_rel L sv cfg s l s'"
proof -
  have "\<exists>s'. backup_step L sv cfg s Main = Some s' \<or> backup_step L sv cfg s (Run 0) = Some s'"
  proof (cases "bs_inflight s")
    case Nil
    with assms show ?thesis
      by (auto simp: final_def backup_step_def main_step_def main_stream_def main_drain_def
          receive_chunk_def reap_def Let_def split: Phase.splits list.splits sum.splits)
  next
    case (Cons x xs)
    then show ?thesis
      using assms run_possible [of s L sv cfg]
      by (cases "bs_phase s") (auto simp: final_def backup_step_def main_step_def)
  qed
  then show ?thesis
    by (auto simp: backup_rel_def)
qed


section \<open>A concrete run\<close>

text \<open>The acknowledging server, three chunks of which the first is known, an upload
  window of two, and a schedule in which the uploads finish out of order.\<close>

definition demo_cfg :: bcfg where
  "demo_cfg =
     \<lparr> bc_params = demo_params, bc_archive = ''a.didx'', bc_compress = True, bc_crypt = None,
       bc_total = 7, bc_chunks = [[1, 2], [3, 4, 5], [6, 6]], bc_chunker = Ok (),
       bc_catalog = Some (Some (''c.blob'', [9])), bc_width = 2, bc_uuid = 3, bc_rnd = (\<lambda>k. Ok 0),
       bc_known = [digest_of demo_libs None [1, 2]], bc_wid = 1 \<rparr>"

definition demo_labels :: "BLabel list" where
  "demo_labels = [Main, Main, Main, Run 1, Reap, Main, Run 0] @ replicate 9 Main"

definition demo_end :: "unit bstate" where
  "demo_end =
     the (run_labels (backup_step demo_libs ack_server demo_cfg) demo_labels
       (init_state demo_cfg \<lparr> c_srv = (), c_log = [] \<rparr>))"

lemma demo_evaluates:
  "case run_labels (backup_step demo_libs ack_server demo_cfg) demo_labels
     (init_state demo_cfg \<lparr> c_srv = (), c_log = [] \<rparr>) of
     None \<Rightarrow> False
   | Some s \<Rightarrow> Finish \<in> fst ` set (c_log (bs_conn s)) \<and>
       (case bs_phase s of Done st \<Rightarrow> True | _ \<Rightarrow> False)"
  by code_simp

lemma demo_runs:
  "run_labels (backup_step demo_libs ack_server demo_cfg) demo_labels
     (init_state demo_cfg \<lparr> c_srv = (), c_log = [] \<rparr>) = Some demo_end"
  using demo_evaluates by (auto simp: demo_end_def split: option.splits)

lemma demo_reachable:
  "reachable (\<lambda>s. s = init_state demo_cfg \<lparr> c_srv = (), c_log = [] \<rparr>)
     (backup_rel demo_libs ack_server demo_cfg) demo_end"
  using run_labels_reachable [OF demo_runs reach_init] by (simp add: backup_rel_def [abs_def])

lemma demo_done: "\<exists>st. bs_phase demo_end = Done st"
  using demo_evaluates by (simp add: demo_runs split: Phase.splits)

section \<open>Properties\<close>

text \<open>C1: A snapshot is committed only when it is complete. In every run of the concurrent backup,
  against any server, in any interleaving: if the commit request was sent, then the source stream
  ended without error; the requests before it are chunk uploads, then the index entries of exactly
  the stream's chunks in order with their start offsets, then the close of the index with the
  chunk count, size and checksum of those entries, then the extra blob and the manifest; every one
  of them was acknowledged; and every chunk is either in the previous index or was uploaded under
  its digest in its encoded form.\<close>

theorem commit_only_complete_backups:
  assumes "reachable (\<lambda>s. s = init_state cfg c) (backup_rel L sv cfg) s"
    and "c_log (bs_conn s) = c_log c @ log" "Finish \<in> fst ` set log"
  shows "bc_chunker cfg = Ok () \<and> complete_trace L cfg (map fst log) [Finish] \<and>
    concat (map fst (all_batches L cfg)) = map (digest_of L (bc_crypt cfg)) (bc_chunks cfg) \<and>
    concat (map snd (all_batches L cfg)) = starts 0 (bc_chunks cfg) \<and>
    list_all acked (butlast log) \<and>
    (\<forall>ch \<in> set (bc_chunks cfg). known_chunk L cfg ch \<or>
       (\<exists>x \<in> set log. upload_of L cfg ch (fst x) \<and> acked x))"
proof -
  have "backup_inv L cfg (c_log c) s"
    using backup_run.reachable_inv [OF assms(1)] .
  then consider (run) "running_inv L cfg (c_log c) s" | (ref) "refused_commit L cfg (c_log c) s"
    by (auto simp: backup_inv_def)
  then show ?thesis
  proof cases
    case run
    then obtain st where "bs_phase s = Done st"
      using finish_sent_phase [OF run assms(2,3)] by blast
    then show ?thesis
      using late_phase [OF run assms(2), of "[Finish]" st] all_batches_concat [of L cfg]
      by (auto simp: list_all_iff dest: in_set_butlastD)
  next
    case ref
    then obtain s0 :: "'a bstate" and r where s0: "running_inv L cfg (c_log c) s0"
      "bs_phase s0 = Finishing" "c_log c @ log = c_log (bs_conn s0) @ [(Finish, r)]"
      using assms(2) by (auto simp: refused_commit_def)
    then obtain log' where log': "c_log (bs_conn s0) = c_log c @ log'" "log = log' @ [(Finish, r)]"
      by (auto simp: running_inv_def)
    note l = late_phase [OF s0(1) log'(1), of "[]"]
    have "complete_trace L cfg (map fst log) [Finish]"
      using l(2) s0(2) log'(2) by (auto simp: complete_trace_def)
    then show ?thesis
      using l s0(2) log'(2) all_batches_concat [of L cfg] by auto
  qed
qed

theorem commit_only_complete_backups_witness:
  "Finish \<in> fst ` set (c_log (bs_conn demo_end)) \<and>
   complete_trace demo_libs demo_cfg (map fst (c_log (bs_conn demo_end))) [Finish] \<and>
   list_all acked (butlast (c_log (bs_conn demo_end)))"
  using commit_only_complete_backups [OF demo_reachable, of "c_log (bs_conn demo_end)"] demo_evaluates
  by (simp add: demo_runs)

text \<open>C2: The concurrent backup always ends: every step decreases a measure of the remaining work,
  and as long as the run has neither completed nor failed some step is possible (the pipeline
  never deadlocks on its upload window), for every window of at least one.\<close>

theorem backup_runs_end:
  assumes "0 < bc_width cfg"
  shows "(backup_rel L sv cfg s l s' \<longrightarrow> work_left s' < work_left s) \<and>
    ((\<exists>l s'. backup_rel L sv cfg s l s') \<longleftrightarrow> \<not> final s)"
proof -
  have "final s \<Longrightarrow> \<not> backup_rel L sv cfg s l s'" for l s'
    by (auto simp: final_def backup_rel_def backup_step_def main_step_def
        split: Phase.splits BLabel.splits)
  then show ?thesis
    using step_work [of L sv cfg s l s'] step_possible [OF _ assms, of s L sv] by blast
qed

theorem backup_runs_end_witness:
  "\<exists>l s'. backup_rel demo_libs ack_server demo_cfg
     (init_state demo_cfg \<lparr> c_srv = (), c_log = [] \<rparr>) l s'"
  using backup_runs_end [of demo_cfg demo_libs ack_server
      "init_state demo_cfg \<lparr> c_srv = (), c_log = [] \<rparr>"]
  by (simp add: demo_cfg_def final_def init_state_def)

text \<open>The statistics of a completed backup account for the whole stream: every chunk is either
  reused or uploaded, the byte counts are those of the chunks (modulo the 64-bit counters), and
  the checksum is that of the index entries with the chunks' end offsets and digests.\<close>

theorem backup_stats_account:
  assumes "reachable (\<lambda>s. s = init_state cfg c) (backup_rel L sv cfg) s"
    and "bs_phase s = Done st"
  shows "st_chunks st = of_nat (length (bc_chunks cfg)) \<and>
    st_chunks st = st_reused st + st_uploaded st \<and>
    st_reused st = of_nat (length (filter (known_chunk L cfg) (bc_chunks cfg))) \<and>
    st_bytes st = of_nat (length (concat (bc_chunks cfg))) \<and>
    st_uploaded_bytes st =
      of_nat (length (concat (filter (\<lambda>ch. \<not> known_chunk L cfg ch) (bc_chunks cfg)))) \<and>
    st_csum st = dynamic_csum L (chunk_entries L (bc_crypt cfg) (bc_chunks cfg))"
proof -
  have "backup_inv L cfg (c_log c) s"
    using backup_run.reachable_inv [OF assms(1)] .
  then have run: "running_inv L cfg (c_log c) s"
    using assms(2) by (auto simp: backup_inv_def refused_commit_def)
  then obtain rcv where base: "base_inv L cfg rcv s" and st: "st = backup_stats L s"
    using assms(2) by (auto simp: running_inv_def sent_inv_def phase_trace_def)
  have "rcv = bc_chunks cfg"
    using all_received(1) [OF base] phase_quiet [OF run] assms(2) by (simp add: quiet_def)
  moreover have "length (filter P cs) + length (filter (\<lambda>x. \<not> P x) cs) = length cs"
    for P and cs :: "bytes list"
    by (induction cs) auto
  ultimately show ?thesis
    using base unfolding st
    by (simp add: backup_stats_def base_inv_def dynamic_total_size_def entries_size_chunks total_def
        flip: of_nat_add)
qed

theorem backup_stats_account_witness:
  "\<exists>st. bs_phase demo_end = Done st \<and> st_chunks st = 3 \<and> st_reused st = 1 \<and> st_uploaded_bytes st = 5"
proof -
  obtain st where st: "bs_phase demo_end = Done st"
    using demo_done by blast
  have "filter (\<lambda>ch. \<not> known_chunk demo_libs demo_cfg ch) (bc_chunks demo_cfg) = [[3, 4, 5], [6, 6]] \<and>
    filter (known_chunk demo_libs demo_cfg) (bc_chunks demo_cfg) = [[1, 2]] \<and>
    length (bc_chunks demo_cfg) = 3"
    by code_simp
  with backup_stats_account [OF demo_reachable st] st show ?thesis
    by auto
qed

end
