(* ===== verification/FixedBackup.thy ===== *)
theory FixedBackup
  imports Commit
begin

text \<open>The fixed-index image backup (\<open>backup_fixed_image\<close> of \<open>pbs-client/src/session.rs\<close>,
  modelled in \<open>Upload\<close>): the requests of a committed run are exactly those of the image.\<close>


section \<open>The requests of the chunk loop\<close>

definition fixed_upload :: "libs \<Rightarrow> u64 \<Rightarrow> bytes \<Rightarrow> Req" where
  "fixed_upload L wid ch = FixedChunk wid (chunk_digest L ch) (of_nat (length ch)) (encode_auto L ch)"

fun loop_reqs ::
  "libs \<Rightarrow> u64 \<Rightarrow> bytes list \<Rightarrow> arr32 list \<Rightarrow> u64 list \<Rightarrow> u64 \<Rightarrow> Req list \<times> arr32 list \<times> u64 list" where
  "loop_reqs L wid [] bd bo off = ([], bd, bo)"
| "loop_reqs L wid (ch # cs) bd bo off =
     (let bd' = bd @ [chunk_digest L ch]; bo' = bo @ [off]; off' = off + of_nat (length ch)
      in if APPEND_BATCH \<le> length bd' then
           let (rs, x) = loop_reqs L wid cs [] [] off'
           in (fixed_upload L wid ch # AppendFixed wid bd' bo' # rs, x)
         else
           let (rs, x) = loop_reqs L wid cs bd' bo' off'
           in (fixed_upload L wid ch # rs, x))"

fun is_body_req :: "Req \<Rightarrow> bool" where
  "is_body_req (FixedChunk w d n e) = True"
| "is_body_req (AppendFixed w ds os) = True"
| "is_body_req _ = False"

fun is_upload :: "Req \<Rightarrow> bool" where
  "is_upload (FixedChunk w d n e) = True"
| "is_upload _ = False"

fun uploaded_digest :: "Req \<Rightarrow> arr32 list" where
  "uploaded_digest (FixedChunk w d n e) = [d]"
| "uploaded_digest _ = []"

fun appended :: "Req \<Rightarrow> arr32 list" where
  "appended (AppendFixed w ds os) = ds"
| "appended _ = []"

fun appended_at :: "Req \<Rightarrow> u64 list" where
  "appended_at (AppendFixed w ds os) = os"
| "appended_at _ = []"

lemma commit_op_result:
  assumes "commit_op L sv req c = (r, c')"
  obtains resp where "c_log c' = c_log c @ [(req, resp)]" "r = Ok () \<longleftrightarrow> acked (req, resp)"
proof -
  have "c_log c' = c_log c @ [(req, snd (sv (c_srv c) req))]"
    using commit_op_log [of L sv req c] assms by simp
  moreover have "r = Ok () \<longleftrightarrow> acked (req, snd (sv (c_srv c) req))"
    using commit_op_acked [of L sv req c "()"] assms by simp
  ultimately show ?thesis
    using that by blast
qed

lemma create_op_result:
  assumes "create_op L sv what req c = (r, c')"
  obtains resp where "c_log c' = c_log c @ [(req, resp)]" "is_ok r \<longrightarrow> acked (req, resp)"
proof -
  let ?resp = "snd (sv (c_srv c) req)"
  have "c_log c' = c_log c @ [(req, ?resp)]"
    using create_op_log [of L sv what req c] assms by simp
  moreover have "is_ok r \<longrightarrow> acked (req, ?resp)"
    using assms by (cases ?resp) (auto simp: create_op_def call_def h2_request_def
        ensure_ok_def is_ok_iff case_prod_beta split: if_splits dest!: read_body_status)
  ultimately show ?thesis
    using that by blast
qed

lemma fixed_loop_body:
  assumes "fixed_loop L sv wid cs b bd bo off c = (r, c')"
  shows "\<exists>log. c_log c' = c_log c @ log \<and> list_all is_body_req (map fst log)"
  using assms
proof (induction cs arbitrary: b bd bo off c)
  case (Cons ch cs)
  obtain r1 c1 where 1: "commit_op L sv (fixed_upload L wid ch) c = (r1, c1)"
    by (cases "commit_op L sv (fixed_upload L wid ch) c")
  from 1 obtain p1 where l1: "c_log c1 = c_log c @ [(fixed_upload L wid ch, p1)]"
    by (rule commit_op_result)
  obtain r2 c2 where 2: "commit_op L sv (AppendFixed wid (bd @ [chunk_digest L ch]) (bo @ [off])) c1
      = (r2, c2)"
    by (cases "commit_op L sv (AppendFixed wid (bd @ [chunk_digest L ch]) (bo @ [off])) c1")
  from 2 obtain p2 where
    l2: "c_log c2 = c_log c1 @ [(AppendFixed wid (bd @ [chunk_digest L ch]) (bo @ [off]), p2)]"
    by (rule commit_op_result)
  show ?case
    using Cons.prems 1 2 l1 l2
    by (auto simp: op_defs Let_def fixed_upload_def split: sum.splits if_splits dest!: Cons.IH)
qed auto

lemma fixed_loop_trace:
  assumes "fixed_loop L sv wid cs b bd bo off c = (Ok (b', bd', bo'), c')"
  shows "\<exists>log. c_log c' = c_log c @ log \<and> list_all acked log \<and>
    loop_reqs L wid cs bd bo off = (map fst log, bd', bo') \<and>
    fb_digests b' = fb_digests b @ map (chunk_digest L) cs"
  using assms
proof (induction cs arbitrary: b bd bo off c)
  case (Cons ch cs)
  obtain r1 c1 where 1: "commit_op L sv (fixed_upload L wid ch) c = (r1, c1)"
    by (cases "commit_op L sv (fixed_upload L wid ch) c")
  from 1 obtain p1 where l1: "c_log c1 = c_log c @ [(fixed_upload L wid ch, p1)]"
    "r1 = Ok () \<longleftrightarrow> acked (fixed_upload L wid ch, p1)"
    by (rule commit_op_result)
  let ?app = "AppendFixed wid (bd @ [chunk_digest L ch]) (bo @ [off])"
  obtain r2 c2 where 2: "commit_op L sv ?app c1 = (r2, c2)"
    by (cases "commit_op L sv ?app c1")
  from 2 obtain p2 where l2: "c_log c2 = c_log c1 @ [(?app, p2)]" "r2 = Ok () \<longleftrightarrow> acked (?app, p2)"
    by (rule commit_op_result)
  show ?case
  proof (cases "APPEND_BATCH \<le> Suc (length bd)")
    case True
    with Cons.prems 1 2 have "fixed_loop L sv wid cs (push_digest (chunk_digest L ch) b) [] []
        (off + of_nat (length ch)) c2 = (Ok (b', bd', bo'), c')"
      "r1 = Ok ()" "r2 = Ok ()"
      by (auto simp: op_defs Let_def fixed_upload_def split: sum.splits)
    with Cons.IH [of _ "[]" "[]" _ c2] l1 l2 True show ?thesis
      by (fastforce simp: push_digest_def)
  next
    case False
    with Cons.prems 1 have "fixed_loop L sv wid cs (push_digest (chunk_digest L ch) b)
        (bd @ [chunk_digest L ch]) (bo @ [off]) (off + of_nat (length ch)) c1 = (Ok (b', bd', bo'), c')"
      "r1 = Ok ()"
      by (auto simp: op_defs Let_def fixed_upload_def split: sum.splits)
    with Cons.IH l1 False show ?thesis
      by (fastforce simp: push_digest_def)
  qed
qed auto

lemma loop_reqs_content:
  assumes "loop_reqs L wid cs bd bo off = (rs, bd', bo')"
  shows "filter is_upload rs = map (fixed_upload L wid) cs"
    and "concat (map appended rs) @ bd' = bd @ map (chunk_digest L) cs"
    and "concat (map appended_at rs) @ bo' = bo @ starts off cs"
    and "list_all is_body_req rs"
proof -
  have "filter is_upload rs = map (fixed_upload L wid) cs \<and>
    concat (map appended rs) @ bd' = bd @ map (chunk_digest L) cs \<and>
    concat (map appended_at rs) @ bo' = bo @ starts off cs \<and> list_all is_body_req rs"
    using assms
  proof (induction cs arbitrary: bd bo off rs)
    case (Cons ch cs)
    then show ?case
      by (auto simp: Let_def fixed_upload_def split: if_splits prod.splits dest!: Cons.IH)
  qed auto
  then show "filter is_upload rs = map (fixed_upload L wid) cs"
    "concat (map appended rs) @ bd' = bd @ map (chunk_digest L) cs"
    "concat (map appended_at rs) @ bo' = bo @ starts off cs" "list_all is_body_req rs"
    by blast+
qed

lemma loop_reqs_lengths:
  "loop_reqs L wid cs bd bo off = (rs, bd', bo') \<Longrightarrow> length bd = length bo \<Longrightarrow> length bd' = length bo'"
  by (induction cs arbitrary: bd bo off rs) (auto simp: Let_def split: if_splits prod.splits)

text \<open>No entry is appended before its chunk: the digests of every append request are among those
  uploaded before it.\<close>

fun appends_known :: "arr32 set \<Rightarrow> Req list \<Rightarrow> bool" where
  "appends_known up [] = True"
| "appends_known up (r # rs) =
     (set (appended r) \<subseteq> up \<and> appends_known (up \<union> set (uploaded_digest r)) rs)"

lemma appends_known_snoc:
  "appends_known up (rs @ [r]) \<longleftrightarrow>
     appends_known up rs \<and> set (appended r) \<subseteq> up \<union> set (concat (map uploaded_digest rs))"
  by (induction rs arbitrary: up) auto

lemma loop_reqs_known:
  assumes "loop_reqs L wid cs bd bo off = (rs, bd', bo')" "set bd \<subseteq> up"
  shows "appends_known up rs \<and> set bd' \<subseteq> up \<union> set (concat (map uploaded_digest rs))"
  using assms
proof (induction cs arbitrary: bd bo off rs up)
  case (Cons ch cs)
  let ?up = "insert (chunk_digest L ch) up"
  show ?case
  proof (cases "APPEND_BATCH \<le> Suc (length bd)")
    case True
    with Cons.prems obtain rs' where "loop_reqs L wid cs [] [] (off + of_nat (length ch)) = (rs', bd', bo')"
      "rs = fixed_upload L wid ch # AppendFixed wid (bd @ [chunk_digest L ch]) (bo @ [off]) # rs'"
      by (auto simp: Let_def split: prod.splits)
    with Cons.IH [of "[]" "[]" _ rs' ?up] Cons.prems(2) show ?thesis
      by (auto simp: fixed_upload_def)
  next
    case False
    with Cons.prems obtain rs' where
      "loop_reqs L wid cs (bd @ [chunk_digest L ch]) (bo @ [off]) (off + of_nat (length ch)) = (rs', bd', bo')"
      "rs = fixed_upload L wid ch # rs'"
      by (auto simp: Let_def split: prod.splits)
    moreover have "set (bd @ [chunk_digest L ch]) \<subseteq> ?up"
      using Cons.prems(2) by auto
    ultimately show ?thesis
      using Cons.IH [of "bd @ [chunk_digest L ch]" "bo @ [off]" _ rs' ?up] Cons.prems(2)
      by (auto simp: fixed_upload_def)
  qed
qed auto


section \<open>Committed images\<close>

definition fixed_close :: "libs \<Rightarrow> u64 \<Rightarrow> bytes list \<Rightarrow> u64 \<Rightarrow> Req" where
  "fixed_close L wid cs sz =
     CloseFixed wid (of_nat (length cs)) sz (fixed_csum L (map (chunk_digest L) cs))"

definition fixed_manifest :: "libs \<Rightarrow> SessionParams \<Rightarrow> string \<Rightarrow> bytes list \<Rightarrow> u64 \<Rightarrow> Req" where
  "fixed_manifest L p name cs sz =
     UploadBlob MANIFEST_BLOB_NAME (manifest_blob L p
       (fe_fixed_image L name sz (fixed_csum L (map (chunk_digest L) cs))))"

lemma fixed_commit_trace:
  assumes "fixed_commit L sv p name wid sz b c = (r, c')" "c_log c' = c_log c @ log"
    and "Finish \<in> fst ` set log" "fb_digests b = map (chunk_digest L) cs"
  shows "map fst log = [fixed_close L wid cs sz, fixed_manifest L p name cs sz, Finish]"
    and "list_all acked (butlast log)"
    and "r = Ok (fixed_csum L (map (chunk_digest L) cs)) \<or> \<not> list_all acked log \<and> \<not> is_ok r"
proof -
  let ?cl = "fixed_close L wid cs sz" and ?mf = "fixed_manifest L p name cs sz"
  have cl: "CloseFixed wid (of_nat (chunk_count b)) sz (fixed_csum L (fb_digests b)) = ?cl"
    using assms(4) by (simp add: fixed_close_def chunk_count_def)
  have mf: "UploadBlob MANIFEST_BLOB_NAME (manifest_blob L p (fe_fixed_image L name sz
      (fixed_csum L (fb_digests b)))) = ?mf"
    using assms(4) by (simp add: fixed_manifest_def)
  obtain r1 c1 where 1: "commit_op L sv ?cl c = (r1, c1)" by (cases "commit_op L sv ?cl c")
  obtain r2 c2 where 2: "commit_op L sv ?mf c1 = (r2, c2)" by (cases "commit_op L sv ?mf c1")
  obtain r3 c3 where 3: "commit_op L sv Finish c2 = (r3, c3)" by (cases "commit_op L sv Finish c2")
  from 1 obtain p1 where l1: "c_log c1 = c_log c @ [(?cl, p1)]" "r1 = Ok () \<longleftrightarrow> acked (?cl, p1)"
    by (rule commit_op_result)
  from 2 obtain p2 where l2: "c_log c2 = c_log c1 @ [(?mf, p2)]" "r2 = Ok () \<longleftrightarrow> acked (?mf, p2)"
    by (rule commit_op_result)
  from 3 obtain p3 where l3: "c_log c3 = c_log c2 @ [(Finish, p3)]" "r3 = Ok () \<longleftrightarrow> acked (Finish, p3)"
    by (rule commit_op_result)
  have no: "Finish \<noteq> ?cl" "Finish \<noteq> ?mf"
    by (simp_all add: fixed_close_def fixed_manifest_def)
  have "r1 = Ok ()" "r2 = Ok ()" "r = and_then r3 (\<lambda>_. Ok (fixed_csum L (fb_digests b)))" "c' = c3"
    using assms(1-3) 1 2 3 l1(1) l2(1) no
    by (auto simp: fixed_commit_def op_defs cl mf Let_def split: sum.splits)
  then show "map fst log = [?cl, ?mf, Finish]" "list_all acked (butlast log)"
    "r = Ok (fixed_csum L (map (chunk_digest L) cs)) \<or> \<not> list_all acked log \<and> \<not> is_ok r"
    using assms(2,4) l1 l2 l3 by (auto simp: is_ok_iff)
qed

lemma fixed_commit_extends:
  "fixed_commit L sv p name wid sz b c = (r, c') \<Longrightarrow> \<exists>log. c_log c' = c_log c @ log"
  unfolding fixed_commit_def op_defs Let_def
  by (auto split: prod.splits sum.splits elim!: commit_op_result)

lemma backup_fixed_image_parts:
  assumes "backup_fixed_image L sv chunk_size p name img uuid c = (r, c')"
    and "c_log c' = c_log c @ log" "Finish \<in> fst ` set log"
  obtains wid b bd bo c1 c2 c3 resp where
    "c_log c1 = c_log c @ [(CreateFixed name (of_nat (length img)), resp)]"
    "acked (CreateFixed name (of_nat (length img)), resp)"
    "fixed_loop L sv wid (chunks (unat chunk_size) img)
       (fixed_new (of_nat (length img)) chunk_size (sp_backup_time p) uuid) [] [] 0 c1 = (Ok (b, bd, bo), c2)"
    "bd = [] \<and> c3 = c2 \<or> bd \<noteq> [] \<and> commit_op L sv (AppendFixed wid bd bo) c2 = (Ok (), c3)"
    "fixed_commit L sv p name wid (of_nat (length img)) b c3 = (r, c')"
proof -
  let ?req = "CreateFixed name (of_nat (length img))"
  obtain r1 c1 where 1: "create_op L sv ''fixed_index'' ?req c = (r1, c1)"
    by (cases "create_op L sv ''fixed_index'' ?req c")
  from 1 obtain resp where l1: "c_log c1 = c_log c @ [(?req, resp)]" "is_ok r1 \<longrightarrow> acked (?req, resp)"
    by (rule create_op_result)
  with assms 1 obtain wid where wid: "r1 = Ok wid"
    by (auto simp: backup_fixed_image_def op_defs Let_def split: sum.splits)
  obtain r2 c2 where 2: "fixed_loop L sv wid (chunks (unat chunk_size) img)
       (fixed_new (of_nat (length img)) chunk_size (sp_backup_time p) uuid) [] [] 0 c1 = (r2, c2)"
    by (cases "fixed_loop L sv wid (chunks (unat chunk_size) img)
       (fixed_new (of_nat (length img)) chunk_size (sp_backup_time p) uuid) [] [] 0 c1")
  from fixed_loop_body [OF 2] obtain log2 where l2: "c_log c2 = c_log c1 @ log2"
    "list_all is_body_req (map fst log2)" by blast
  then have no: "(Finish, x) \<notin> set log2" for x
    by (auto simp: list_all_iff)
  with assms 1 2 wid l1 l2 obtain b bd bo where 3: "r2 = Ok (b, bd, bo)"
    by (auto simp: backup_fixed_image_def op_defs Let_def split: sum.splits)
  obtain r3 c3 where 4: "commit_op L sv (AppendFixed wid bd bo) c2 = (r3, c3)"
    by (cases "commit_op L sv (AppendFixed wid bd bo) c2")
  from 4 obtain p3 where l3: "c_log c3 = c_log c2 @ [(AppendFixed wid bd bo, p3)]"
    by (rule commit_op_result)
  show ?thesis
  proof (cases "bd = []")
    case True
    with assms(1) 1 2 3 wid have "fixed_commit L sv p name wid (of_nat (length img)) b c2 = (r, c')"
      by (auto simp: backup_fixed_image_def op_defs Let_def)
    with that [OF l1(1) _ 2 [unfolded 3]] l1(2) wid True show ?thesis
      by auto
  next
    case False
    with assms 1 2 3 4 wid l1 l2 l3 no have "r3 = Ok ()"
      "fixed_commit L sv p name wid (of_nat (length img)) b c3 = (r, c')"
      by (auto simp: backup_fixed_image_def op_defs Let_def split: sum.splits)
    with that [OF l1(1) _ 2 [unfolded 3]] l1(2) wid False 4 show ?thesis
      by auto
  qed
qed

text \<open>C10: A fixed-index image is committed only when the server has all of it. If a run of
  \<open>backup_fixed_image\<close> sent the commit request, then its requests were: create the index with the
  image size; a body that uploads exactly the image's chunks in order, each encoded under its
  digest, and appends exactly their digests and start offsets in order, never a digest before its
  upload; close with the chunk count, size and checksum; the manifest; and the commit. Everything
  before the commit was acknowledged, and the caller gets the checksum unless the commit failed.\<close>

theorem fixed_image_committed_complete:
  assumes "backup_fixed_image L sv chunk_size p name img uuid c = (r, c')"
    and "c_log c' = c_log c @ log" "Finish \<in> fst ` set log"
    and "cs = chunks (unat chunk_size) img" "sz = of_nat (length img)"
  shows "\<exists>wid body.
    map fst log = CreateFixed name sz # body
      @ [fixed_close L wid cs sz, fixed_manifest L p name cs sz, Finish] \<and>
    list_all is_body_req body \<and>
    filter is_upload body = map (fixed_upload L wid) cs \<and>
    concat (map appended body) = map (chunk_digest L) cs \<and>
    concat (map appended_at body) = starts 0 cs \<and>
    appends_known {} body \<and>
    list_all acked (butlast log) \<and>
    (r = Ok (fixed_csum L (map (chunk_digest L) cs)) \<or> \<not> is_ok r)"
proof -
  obtain wid b bd bo c1 c2 c3 resp where
    1: "c_log c1 = c_log c @ [(CreateFixed name sz, resp)]" "acked (CreateFixed name sz, resp)" and
    2: "fixed_loop L sv wid cs (fixed_new sz chunk_size (sp_backup_time p) uuid) [] [] 0 c1
        = (Ok (b, bd, bo), c2)" and
    3: "bd = [] \<and> c3 = c2 \<or> bd \<noteq> [] \<and> commit_op L sv (AppendFixed wid bd bo) c2 = (Ok (), c3)" and
    4: "fixed_commit L sv p name wid sz b c3 = (r, c')"
    unfolding assms(4,5) by (rule backup_fixed_image_parts [OF assms(1-3)])
  from fixed_loop_trace [OF 2] obtain log2 where l2: "c_log c2 = c_log c1 @ log2" "list_all acked log2"
    "loop_reqs L wid cs [] [] 0 = (map fst log2, bd, bo)" "fb_digests b = map (chunk_digest L) cs"
    by (auto simp: fixed_new_def)
  note content = loop_reqs_content [OF l2(3)] and known = loop_reqs_known [OF l2(3), of "{}"]
  have bo: "bd = [] \<longleftrightarrow> bo = []"
    using loop_reqs_lengths [OF l2(3)] by auto
  obtain log3 where l3: "c_log c3 = c_log c2 @ log3" "list_all acked log3"
    "map fst log3 = (if bd = [] then [] else [AppendFixed wid bd bo])"
  proof (cases "bd = []")
    case False
    then have "commit_op L sv (AppendFixed wid bd bo) c2 = (Ok (), c3)"
      using 3 by simp
    then obtain p3 where "c_log c3 = c_log c2 @ [(AppendFixed wid bd bo, p3)]"
      "acked (AppendFixed wid bd bo, p3)"
      by (auto elim: commit_op_result)
    with that [of "[(AppendFixed wid bd bo, p3)]"] False show ?thesis
      by simp
  qed (use that [of "[]"] 3 in simp)
  obtain log4 where l4: "c_log c' = c_log c3 @ log4"
    using fixed_commit_extends [OF 4] by blast
  have log: "log = (CreateFixed name sz, resp) # log2 @ log3 @ log4"
    using assms(2) 1 l2 l3 l4 by simp
  have "Finish \<in> fst ` set log4"
  proof -
    have "Finish \<notin> fst ` set log2"
      using content(4) by (auto simp: list_all_iff image_iff)
    moreover have "Finish \<notin> set (map fst log3)"
      unfolding l3(3) by auto
    ultimately show ?thesis
      using assms(3) log by auto
  qed
  note fin = fixed_commit_trace [OF 4 l4 this l2(4)]
  have "log4 \<noteq> []"
    using fin(1) by auto
  let ?body = "map fst log2 @ map fst log3"
  have "map fst log = CreateFixed name sz # ?body
      @ [fixed_close L wid cs sz, fixed_manifest L p name cs sz, Finish]"
    using log fin(1) by simp
  moreover have "list_all is_body_req ?body" "filter is_upload ?body = map (fixed_upload L wid) cs"
    "concat (map appended ?body) = map (chunk_digest L) cs" "concat (map appended_at ?body) = starts 0 cs"
    using content bo unfolding l3(3) by (auto simp: comp_def)
  moreover have "appends_known {} ?body"
    using known unfolding l3(3) by (auto simp: appends_known_snoc)
  moreover have "list_all acked (butlast log)"
    using log 1(2) l2(2) l3(2) fin(2) \<open>log4 \<noteq> []\<close> by (simp add: butlast_append)
  ultimately show ?thesis
    using fin(3) by (intro exI [of _ wid] exI [of _ ?body] conjI) (assumption | blast)+
qed

theorem fixed_image_committed_complete_witness:
  "\<exists>(c' :: unit conn) r wid body.
    backup_fixed_image demo_libs ack_server 2 demo_params ''img.fidx'' [1, 2, 3] 0
      \<lparr> c_srv = (), c_log = [] \<rparr> = (r, c') \<and>
    map fst (c_log c') = CreateFixed ''img.fidx'' 3 # body
      @ [fixed_close demo_libs wid [[1, 2], [3]] 3,
         fixed_manifest demo_libs demo_params ''img.fidx'' [[1, 2], [3]] 3, Finish] \<and>
    filter is_upload body = map (fixed_upload demo_libs wid) [[1, 2], [3]]"
proof -
  let ?run = "backup_fixed_image demo_libs ack_server 2 demo_params ''img.fidx'' [1, 2, 3] 0
      \<lparr> c_srv = (), c_log = [] \<rparr>"
  have "Finish \<in> set (map fst (c_log (snd ?run))) \<and> chunks (unat (2 :: u64)) [1, 2, 3] = [[1, 2], [3 :: byte]]"
    by code_simp
  then show ?thesis
    using fixed_image_committed_complete [of demo_libs ack_server 2 demo_params "''img.fidx''"
        "[1, 2, 3]" 0 "\<lparr> c_srv = (), c_log = [] \<rparr>" "fst ?run" "snd ?run" "c_log (snd ?run)"
        "[[1, 2], [3]]" 3]
    by (metis (no_types, lifting) append_Nil conn.select_convs(2) length_Cons list.set_map list.size(3)
        of_nat_numeral prod.collapse numeral_3_eq_3)
qed

end
