(* ===== verification/Restore.thy ===== *)
theory Restore
  imports Session Chunk
begin

text \<open>
  Restoring an archive (\<open>pbs-client/src/session.rs\<close>, reader side): fetching an index, the
  sequential restores of fixed and dynamic archives, and the windowed download pipeline that
  keeps several chunks in flight and still delivers them in order.
\<close>

section \<open>Sequential restore\<close>

fun fetch_chunks ::
  "libs \<Rightarrow> 's server \<Rightarrow> CryptConfig option \<Rightarrow> bytes \<Rightarrow> arr32 list \<Rightarrow> 's conn
     \<Rightarrow> (PbsError + bytes) \<times> 's conn" where
  "fetch_chunks L sv crypt out [] c = (Ok out, c)"
| "fetch_chunks L sv crypt out (d # ds) c =
     (let (r, c') = download_chunk L sv d c in
      case and_then r (\<lambda>raw. decode_and_verify_chunk L raw crypt d) of
        Inl e \<Rightarrow> (Err e, c')
      | Inr chunk \<Rightarrow> fetch_chunks L sv crypt (out @ chunk) ds c')"

definition restore_fixed_image ::
  "libs \<Rightarrow> 's server \<Rightarrow> string \<Rightarrow> CryptConfig option \<Rightarrow> 's conn \<Rightarrow> (PbsError + bytes) \<times> 's conn" where
  "restore_fixed_image L sv name crypt c =
     (let (r, c1) = download L sv name c in
      case and_then r fixed_parse of
        Inl e \<Rightarrow> (Err e, c1)
      | Inr fixed \<Rightarrow>
          if \<not> fixed_verify_csum L fixed
          then (Err (Protocol ''downloaded fixed index failed its csum check''), c1)
          else
            let (r2, c2) = fetch_chunks L sv crypt [] (fi_digests fixed) c1
            in (and_then r2 (\<lambda>img. Ok (take (unat (fi_size fixed)) img)), c2))"

definition archive_digests ::
  "libs \<Rightarrow> 's server \<Rightarrow> string \<Rightarrow> 's conn \<Rightarrow> (PbsError + arr32 list) \<times> 's conn" where
  "archive_digests L sv name c =
     (let (r, c1) = download L sv name c in
      (and_then r (\<lambda>bs. and_then (dynamic_parse bs) (\<lambda>idx.
         if \<not> dynamic_verify_csum L idx
         then Err (Protocol ''downloaded dynamic index failed its csum check'')
         else Ok (index_digests idx))), c1))"

definition restore_dynamic_archive ::
  "libs \<Rightarrow> 's server \<Rightarrow> string \<Rightarrow> CryptConfig option \<Rightarrow> 's conn \<Rightarrow> (PbsError + bytes) \<times> 's conn" where
  "restore_dynamic_archive L sv name crypt c =
     (let (r, c1) = archive_digests L sv name c in
      case r of
        Inl e \<Rightarrow> (Err e, c1)
      | Inr ds \<Rightarrow> fetch_chunks L sv crypt [] ds c1)"

definition download_blob ::
  "libs \<Rightarrow> 's server \<Rightarrow> string \<Rightarrow> CryptConfig option \<Rightarrow> 's conn \<Rightarrow> (PbsError + bytes) \<times> 's conn" where
  "download_blob L sv name crypt c =
     (let (r, c') = download L sv name c in (and_then r (\<lambda>raw. decode_blob L raw crypt), c'))"


section \<open>The download pipeline\<close>

text \<open>The tasks of a pipeline, one per digest, are known by the result each of them comes to
  (its download and decoding may finish at any time). The loop keeps a queue of tasks in flight,
  awaits the oldest, forwards its chunk unless the consumer is gone, and starts the next one.
  \<open>accepts\<close> is the number of chunks the consumer takes before it goes away, if it does.\<close>

function pipe_loop ::
  "('e + 'c) list \<Rightarrow> ('e + 'c) list \<Rightarrow> nat option \<Rightarrow> 'c list \<times> ('e + unit)" where
  "pipe_loop [] rest accepts = ([], Ok ())"
| "pipe_loop (handle # inflight) rest accepts =
     (case handle of
        Inl e \<Rightarrow> ([], Err e)
      | Inr chunk \<Rightarrow>
          if accepts = Some 0 then ([], Ok ())
          else
            let (out, r) =
              (case rest of
                 [] \<Rightarrow> pipe_loop inflight [] (map_option (\<lambda>n. n - 1) accepts)
               | d # ds \<Rightarrow> pipe_loop (inflight @ [d]) ds (map_option (\<lambda>n. n - 1) accepts))
            in (chunk # out, r))"
  by pat_completeness auto
termination by (relation "measure (\<lambda>(q, rest, a). length q + length rest)") auto

definition spawn_chunk_pipeline ::
  "nat \<Rightarrow> ('e + 'c) list \<Rightarrow> nat option \<Rightarrow> 'c list \<times> ('e + unit)" where
  "spawn_chunk_pipeline width tasks accepts =
     pipe_loop (take width tasks) (drop width tasks) accepts"

text \<open>The result each digest's task comes to: download, then decode and verify.\<close>

definition chunk_tasks ::
  "libs \<Rightarrow> CryptConfig option \<Rightarrow> (nat \<Rightarrow> arr32 \<Rightarrow> PbsError + bytes) \<Rightarrow> arr32 list
     \<Rightarrow> (PbsError + bytes) list" where
  "chunk_tasks L crypt dl ds =
     map (\<lambda>(i, d). and_then (dl i d) (\<lambda>raw. decode_and_verify_chunk L raw crypt d))
       (enumerate 0 ds)"

text \<open>The consumer: it feeds each received chunk to a sink (a writer or a callback), which may
  fail; then the producer's own result is joined. \<open>produced\<close> counts bytes as a \<open>u64\<close>.\<close>

fun feed :: "(nat \<Rightarrow> bytes \<Rightarrow> string + unit) \<Rightarrow> nat \<Rightarrow> u64 \<Rightarrow> bytes list \<Rightarrow> PbsError + u64" where
  "feed sink i produced [] = Ok produced"
| "feed sink i produced (c # cs) =
     (case sink i c of
        Inl e \<Rightarrow> Err (Io e)
      | Inr _ \<Rightarrow> feed sink (Suc i) (produced + of_nat (length c)) cs)"

definition restore_dynamic_archive_streamed ::
  "libs \<Rightarrow> nat \<Rightarrow> CryptConfig option \<Rightarrow> (nat \<Rightarrow> arr32 \<Rightarrow> PbsError + bytes) \<Rightarrow> arr32 list
     \<Rightarrow> (nat \<Rightarrow> bytes \<Rightarrow> string + unit) \<Rightarrow> PbsError + u64" where
  "restore_dynamic_archive_streamed L width crypt dl ds sink =
     (let (out, r) = spawn_chunk_pipeline width (chunk_tasks L crypt dl ds) None
      in and_then (feed sink 0 0 out) (\<lambda>produced. and_then r (\<lambda>_. Ok produced)))"

definition restore_dynamic_archive_to_writer ::
  "libs \<Rightarrow> nat \<Rightarrow> CryptConfig option \<Rightarrow> (nat \<Rightarrow> arr32 \<Rightarrow> PbsError + bytes) \<Rightarrow> arr32 list
     \<Rightarrow> (nat \<Rightarrow> bytes \<Rightarrow> string + unit) \<Rightarrow> string + unit \<Rightarrow> PbsError + u64" where
  "restore_dynamic_archive_to_writer L width crypt dl ds write_all flush =
     (let (out, r) = spawn_chunk_pipeline width (chunk_tasks L crypt dl ds) None
      in and_then (feed write_all 0 0 out) (\<lambda>written. and_then r (\<lambda>_.
           case flush of Inl e \<Rightarrow> Err (Io e) | Inr _ \<Rightarrow> Ok written)))"


section \<open>The pipeline equals a sequential download\<close>

text \<open>The reference: await the tasks one after the other, stopping at the first failure or when
  the consumer is gone.\<close>

fun in_order :: "('e + 'c) list \<Rightarrow> nat option \<Rightarrow> 'c list \<times> ('e + unit)" where
  "in_order [] accepts = ([], Ok ())"
| "in_order (t # ts) accepts =
     (case t of
        Inl e \<Rightarrow> ([], Err e)
      | Inr chunk \<Rightarrow>
          if accepts = Some 0 then ([], Ok ())
          else let (out, r) = in_order ts (map_option (\<lambda>n. n - 1) accepts) in (chunk # out, r))"

lemma pipe_loop_in_order:
  "q \<noteq> [] \<or> rest = [] \<Longrightarrow> pipe_loop q rest accepts = in_order (q @ rest) accepts"
proof (induction q rest accepts rule: pipe_loop.induct)
  case (2 handle inflight rest accepts)
  show ?case
  proof (cases handle)
    case (Inr chunk)
    then show ?thesis
      using 2 by (cases "accepts = Some 0"; cases rest) auto
  qed simp
qed simp

lemma in_order_ok: "in_order ts None = (out, Ok ()) \<longleftrightarrow> ts = map Inr out"
proof (induction ts arbitrary: out)
  case Nil
  then show ?case
    by auto
next
  case (Cons t ts)
  show ?case
  proof (cases t)
    case (Inr c)
    then show ?thesis
      using Cons by (cases "in_order ts None"; cases out) auto
  qed auto
qed

lemma feed_ok:
  "feed sink i p cs = Ok n \<Longrightarrow>
     n = p + of_nat (length (concat cs)) \<and> (\<forall>k < length cs. sink (i + k) (cs ! k) = Ok ())"
proof (induction cs arbitrary: i p)
  case (Cons c cs)
  then obtain u where "sink i c = Ok u" "feed sink (Suc i) (p + of_nat (length c)) cs = Ok n"
    by (auto split: sum.splits)
  with Cons.IH [OF this(2)] show ?case
    by (auto simp: nth_Cons split: nat.splits)
qed simp

lemma feed_all_ok:
  "\<forall>k < length cs. sink (i + k) (cs ! k) = Ok () \<Longrightarrow>
     feed sink i p cs = Ok (p + of_nat (length (concat cs)))"
proof (induction cs arbitrary: i p)
  case (Cons c cs)
  have "sink i c = Ok ()"
    using Cons.prems by (metis add.right_neutral length_greater_0_conv list.discI nth_Cons_0)
  moreover have "\<forall>k < length cs. sink (Suc i + k) (cs ! k) = Ok ()"
    using Cons.prems by (metis Suc_less_eq add_Suc_shift length_Cons nth_Cons_Suc)
  ultimately show ?case
    using Cons.IH [of "Suc i"] by (simp add: add.assoc)
qed simp

lemma chunk_tasks_nth:
  "i < length ds \<Longrightarrow> chunk_tasks L crypt dl ds ! i =
     and_then (dl i (ds ! i)) (\<lambda>raw. decode_and_verify_chunk L raw crypt (ds ! i))"
  by (simp add: chunk_tasks_def nth_enumerate_eq)

lemma chunk_tasks_length [simp]: "length (chunk_tasks L crypt dl ds) = length ds"
  by (simp add: chunk_tasks_def)

lemma chunk_tasks_verified:
  assumes "chunk_tasks L crypt dl ds = map Inr out"
  shows "map (digest_of L crypt) out = ds"
proof (rule nth_equalityI)
  show len: "length (map (digest_of L crypt) out) = length ds"
    using arg_cong [OF assms, of length] by simp
  fix i assume "i < length (map (digest_of L crypt) out)"
  then have i: "i < length out" "i < length ds"
    using len by auto
  then have "and_then (dl i (ds ! i)) (\<lambda>raw. decode_and_verify_chunk L raw crypt (ds ! i))
      = Ok (out ! i)"
    using chunk_tasks_nth [OF i(2), of L crypt dl] assms by simp
  then show "map (digest_of L crypt) out ! i = ds ! i"
    using i verified_digest by auto
qed

lemma fetch_chunks_verified:
  "fst (fetch_chunks L sv crypt out ds c) = Ok res \<Longrightarrow>
     \<exists>pieces. res = out @ concat pieces \<and> map (digest_of L crypt) pieces = ds"
proof (induction ds arbitrary: out c)
  case (Cons d ds)
  obtain r c' where rc: "download_chunk L sv d c = (r, c')"
    by (cases "download_chunk L sv d c")
  then obtain chunk where ch: "and_then r (\<lambda>raw. decode_and_verify_chunk L raw crypt d) = Ok chunk"
    and rec: "fst (fetch_chunks L sv crypt (out @ chunk) ds c') = Ok res"
    using Cons.prems by (auto simp: Let_def split: sum.splits)
  from Cons.IH [OF rec] obtain ps where "res = (out @ chunk) @ concat ps"
    "map (digest_of L crypt) ps = ds"
    by blast
  moreover have "digest_of L crypt chunk = d"
    using ch verified_digest by auto
  ultimately show ?case
    by (intro exI [of _ "chunk # ps"]) simp
qed simp

text \<open>Equal digests of unequal contents would be a collision of the hash; without one, the pieces
  are the original chunks.\<close>

lemma same_digests_cases:
  assumes "map f ps = map f cs"
  shows "ps = cs \<or> (\<exists>x c. c \<in> set cs \<and> x \<noteq> c \<and> f x = f c)"
proof -
  have len: "length ps = length cs"
    using assms by (metis length_map)
  show ?thesis
  proof (cases "ps = cs")
    case False
    then obtain i where "i < length cs" "ps ! i \<noteq> cs ! i"
      using len by (auto simp: list_eq_iff_nth_eq)
    moreover have "f (ps ! i) = f (cs ! i)"
      using assms len calculation(1) by (metis nth_map)
    ultimately show ?thesis
      using nth_mem by blast
  qed simp
qed


section \<open>Properties\<close>

text \<open>C9: The windowed pipeline delivers exactly what downloading the chunks one at a time would:
  the same chunks in the same order, stopping at the same first failure (or when the consumer is
  gone), for every window width of at least one, however the in-flight tasks overlap.\<close>

theorem pipeline_equals_sequential:
  assumes "0 < width"
  shows "spawn_chunk_pipeline width tasks accepts = in_order tasks accepts"
proof -
  have "take width tasks \<noteq> [] \<or> drop width tasks = []"
    using assms by (cases tasks) auto
  then show ?thesis
    by (simp add: spawn_chunk_pipeline_def pipe_loop_in_order)
qed

theorem pipeline_equals_sequential_witness:
  "spawn_chunk_pipeline 2 [Inr 1, Inr 2, Inr (3 :: nat), Inl ''gone'', Inr 5] None
     = ([1, 2, 3], Err ''gone'')"
  using pipeline_equals_sequential [of 2 "[Inr 1, Inr 2, Inr (3 :: nat), Inl ''gone'', Inr 5]" None]
  by simp


text \<open>A server that stores the blobs of two chunks under their digests, for the witness.\<close>

definition demo_reader :: "unit server" where
  "demo_reader s req =
     ((), case req of
        GetChunk d \<Rightarrow>
          if d = digest_of demo_libs None [1, 2] then Inr (200, [BodyData (encode_auto demo_libs [1, 2])])
          else if d = digest_of demo_libs None [3] then Inr (200, [BodyData (encode_auto demo_libs [3])])
          else Inr (404, [])
      | _ \<Rightarrow> Inr (404, []))"


text \<open>A streamed restore that reports success has handed its sink every chunk of the archive,
  verified and in order, and reports the total number of bytes; conversely, when every chunk
  downloads and decodes and the sink accepts everything, it succeeds.\<close>

theorem streamed_restore_complete:
  assumes "0 < width"
  shows "restore_dynamic_archive_streamed L width crypt dl ds sink = Ok n \<longleftrightarrow>
    (\<exists>out. chunk_tasks L crypt dl ds = map Inr out \<and> map (digest_of L crypt) out = ds \<and>
       (\<forall>k < length out. sink k (out ! k) = Ok ()) \<and> n = of_nat (length (concat out)))"
proof -
  let ?ts = "chunk_tasks L crypt dl ds"
  have "take width ?ts \<noteq> [] \<or> drop width ?ts = []"
    using assms by (cases ?ts) auto
  then have p: "spawn_chunk_pipeline width ?ts None = in_order ?ts None"
    by (simp add: spawn_chunk_pipeline_def pipe_loop_in_order)
  obtain out r where io: "in_order ?ts None = (out, r)"
    by (cases "in_order ?ts None")
  have run: "restore_dynamic_archive_streamed L width crypt dl ds sink =
      and_then (feed sink 0 0 out) (\<lambda>n. and_then r (\<lambda>_. Ok n))"
    by (simp add: restore_dynamic_archive_streamed_def p io)
  show ?thesis
  proof
    assume "restore_dynamic_archive_streamed L width crypt dl ds sink = Ok n"
    then have f: "feed sink 0 0 out = Ok n" and "r = Ok ()"
      by (auto simp: run)
    then have "?ts = map Inr out"
      using io in_order_ok by blast
    then show "\<exists>out. ?ts = map Inr out \<and> map (digest_of L crypt) out = ds \<and>
        (\<forall>k < length out. sink k (out ! k) = Ok ()) \<and> n = of_nat (length (concat out))"
      using feed_ok [OF f] chunk_tasks_verified by auto
  next
    assume "\<exists>out. ?ts = map Inr out \<and> map (digest_of L crypt) out = ds \<and>
        (\<forall>k < length out. sink k (out ! k) = Ok ()) \<and> n = of_nat (length (concat out))"
    then obtain out' where o: "?ts = map Inr out'" "\<forall>k < length out'. sink (0 + k) (out' ! k) = Ok ()"
      "n = of_nat (length (concat out'))"
      by auto
    then have "in_order ?ts None = (out', Ok ())"
      by (simp add: in_order_ok)
    then have "out = out'" "r = Ok ()"
      using io by auto
    then show "restore_dynamic_archive_streamed L width crypt dl ds sink = Ok n"
      using feed_all_ok [OF o(2), of 0] o(3) by (simp add: run)
  qed
qed

theorem streamed_restore_complete_witness:
  "restore_dynamic_archive_streamed demo_libs 1 None
     (\<lambda>i d. Inr (encode_auto demo_libs (if i = 0 then [1, 2] else [3])))
     (map (digest_of demo_libs None) [[1, 2], [3]]) (\<lambda>i b. Inr ()) = Ok 3"
proof -
  have "chunk_tasks demo_libs None
      (\<lambda>i d. Inr (encode_auto demo_libs (if i = 0 then [1, 2] else [3])))
      (map (digest_of demo_libs None) [[1, 2], [3]]) = map Inr [[1, 2], [3]]"
    by code_simp
  then show ?thesis
    by (subst streamed_restore_complete) (auto intro!: exI [of _ "[[1, 2], [3]]"])
qed

end
