(* ===== verification/Protocol.thy ===== *)
theory Protocol
  imports Prelude
begin

text \<open>
  The messages between the user interface and the engine (\<open>pbsgui-ipc/src/protocol.rs\<close>) and
  their transport (\<open>pbsgui-ipc/src/transport.rs\<close>).

  Every structure is a record and every enumeration a datatype with the source's constructors.
  A progress fraction is kept as the exact quotient (numerator and denominator) of which the code
  sends the nearest 32-bit float. JSON encoding and decoding of a message are parameters; the
  transport adds the framing, one message per line.
\<close>

section \<open>Saved objects\<close>

type_synonym f32 = "nat \<times> nat"

record PbsServer =
  ps_id :: string
  ps_name :: string
  ps_repository :: string
  ps_fingerprint :: string

datatype SqlBackupType = Full | Differential | Log

datatype Schedule =
    Manual
  | Interval u32
  | Daily byte byte
  | Weekly "byte list" byte byte
  | Monthly byte byte byte

datatype SqlProtection =
    PointInTime (pit_full: Schedule) (pit_log_minutes: u32)
  | DailyRestorePoints Schedule
  | SecondaryCopy Schedule

datatype JobSource =
    Files "string list" "string list" bool
  | Sql string "string list" SqlProtection

datatype SqlRestorePoint = PointFull i64 | PointTime i64

record SqlFullPoint =
  fp_backup_time :: i64
  fp_size :: "u64 option"

record SqlRestoreWindow =
  rw_full_points :: "SqlFullPoint list"
  rw_pit_earliest :: "i64 option"
  rw_pit_latest :: "i64 option"
  rw_log_count :: u32
  rw_log_total_size :: "u64 option"

datatype JobDestination = Pbs string string | Folder string

record Job =
  j_id :: string
  j_name :: string
  j_source :: JobSource
  j_destination :: JobDestination
  j_schedule :: Schedule
  j_last_run :: "i64 option"
  j_last_status :: "string option"
  j_encrypted :: bool
  j_compress :: bool

record EncryptionKeyInfo =
  ek_key :: string
  ek_fingerprint :: string

datatype EmailSecurity = Starttls | Tls | NoTls

record EmailSettings =
  es_enabled :: bool
  es_host :: string
  es_port :: u16
  es_security :: EmailSecurity
  es_username :: string
  es_from :: string
  es_to :: "string list"

record WebhookSettings =
  wh_enabled :: bool

record NotificationSettings =
  ns_on_success :: bool
  ns_on_failure :: bool
  ns_on_stall :: bool
  ns_email :: EmailSettings
  ns_webhook :: WebhookSettings

datatype NotifyChannel = Email | Webhook

datatype MetricsMode = Off | Endpoint | Textfile

record MetricsSettings =
  ms_mode :: MetricsMode
  ms_port :: u16
  ms_bind :: string
  ms_textfile_dir :: string

record SnapshotInfo =
  si_backup_time :: i64
  si_size :: "u64 option"

record RunningJob =
  rj_job_id :: string
  rj_started :: i64
  rj_fraction :: f32
  rj_message :: string

record RelayAgentInfo =
  ra_name :: string
  ra_connected :: bool
  ra_host :: "string option"
  ra_version :: "string option"

record FileInfo =
  fi_path :: string
  fi_size :: u64


section \<open>SQL Server instances\<close>

datatype SqlDiscoverySource = LocalRegistry | Browser | NetworkScan | ActiveDirectory

datatype SqlAuthMode = WindowsOnly | Mixed | Unknown

datatype SqlAuth =
    Integrated
  | WindowsAccount string
  | SqlLogin string
  | AzureAd string

record SqlConnection =
  sc_id :: string
  sc_name :: string
  sc_server :: string
  sc_port :: "u16 option"
  sc_auth :: SqlAuth
  sc_failover_cluster :: bool
  sc_relay_agent :: "string option"

datatype SqlTopology =
    Standalone
  | FailoverClusterInstance string string
  | AvailabilityGroup string string bool

record SqlDatabase =
  sd_name :: string
  sd_recovery_model :: string
  sd_state :: string
  sd_log_reuse_wait :: "string option"
  sd_in_availability_group :: bool
  sd_is_preferred_backup_replica :: "bool option"
  sd_system :: bool

datatype CheckStatus = CheckOk | CheckWarn | CheckFail

record SqlCheck =
  ck_name :: string
  ck_status :: CheckStatus
  ck_detail :: string
  ck_hint :: "string option"

record SqlProbe =
  pr_product_version :: string
  pr_edition :: string
  pr_topology :: SqlTopology
  pr_databases :: "SqlDatabase list"

record SqlInstance =
  in_server :: string
  in_instance_name :: string
  in_host :: string
  in_port :: "u16 option"
  in_source :: SqlDiscoverySource
  in_running :: "bool option"
  in_service_account :: "string option"
  in_auth_mode :: SqlAuthMode
  in_clustered :: "bool option"
  in_tcp_enabled :: "bool option"
  in_probe :: "SqlProbe option"
  in_probe_error :: "string option"

record DestCredentials =
  dc_username :: string
  dc_password :: string


section \<open>Requests and replies\<close>

datatype Request =
    Ping
  | ListJobs
  | SaveJob Job
  | DeleteJob string
  | RunJob string
  | CancelJob string
  | ListRunning
  | ListSnapshots string
  | ListFiles string i64
  | RestoreFiles string i64 "string list option" string "DestCredentials option"
  | DiscoverSql bool "string list"
  | ProbeSql string "u16 option" SqlAuth "string option" "string option"
  | CheckSql string "u16 option" SqlAuth "string option" "string option"
  | ListSqlSnapshots string string
  | GetSqlRestoreWindow string string
  | RestoreSql string string string SqlRestorePoint "string option"
  | RestoreSqlToFile string string SqlRestorePoint string "DestCredentials option"
  | ListSqlConnections
  | SaveSqlConnection SqlConnection "string option"
  | DeleteSqlConnection string
  | ListPbsServers
  | SavePbsServer PbsServer "string option"
  | DeletePbsServer string
  | TestPbsServer PbsServer "string option"
  | GenerateEncryptionKey string
  | ImportEncryptionKey string string
  | GetEncryptionKey string
  | ClearEncryptionKey string
  | GetNotifications
  | SaveNotifications NotificationSettings "string option" "string option"
  | TestNotification NotifyChannel
  | GetMetrics
  | SaveMetrics MetricsSettings
  | ListRelayAgents

datatype Reply =
    Pong
  | Jobs "Job list"
  | Saved string
  | Deleted
  | Snapshots "SnapshotInfo list"
  | FileList "FileInfo list"
  | SqlInstances "SqlInstance list"
  | ProbeResult SqlProbe
  | SqlChecks "SqlCheck list"
  | RestoreWindow SqlRestoreWindow
  | SqlConnections "SqlConnection list"
  | PbsServers "PbsServer list"
  | EncryptionKey "EncryptionKeyInfo option"
  | Notifications NotificationSettings bool bool
  | Metrics MetricsSettings
  | RelayAgents "RelayAgentInfo list"
  | Running "RunningJob list"
  | Accepted string
  | Progress f32 string
  | LogLine string
  | Finished bool string
  | ErrorReply string

fun is_terminal :: "Reply \<Rightarrow> bool" where
  "is_terminal (Accepted j) = False"
| "is_terminal (Progress f m) = False"
| "is_terminal (LogLine l) = False"
| "is_terminal _ = True"


section \<open>Transport\<close>

text \<open>One line of a byte stream: the bytes up to and including a line feed, or what is left at
  the end of the stream.\<close>

definition read_line :: "string \<Rightarrow> string \<times> string" where
  "read_line s =
     (let l = takeWhile (\<lambda>c. c \<noteq> CHR 0x0A) s; rest = dropWhile (\<lambda>c. c \<noteq> CHR 0x0A) s
      in (l @ take 1 rest, drop 1 rest))"

text \<open>The responder writes each reply as one line.\<close>

definition respond :: "('r \<Rightarrow> string) \<Rightarrow> 'r \<Rightarrow> string" where
  "respond enc reply = enc reply @ [CHR 0x0A]"

definition respond_all :: "('r \<Rightarrow> string) \<Rightarrow> 'r list \<Rightarrow> string" where
  "respond_all enc replies = concat (map (respond enc) replies)"

text \<open>The engine's side of a connection: read one line, parse it, run the handler, which streams
  replies. A connection closed without a request gets no answer.\<close>

definition handle_connection ::
  "(string \<Rightarrow> string + 'q) \<Rightarrow> ('r \<Rightarrow> string) \<Rightarrow> (string \<Rightarrow> 'r) \<Rightarrow> ('q \<Rightarrow> 'r list) \<Rightarrow> string \<Rightarrow> string" where
  "handle_connection dec enc err handler input =
     (let line = fst (read_line input) in
      if line = [] then []
      else case dec (trim line) of
             Inr request \<Rightarrow> respond_all enc (handler request)
           | Inl e \<Rightarrow> respond enc (err (''invalid request: '' @ e)))"

lemma read_line_append: "fst (read_line s) @ snd (read_line s) = s"
  by (simp add: read_line_def Let_def)

lemma read_line_nonempty: "s \<noteq> [] \<Longrightarrow> fst (read_line s) \<noteq> []"
  by (cases s) (auto simp: read_line_def Let_def)

lemma read_line_shorter: "s \<noteq> [] \<Longrightarrow> length (snd (read_line s)) < length s"
  using read_line_append [of s] read_line_nonempty [of s]
  by (metis append_Nil2 length_append less_add_same_cancel2 length_greater_0_conv)

text \<open>The client's side: each line of the answer is one reply; a line that does not parse becomes
  an error reply and the loop goes on.\<close>

function read_replies :: "(string \<Rightarrow> string + 'r) \<Rightarrow> (string \<Rightarrow> 'r) \<Rightarrow> string \<Rightarrow> 'r list" where
  "read_replies dec err s =
     (if s = [] then []
      else let (line, rest) = read_line s
           in (case dec (trim line) of Inr r \<Rightarrow> r | Inl e \<Rightarrow> err (''invalid reply: '' @ e))
              # read_replies dec err rest)"
  by pat_completeness auto

termination
  by (relation "measure (\<lambda>(dec, err, s). length s)") (auto dest: read_line_shorter simp: prod_eq_iff)

declare read_replies.simps [simp del]

definition send_request ::
  "(string \<Rightarrow> string + 'r) \<Rightarrow> (string \<Rightarrow> 'r) \<Rightarrow> ('q \<Rightarrow> string) \<Rightarrow> (string \<Rightarrow> string) \<Rightarrow> 'q \<Rightarrow> 'r list" where
  "send_request dec err enc server request = read_replies dec err (server (enc request @ [CHR 0x0A]))"

text \<open>What the transport relies on: the encoder prints one non-blank line without surrounding
  white space (JSON as \<open>serde_json\<close> prints it has neither line feeds nor outer blanks), and the
  decoder reads it back.\<close>

definition line_codec :: "('a \<Rightarrow> string) \<Rightarrow> (string \<Rightarrow> string + 'a) \<Rightarrow> bool" where
  "line_codec enc dec =
     (\<forall>x. CHR 0x0A \<notin> set (enc x) \<and> trim (enc x @ [CHR 0x0A]) = enc x \<and> dec (enc x) = Inr x)"

lemma read_line_line: "CHR 0x0A \<notin> set l \<Longrightarrow> read_line (l @ CHR 0x0A # rest) = (l @ [CHR 0x0A], rest)"
  by (simp add: read_line_def Let_def takeWhile_append2 dropWhile_append2)
     (induction l; auto)

lemma read_replies_line:
  assumes "line_codec enc dec"
  shows "read_replies dec err (respond enc r @ rest) = r # read_replies dec err rest"
proof -
  have "read_line (respond enc r @ rest) = (enc r @ [CHR 0x0A], rest)"
    using assms by (simp add: respond_def line_codec_def read_line_line)
  then show ?thesis
    using assms by (subst read_replies.simps) (simp add: respond_def line_codec_def)
qed

lemma read_replies_all:
  "line_codec enc dec \<Longrightarrow> read_replies dec err (respond_all enc rs) = rs"
  by (induction rs) (simp_all add: respond_all_def read_replies_line, simp add: read_replies.simps)


text \<open>A codec of booleans, for a concrete exchange.\<close>

definition bool_enc :: "bool \<Rightarrow> string" where
  "bool_enc b = (if b then ''true'' else ''false'')"

definition bool_dec :: "string \<Rightarrow> string + bool" where
  "bool_dec s = (if s = ''true'' then Inr True else if s = ''false'' then Inr False else Inl ''expected value'')"

lemma bool_codec: "line_codec bool_enc bool_dec"
proof -
  have "trim (bool_enc b @ [CHR 0x0A]) = bool_enc b" for b
    by (cases b) (simp_all add: bool_enc_def, code_simp+)
  then show ?thesis
    by (auto simp: line_codec_def bool_enc_def bool_dec_def)
qed


end
