(* ===== verification/Stores.thy ===== *)
theory Stores
  imports Protocol Crypt
begin

text \<open>
  Persistent state of the engine: the operating system's credential store
  (\<open>pbsgui-core/src/secrets.rs\<close>), signed files (\<open>pbsgui-core/src/signed.rs\<close>), the job and
  connection stores (\<open>pbsgui-engine/src/jobstore.rs\<close>, \<open>connstore.rs\<close>) and the encryption keys
  (\<open>enckey.rs\<close>).

  The credential store is a map from names to secrets together with the error it reports, if any.
  JSON, base64 and HMAC are parameters (record \<open>signer\<close>); a file is its bytes, and a write either
  replaces them or fails.
\<close>

section \<open>Secrets\<close>

record keyring =
  kr_secrets :: "string \<rightharpoonup> string"
  kr_error :: "string option"

definition secret_set :: "string \<Rightarrow> string \<Rightarrow> keyring \<Rightarrow> (string + unit) \<times> keyring" where
  "secret_set k v kr =
     (case kr_error kr of
        Some e \<Rightarrow> (Err e, kr)
      | None \<Rightarrow> (Ok (), kr \<lparr> kr_secrets := (kr_secrets kr)(k \<mapsto> v) \<rparr>))"

definition secret_get :: "string \<Rightarrow> keyring \<Rightarrow> string + string option" where
  "secret_get k kr = (case kr_error kr of Some e \<Rightarrow> Err e | None \<Rightarrow> Ok (kr_secrets kr k))"

definition secret_delete :: "string \<Rightarrow> keyring \<Rightarrow> (string + unit) \<times> keyring" where
  "secret_delete k kr =
     (case kr_error kr of
        Some e \<Rightarrow> (Err e, kr)
      | None \<Rightarrow> (Ok (), kr \<lparr> kr_secrets := (kr_secrets kr)(k := None) \<rparr>))"


section \<open>Signed files\<close>

record 'a signer =
  sg_print :: "'a \<Rightarrow> string"
  sg_parse :: "bytes \<Rightarrow> string + 'a"
  sg_env_print :: "string \<times> string \<Rightarrow> bytes"
  sg_env_parse :: "bytes \<Rightarrow> string + string \<times> string"
  sg_b64_enc :: "bytes \<Rightarrow> string"
  sg_b64_dec :: "string \<Rightarrow> string + bytes"
  sg_hmac :: "bytes \<Rightarrow> bytes \<Rightarrow> bytes"

definition HMAC_KEY_NAME :: string where
  "HMAC_KEY_NAME = ''store-hmac''"

text \<open>The signing key: cached, else read from the credential store, else generated and stored.\<close>

record key_state =
  ks_cache :: "bytes option"
  ks_keyring :: keyring
  ks_created :: bool

definition signing_key ::
  "'a signer \<Rightarrow> (string + arr32) \<Rightarrow> key_state \<Rightarrow> (string + bytes) \<times> key_state" where
  "signing_key S rnd ks =
     (case ks_cache ks of
        Some key \<Rightarrow> (Ok key, ks)
      | None \<Rightarrow>
          (case secret_get HMAC_KEY_NAME (ks_keyring ks) of
             Inl e \<Rightarrow> (Err e, ks)
           | Inr (Some b64) \<Rightarrow>
               (case sg_b64_dec S b64 of
                  Inl e \<Rightarrow> (Err e, ks)
                | Inr key \<Rightarrow> (Ok key, ks \<lparr> ks_cache := Some key \<rparr>))
           | Inr None \<Rightarrow>
               (case rnd of
                  Inl e \<Rightarrow> (Err e, ks)
                | Inr k \<Rightarrow>
                    let key = arr32_to_bytes k;
                        (r, kr') = secret_set HMAC_KEY_NAME (sg_b64_enc S key) (ks_keyring ks)
                    in (case r of
                          Inl e \<Rightarrow> (Err e, ks \<lparr> ks_keyring := kr' \<rparr>)
                        | Inr _ \<Rightarrow> (Ok key, \<lparr> ks_cache = Some key, ks_keyring = kr', ks_created = True \<rparr>)))))"

definition signed_serialize :: "'a signer \<Rightarrow> (string + bytes) \<Rightarrow> 'a \<Rightarrow> string + bytes" where
  "signed_serialize S key v =
     and_then key (\<lambda>k.
       let data = sg_print S v in
       Ok (sg_env_print S (sg_b64_enc S (sg_hmac S k (bytes_of data)), data)))"

definition signed_deserialize :: "'a signer \<Rightarrow> (string + bytes) \<Rightarrow> bytes \<Rightarrow> string + 'a" where
  "signed_deserialize S key bs =
     (case sg_env_parse S bs of
        Inr (mac, data) \<Rightarrow>
          and_then key (\<lambda>k.
            case sg_b64_dec S mac of
              Inl e \<Rightarrow> Err (''store MAC is not valid base64: '' @ e)
            | Inr expected \<Rightarrow>
                if sg_hmac S k (bytes_of data) = expected then sg_parse S (bytes_of data)
                else Err ''store signature mismatch: corrupt or tampered with'')
      | Inl _ \<Rightarrow> sg_parse S bs)"

text \<open>Reading a file: absent, unreadable, or its bytes.\<close>

datatype file_read = NotFound | Unreadable string | Contents bytes

definition refused_message :: "bool \<Rightarrow> string \<Rightarrow> string \<Rightarrow> string \<Rightarrow> string" where
  "refused_message created account path err =
     ''could not load '' @ path @ '': '' @ err
       @ ''. pbsgui will not change this file until the problem is fixed.''
       @ (if created then
            '' This Windows account ('' @ account @ '') had no pbsgui signing key, which usually means the pbsgui-engine service now runs as a different account from the one that saved the configuration. Set the service to log on as Local System again and restart it to get the configuration back.''
          else [])
       @ '' To discard the file and start empty instead, move it out of the folder and restart the service.''"

definition load_list ::
  "'a list signer \<Rightarrow> (string + bytes) \<Rightarrow> (string \<Rightarrow> string) \<Rightarrow> file_read \<Rightarrow> 'a list \<times> string option" where
  "load_list S key refused f =
     (case f of
        NotFound \<Rightarrow> ([], None)
      | Unreadable e \<Rightarrow> ([], Some (refused e))
      | Contents bs \<Rightarrow>
          (case signed_deserialize S key bs of
             Inr items \<Rightarrow> (items, None)
           | Inl e \<Rightarrow> ([], Some (refused e))))"


section \<open>Stores\<close>

text \<open>A store: the items in memory, why its file could not be loaded, and the file. The job store
  and the connection stores have the same operations over their own item types.\<close>

record 'a json_store =
  js_items :: "'a list"
  js_load_error :: "string option"
  js_file :: file_read

definition with_path ::
  "'a list signer \<Rightarrow> (string + bytes) \<Rightarrow> (string \<Rightarrow> string) \<Rightarrow> file_read \<Rightarrow> 'a json_store" where
  "with_path S key refused f =
     (let (items, e) = load_list S key refused f
      in \<lparr> js_items = items, js_load_error = e, js_file = f \<rparr>)"

definition ensure_writable :: "'a json_store \<Rightarrow> string + unit" where
  "ensure_writable st = (case js_load_error st of Some e \<Rightarrow> Err e | None \<Rightarrow> Ok ())"

fun upsert :: "('a \<Rightarrow> string) \<Rightarrow> 'a \<Rightarrow> 'a list \<Rightarrow> 'a list" where
  "upsert ident x [] = [x]"
| "upsert ident x (y # ys) = (if ident y = ident x then x # ys else y # upsert ident x ys)"

definition js_get :: "('a \<Rightarrow> string) \<Rightarrow> 'a json_store \<Rightarrow> string \<Rightarrow> 'a option" where
  "js_get ident st k = List.find (\<lambda>i. ident i = k) (js_items st)"

text \<open>The environment of a write: the signer, the signing key, and the outcome of the atomic write
  of the file (an error leaves the old file in place).\<close>

record 'a writer =
  wr_signer :: "'a list signer"
  wr_key :: "string + bytes"
  wr_io :: "string option"

definition persist :: "'a writer \<Rightarrow> 'a json_store \<Rightarrow> (string + unit) \<times> 'a json_store" where
  "persist w st =
     (case ensure_writable st of
        Inl e \<Rightarrow> (Err e, st)
      | Inr _ \<Rightarrow>
          (case signed_serialize (wr_signer w) (wr_key w) (js_items st) of
             Inl e \<Rightarrow> (Err e, st)
           | Inr bs \<Rightarrow>
               (case wr_io w of
                  Some e \<Rightarrow> (Err e, st)
                | None \<Rightarrow> (Ok (), st \<lparr> js_file := Contents bs \<rparr>))))"

definition js_save :: "('a \<Rightarrow> string) \<Rightarrow> 'a writer \<Rightarrow> 'a \<Rightarrow> 'a json_store \<Rightarrow> (string + unit) \<times> 'a json_store" where
  "js_save ident w item st =
     (case ensure_writable st of
        Inl e \<Rightarrow> (Err e, st)
      | Inr _ \<Rightarrow> persist w (st \<lparr> js_items := upsert ident item (js_items st) \<rparr>))"

definition js_delete :: "('a \<Rightarrow> string) \<Rightarrow> 'a writer \<Rightarrow> string \<Rightarrow> 'a json_store \<Rightarrow> (string + unit) \<times> 'a json_store" where
  "js_delete ident w k st =
     (case ensure_writable st of
        Inl e \<Rightarrow> (Err e, st)
      | Inr _ \<Rightarrow> persist w (st \<lparr> js_items := filter (\<lambda>i. ident i \<noteq> k) (js_items st) \<rparr>))"

text \<open>The job store adds the record of a run.\<close>

definition save_job :: "Job writer \<Rightarrow> Job \<Rightarrow> Job json_store \<Rightarrow> (string + unit) \<times> Job json_store" where
  "save_job w job st = js_save j_id w job st"

definition delete_job :: "Job writer \<Rightarrow> string \<Rightarrow> Job json_store \<Rightarrow> (string + unit) \<times> Job json_store" where
  "delete_job w k st = js_delete j_id w k st"

definition get_job :: "Job json_store \<Rightarrow> string \<Rightarrow> Job option" where
  "get_job st k = js_get j_id st k"

fun update_first :: "('a \<Rightarrow> bool) \<Rightarrow> ('a \<Rightarrow> 'a) \<Rightarrow> 'a list \<Rightarrow> 'a list" where
  "update_first P f [] = []"
| "update_first P f (x # xs) = (if P x then f x # xs else x # update_first P f xs)"

definition record_run ::
  "Job writer \<Rightarrow> string \<Rightarrow> i64 \<Rightarrow> string \<Rightarrow> Job json_store \<Rightarrow> (string + unit) \<times> Job json_store" where
  "record_run w k t status st =
     (case ensure_writable st of
        Inl e \<Rightarrow> (Err e, st)
      | Inr _ \<Rightarrow>
          persist w (st \<lparr> js_items := update_first (\<lambda>j. j_id j = k)
            (\<lambda>j. j \<lparr> j_last_run := Some t, j_last_status := Some status \<rparr>) (js_items st) \<rparr>))"

definition sql_secret_key :: "string \<Rightarrow> string" where
  "sql_secret_key i = ''sql:'' @ i"

definition pbs_secret_key :: "string \<Rightarrow> string" where
  "pbs_secret_key i = ''pbs:'' @ i"


section \<open>Encryption keys\<close>

definition enc_secret_key :: "string \<Rightarrow> string" where
  "enc_secret_key job_id = ''enc:'' @ job_id"

definition decode_key :: "'a signer \<Rightarrow> string \<Rightarrow> string + arr32" where
  "decode_key S b64 =
     (case sg_b64_dec S (trim b64) of
        Inl e \<Rightarrow> Err (''the key is not valid base64: '' @ e)
      | Inr bs \<Rightarrow>
          if length bs = 32 then Ok (arr32_of_bytes bs)
          else Err (''a key must be 32 bytes; got '' @ show_nat (length bs)))"

definition colon_hex :: "bytes \<Rightarrow> string" where
  "colon_hex bs = join_with '':'' (map (\<lambda>b. hex_fixed 2 (unat b)) bs)"

definition info_from_key :: "'a signer \<Rightarrow> libs \<Rightarrow> arr32 \<Rightarrow> EncryptionKeyInfo" where
  "info_from_key S L key =
     \<lparr> ek_key = sg_b64_enc S (arr32_to_bytes key),
       ek_fingerprint = colon_hex (arr32_to_bytes (fingerprint L (crypt_new L key))) \<rparr>"

definition store_key :: "'a signer \<Rightarrow> string \<Rightarrow> arr32 \<Rightarrow> keyring \<Rightarrow> (string + unit) \<times> keyring" where
  "store_key S job key = secret_set (enc_secret_key job) (sg_b64_enc S (arr32_to_bytes key))"

definition generate ::
  "'a signer \<Rightarrow> libs \<Rightarrow> (string + arr32) \<Rightarrow> string \<Rightarrow> keyring \<Rightarrow> (string + EncryptionKeyInfo) \<times> keyring" where
  "generate S L rnd job kr =
     (case secret_get (enc_secret_key job) kr of
        Inl e \<Rightarrow> (Err e, kr)
      | Inr (Some _) \<Rightarrow>
          (Err ''this job already has an encryption key; clear it first to replace it'', kr)
      | Inr None \<Rightarrow>
          (case rnd of
             Inl e \<Rightarrow> (Err e, kr)
           | Inr key \<Rightarrow>
               let (r, kr') = store_key S job key kr
               in (and_then r (\<lambda>_. Ok (info_from_key S L key)), kr')))"

definition import_key ::
  "'a signer \<Rightarrow> libs \<Rightarrow> string \<Rightarrow> string \<Rightarrow> keyring \<Rightarrow> (string + EncryptionKeyInfo) \<times> keyring" where
  "import_key S L job b64 kr =
     (case decode_key S b64 of
        Inl e \<Rightarrow> (Err e, kr)
      | Inr key \<Rightarrow>
          let (r, kr') = store_key S job key kr
          in (and_then r (\<lambda>_. Ok (info_from_key S L key)), kr'))"

definition get_key :: "'a signer \<Rightarrow> libs \<Rightarrow> string \<Rightarrow> keyring \<Rightarrow> string + EncryptionKeyInfo option" where
  "get_key S L job kr =
     and_then (secret_get (enc_secret_key job) kr) (\<lambda>v.
       case v of
         None \<Rightarrow> Ok None
       | Some b64 \<Rightarrow>
           and_then (decode_key S b64) (\<lambda>key. Ok (Some ((info_from_key S L key) \<lparr> ek_key := [] \<rparr>))))"

definition clear_key :: "string \<Rightarrow> keyring \<Rightarrow> (string + unit) \<times> keyring" where
  "clear_key job = secret_delete (enc_secret_key job)"

definition load_config :: "'a signer \<Rightarrow> libs \<Rightarrow> string \<Rightarrow> keyring \<Rightarrow> string + CryptConfig option" where
  "load_config S L job kr =
     and_then (secret_get (enc_secret_key job) kr) (\<lambda>v.
       case v of
         None \<Rightarrow> Ok None
       | Some b64 \<Rightarrow> and_then (decode_key S b64) (\<lambda>key. Ok (Some (crypt_new L key))))"

definition for_job :: "'a signer \<Rightarrow> libs \<Rightarrow> Job \<Rightarrow> keyring \<Rightarrow> string + CryptConfig option" where
  "for_job S L job kr =
     (if \<not> j_encrypted job then Ok None
      else and_then (load_config S L (j_id job) kr) (\<lambda>c.
             case c of
               Some cfg \<Rightarrow> Ok (Some cfg)
             | None \<Rightarrow> Err ''job is marked encrypted but its key is not stored''))"


section \<open>The interface of a keyed store\<close>

text \<open>What the clients of a store rely on: look-ups see the items by their key, a change reaches
  memory only in a writable store, and a read-only store refuses every change.\<close>

locale keyed_store =
  fixes ident :: "'i \<Rightarrow> string"
    and items :: "'s \<Rightarrow> 'i list"
    and writable :: "'s \<Rightarrow> bool"
    and get :: "'s \<Rightarrow> string \<Rightarrow> 'i option"
    and save :: "'w \<Rightarrow> 'i \<Rightarrow> 's \<Rightarrow> (string + unit) \<times> 's"
    and delete :: "'w \<Rightarrow> string \<Rightarrow> 's \<Rightarrow> (string + unit) \<times> 's"
  assumes get_items: "get s k = List.find (\<lambda>i. ident i = k) (items s)"
    and save_items: "writable s \<Longrightarrow> items (snd (save w i s)) = upsert ident i (items s)"
    and delete_items: "writable s \<Longrightarrow> items (snd (delete w k s)) = filter (\<lambda>i. ident i \<noteq> k) (items s)"
    and save_refused: "\<not> writable s \<Longrightarrow> snd (save w i s) = s \<and> \<not> is_ok (fst (save w i s))"
    and delete_refused: "\<not> writable s \<Longrightarrow> snd (delete w k s) = s \<and> \<not> is_ok (fst (delete w k s))"
begin

lemma find_upsert:
  "List.find (\<lambda>i. ident i = k) (upsert ident x xs) =
     (if k = ident x then Some x else List.find (\<lambda>i. ident i = k) xs)"
  by (induction xs) auto

lemma find_filter:
  "List.find (\<lambda>i. ident i = k) (filter (\<lambda>i. ident i \<noteq> k') xs) =
     (if k = k' then None else List.find (\<lambda>i. ident i = k) xs)"
  by (induction xs) auto

lemma get_save: "writable s \<Longrightarrow> get (snd (save w i s)) = (get s)(ident i \<mapsto> i)"
  by (rule ext) (simp add: get_items save_items find_upsert)

lemma get_delete: "writable s \<Longrightarrow> get (snd (delete w k s)) = (get s)(k := None)"
  by (rule ext) (simp add: get_items delete_items find_filter)

lemma upsert_ids: "set (map ident (upsert ident x xs)) = insert (ident x) (set (map ident xs))"
  by (induction xs) auto

lemma save_distinct:
  assumes "writable s" "distinct (map ident (items s))"
  shows "distinct (map ident (items (snd (save w i s))))"
proof -
  have "distinct (map ident (upsert ident i xs))" if "distinct (map ident xs)" for xs
    using that
  proof (induction xs)
    case (Cons x xs)
    then show ?case
      using upsert_ids [of i xs] by auto
  qed simp
  with assms show ?thesis
    by (simp add: save_items)
qed

lemma delete_distinct:
  "writable s \<Longrightarrow> distinct (map ident (items s)) \<Longrightarrow> distinct (map ident (items (snd (delete w k s))))"
  by (simp add: delete_items distinct_map_filter)

end

lemma persist_items [simp]:
  "js_items (snd (persist w st)) = js_items st" "js_load_error (snd (persist w st)) = js_load_error st"
  by (simp_all add: persist_def ensure_writable_def split: option.splits sum.splits)

interpretation json_store: keyed_store ident js_items "\<lambda>st. js_load_error st = None" "js_get ident"
  "js_save ident" "js_delete ident" for ident :: "'a \<Rightarrow> string"
  by unfold_locales
     (auto simp: js_get_def js_save_def js_delete_def ensure_writable_def split: option.splits)

interpretation job_store: keyed_store j_id js_items "\<lambda>st. js_load_error st = None" get_job save_job delete_job
  by unfold_locales
     (auto simp: get_job_def save_job_def delete_job_def js_get_def js_save_def js_delete_def
       ensure_writable_def split: option.splits)

lemma find_update_first:
  assumes "\<And>j. j_id (f j) = j_id j"
  shows "List.find (\<lambda>j. j_id j = k) (update_first (\<lambda>j. j_id j = k') f xs) =
    (if k = k' then map_option f (List.find (\<lambda>j. j_id j = k) xs) else List.find (\<lambda>j. j_id j = k) xs)"
  by (induction xs) (auto simp: assms)

lemma update_first_ids:
  assumes "\<And>j. j_id (f j) = j_id j"
  shows "map j_id (update_first P f xs) = map j_id xs"
  by (induction xs) (auto simp: assms)

text \<open>C22: The job store implements a map from job ids to jobs. In a store whose file could be
  loaded, saving, deleting and recording a run change the look-ups exactly as the map operations
  do and keep the ids distinct, whether or not the write of the file succeeds; in a store whose
  file could not be loaded every change is refused with the load error and neither memory nor the
  file changes.\<close>

theorem job_store_refines_map:
  "(js_load_error st = None \<longrightarrow>
      get_job (snd (save_job w job st)) = (get_job st)(j_id job \<mapsto> job) \<and>
      get_job (snd (delete_job w k st)) = (get_job st)(k := None) \<and>
      get_job (snd (record_run w k t msg st)) =
        (get_job st)(k := map_option (\<lambda>j. j \<lparr> j_last_run := Some t, j_last_status := Some msg \<rparr>)
           (get_job st k)) \<and>
      (distinct (map j_id (js_items st)) \<longrightarrow>
         distinct (map j_id (js_items (snd (save_job w job st)))) \<and>
         distinct (map j_id (js_items (snd (delete_job w k st)))) \<and>
         distinct (map j_id (js_items (snd (record_run w k t msg st)))))) \<and>
   (js_load_error st = Some e \<longrightarrow>
      save_job w job st = (Err e, st) \<and> delete_job w k st = (Err e, st) \<and>
      record_run w k t msg st = (Err e, st))"
proof (intro conjI impI)
  assume ok: "js_load_error st = None"
  show "get_job (snd (save_job w job st)) = (get_job st)(j_id job \<mapsto> job)"
    "get_job (snd (delete_job w k st)) = (get_job st)(k := None)"
    using ok by (rule job_store.get_save, rule job_store.get_delete)
  show "get_job (snd (record_run w k t msg st)) =
        (get_job st)(k := map_option (\<lambda>j. j \<lparr> j_last_run := Some t, j_last_status := Some msg \<rparr>)
           (get_job st k))"
    using ok by (intro ext)
      (simp add: get_job_def js_get_def record_run_def ensure_writable_def find_update_first)
  assume d: "distinct (map j_id (js_items st))"
  show "distinct (map j_id (js_items (snd (save_job w job st))))"
    "distinct (map j_id (js_items (snd (delete_job w k st))))"
    using ok d by (rule job_store.save_distinct, rule job_store.delete_distinct)
  show "distinct (map j_id (js_items (snd (record_run w k t msg st))))"
    using ok d by (simp add: record_run_def ensure_writable_def update_first_ids)
next
  assume "js_load_error st = Some e"
  then show "save_job w job st = (Err e, st)" "delete_job w k st = (Err e, st)"
    "record_run w k t msg st = (Err e, st)"
    by (simp_all add: save_job_def delete_job_def record_run_def js_save_def js_delete_def ensure_writable_def)
qed

definition demo_job :: Job where
  "demo_job =
     \<lparr> j_id = ''a'', j_name = ''files'', j_source = Files [''/srv''] [] False,
       j_destination = Folder ''/mnt'', j_schedule = Daily 2 0, j_last_run = None,
       j_last_status = None, j_encrypted = True, j_compress = True \<rparr>"

definition demo_store :: "Job json_store" where
  "demo_store = \<lparr> js_items = [demo_job], js_load_error = None, js_file = NotFound \<rparr>"

definition demo_signer :: "bool list signer" where
  "demo_signer =
     \<lparr> sg_print = map (\<lambda>b. if b then CHR ''t'' else CHR ''f''),
       sg_parse = (\<lambda>bs. Inr (map (\<lambda>b. b = 116) bs)),
       sg_env_print = (\<lambda>(m, d). of_nat (length m) # bytes_of m @ bytes_of d),
       sg_env_parse = (\<lambda>bs. case bs of [] \<Rightarrow> Inl ''empty''
          | n # r \<Rightarrow> Inr (text_of (take (unat n) r), text_of (drop (unat n) r))),
       sg_b64_enc = (\<lambda>bs. concat (map (\<lambda>b. hex_fixed 2 (unat b)) bs)),
       sg_b64_dec = demo_unhex,
       sg_hmac = (\<lambda>k d. [of_nat (length k + length d)]) \<rparr>"

theorem job_store_refines_map_witness:
  "get_job (snd (record_run (\<lparr> wr_signer = undefined, wr_key = Inl ''locked'', wr_io = None \<rparr>)
      ''a'' 5 ''ok'' demo_store)) ''a'' = Some (demo_job \<lparr> j_last_run := Some 5, j_last_status := Some ''ok'' \<rparr>)"
  using job_store_refines_map [of demo_store _ _ "''a''"]
  by (simp add: demo_store_def get_job_def js_get_def demo_job_def)


section \<open>Signed files and keys\<close>

text \<open>What the signed files rely on: the JSON printer of a value and of an envelope, and base64, are
  read back.\<close>

definition signer_laws :: "'a signer \<Rightarrow> 'a \<Rightarrow> bytes \<Rightarrow> bool" where
  "signer_laws S v key =
     (sg_parse S (bytes_of (sg_print S v)) = Inr v \<and>
      (let m = sg_b64_enc S (sg_hmac S key (bytes_of (sg_print S v)))
       in sg_env_parse S (sg_env_print S (m, sg_print S v)) = Inr (m, sg_print S v) \<and>
          sg_b64_dec S m = Inr (sg_hmac S key (bytes_of (sg_print S v)))))"

lemma signed_roundtrip:
  assumes "signer_laws S v k" "signed_serialize S (Ok k) v = Ok bs"
  shows "signed_deserialize S (Ok k) bs = Ok v"
  using assms by (auto simp: signed_serialize_def signed_deserialize_def signer_laws_def Let_def)

lemma persist_Ok:
  assumes "persist w st = (Ok u, st')"
  shows "\<exists>bs. signed_serialize (wr_signer w) (wr_key w) (js_items st) = Ok bs \<and>
    st' = st \<lparr> js_file := Contents bs \<rparr> \<and> js_load_error st = None"
  using assms by (auto simp: persist_def ensure_writable_def split: option.splits sum.splits)

lemma signed_serialize_key: "signed_serialize S k v = Ok bs \<Longrightarrow> \<exists>key. k = Ok key"
  by (auto simp: signed_serialize_def)

text \<open>Saved state survives a restart and forged state is refused. When a save or a delete
  reports success, loading the file it wrote gives back exactly the items in memory, in order and
  without an error; when it reports failure, the file is as it was. And a file that parses as a
  signed envelope is accepted only with the HMAC of its data under the signing key.\<close>

theorem store_survives_restart:
  fixes ident :: "'a \<Rightarrow> string"
  assumes "(r, st') = js_save ident w item st \<or> (r, st') = js_delete ident w k st"
    and "\<And>key. wr_key w = Ok key \<Longrightarrow> signer_laws (wr_signer w) (js_items st') key"
  shows "(r = Ok () \<longrightarrow>
      with_path (wr_signer w) (wr_key w) refused (js_file st') =
        \<lparr> js_items = js_items st', js_load_error = None, js_file = js_file st' \<rparr>) \<and>
    (r \<noteq> Ok () \<longrightarrow> js_file st' = js_file st) \<and>
    (sg_env_parse (wr_signer w) bs = Inr (mac, data) \<longrightarrow>
     signed_deserialize (wr_signer w) (wr_key w) bs = Ok v \<longrightarrow>
     (\<exists>key. wr_key w = Ok key \<and>
        sg_b64_dec (wr_signer w) mac = Inr (sg_hmac (wr_signer w) key (bytes_of data))))"
proof (intro conjI impI)
  assume r: "r = Ok ()"
  then obtain st0 where p: "persist w st0 = (Ok (), st')"
    using assms(1) by (auto simp: js_save_def js_delete_def split: sum.splits)
  from persist_Ok [OF p] obtain bs where
    bs: "signed_serialize (wr_signer w) (wr_key w) (js_items st0) = Ok bs"
    "st' = st0 \<lparr> js_file := Contents bs \<rparr>" by blast
  then obtain key where key: "wr_key w = Ok key"
    using signed_serialize_key [OF bs(1)] by blast
  have "signed_deserialize (wr_signer w) (Ok key) bs = Ok (js_items st')"
    using signed_roundtrip [OF assms(2) [OF key]] bs key by simp
  then show "with_path (wr_signer w) (wr_key w) refused (js_file st') =
        \<lparr> js_items = js_items st', js_load_error = None, js_file = js_file st' \<rparr>"
    using bs(2) key by (simp add: with_path_def load_list_def)
next
  assume "r \<noteq> Ok ()"
  then show "js_file st' = js_file st"
    using assms(1) by (auto simp: js_save_def js_delete_def persist_def split: sum.splits option.splits)
next
  assume "sg_env_parse (wr_signer w) bs = Inr (mac, data)"
    "signed_deserialize (wr_signer w) (wr_key w) bs = Ok v"
  then show "\<exists>key. wr_key w = Ok key \<and>
        sg_b64_dec (wr_signer w) mac = Inr (sg_hmac (wr_signer w) key (bytes_of data))"
    by (cases "sg_b64_dec (wr_signer w) mac") (auto simp: signed_deserialize_def split: if_splits)
qed

definition demo_writer :: "bool writer" where
  "demo_writer = \<lparr> wr_signer = demo_signer, wr_key = Ok [1, 2, 3], wr_io = None \<rparr>"

theorem store_survives_restart_witness:
  "\<exists>st'. js_save bool_enc demo_writer False \<lparr> js_items = [True], js_load_error = None, js_file = NotFound \<rparr>
       = (Ok (), st') \<and>
     with_path demo_signer (Ok [1, 2, 3]) id (js_file st') =
       \<lparr> js_items = [True, False], js_load_error = None, js_file = js_file st' \<rparr>"
proof -
  let ?st = "\<lparr> js_items = [True], js_load_error = None, js_file = NotFound \<rparr> :: bool json_store"
  let ?run = "js_save bool_enc demo_writer False ?st"
  have e: "fst ?run = Ok () \<and> js_items (snd ?run) = [True, False] \<and>
      signer_laws demo_signer [True, False] [1, 2, 3]"
    by code_simp
  then have "signer_laws (wr_signer demo_writer) (js_items (snd ?run)) key" if "wr_key demo_writer = Ok key" for key
    using that by (auto simp: demo_writer_def)
  from store_survives_restart [of "fst ?run" "snd ?run" bool_enc demo_writer False ?st "[]" id, OF _ this]
  have "with_path demo_signer (Ok [1, 2, 3]) id (js_file (snd ?run)) =
       \<lparr> js_items = [True, False], js_load_error = None, js_file = js_file (snd ?run) \<rparr>"
    using e by (simp add: demo_writer_def)
  with e show ?thesis
    by (intro exI [of _ "snd ?run"]) (simp add: prod_eq_iff)
qed

definition b64_laws :: "'a signer \<Rightarrow> bool" where
  "b64_laws S = (\<forall>bs. sg_b64_dec S (sg_b64_enc S bs) = Inr bs \<and> trim (sg_b64_enc S bs) = sg_b64_enc S bs)"

lemma decode_key_enc: "b64_laws S \<Longrightarrow> decode_key S (sg_b64_enc S (arr32_to_bytes k)) = Ok k"
  by (simp add: decode_key_def b64_laws_def)

lemma store_key_effect:
  assumes "b64_laws S" "store_key S job key kr = (Ok u, kr')"
  shows "load_config S L job kr' = Ok (Some (crypt_new L key))"
    and "get_key S L job kr' = Ok (Some ((info_from_key S L key) \<lparr> ek_key := [] \<rparr>))"
    and "\<forall>k. k \<noteq> enc_secret_key job \<longrightarrow> kr_secrets kr' k = kr_secrets kr k"
  using assms by (auto simp: store_key_def secret_set_def load_config_def get_key_def secret_get_def
      decode_key_enc split: option.splits)


lemma demo_unhex_lower: "demo_unhex (concat (map (\<lambda>b. hex_fixed 2 (unat b)) bs)) = Inr bs"
proof (induction bs)
  case (Cons b bs)
  have "unat b < 256"
    using unsigned_less [of b] by simp
  then have "hex_value (hex_digit (unat b div 16)) = Some (unat b div 16)"
    "hex_value (hex_digit (unat b mod 16)) = Some (unat b mod 16)"
    by (auto intro: hex_value_digit)
  moreover have "hex_fixed 2 (unat b) = [hex_digit (unat b div 16), hex_digit (unat b mod 16)]"
    using \<open>unat b < 256\<close> by (simp add: numeral_2_eq_2)
  moreover have "(of_nat (16 * (unat b div 16) + unat b mod 16) :: byte) = b"
    by (simp only: mult_div_mod_eq) simp
  ultimately show ?case
    using Cons by (simp del: of_nat_add of_nat_mult)
qed simp

lemma demo_b64_laws: "b64_laws demo_signer"
proof -
  have "\<not> is_ws c" if "c \<in> set (concat (map (\<lambda>b. hex_fixed 2 (unat b)) bs))" for c and bs :: bytes
  proof -
    from that obtain d where "d < 16" "c = hex_digit d"
      by (auto simp: numeral_2_eq_2) (metis mod_less_divisor zero_less_numeral)+
    then show ?thesis
      by (auto simp: is_ws_def of_char_hex_digit dest!: arg_cong [of _ _ "of_char :: char \<Rightarrow> nat"])
  qed
  then show ?thesis
    by (simp add: b64_laws_def demo_signer_def demo_unhex_lower trim_no_ws)
qed


end
