(* ===== verification/SqlSched.thy ===== *)
theory SqlSched
  imports Protocol
begin

text \<open>
  The timing state of SQL jobs (\<open>pbsgui-engine/src/sqlsched.rs\<close>): when the last full and log
  backups ran or were attempted, and since when a database has had no log chain. One file per
  job; a missing or unreadable file reads as the default, and a write that fails is ignored, so
  the disk is a map of readable states with a flag that says whether writes succeed.
\<close>

record State =
  st_full :: "i64 option"
  st_log :: "i64 option"
  st_full_attempt :: "i64 option"
  st_log_attempt :: "i64 option"
  st_no_chain_since :: "string \<rightharpoonup> i64"

record sched_disk =
  sd_files :: "string \<rightharpoonup> State"
  sd_writable :: bool

definition state_default :: State where
  "state_default =
     \<lparr> st_full = None, st_log = None, st_full_attempt = None, st_log_attempt = None,
       st_no_chain_since = Map.empty \<rparr>"

definition load :: "sched_disk \<Rightarrow> string \<Rightarrow> State" where
  "load d job = (case sd_files d job of None \<Rightarrow> state_default | Some s \<Rightarrow> s)"

definition store :: "string \<Rightarrow> State \<Rightarrow> sched_disk \<Rightarrow> sched_disk" where
  "store job s d = (if sd_writable d then d \<lparr> sd_files := (sd_files d)(job \<mapsto> s) \<rparr> else d)"

definition or_else :: "'a option \<Rightarrow> 'a option \<Rightarrow> 'a option" where
  "or_else x y = (case x of None \<Rightarrow> y | Some _ \<Rightarrow> x)"

definition last_full :: "sched_disk \<Rightarrow> string \<Rightarrow> i64 option" where
  "last_full d job = st_full (load d job)"

definition last_full_attempt :: "sched_disk \<Rightarrow> string \<Rightarrow> i64 option" where
  "last_full_attempt d job = (let s = load d job in or_else (st_full_attempt s) (st_full s))"

definition last_log_attempt :: "sched_disk \<Rightarrow> string \<Rightarrow> i64 option" where
  "last_log_attempt d job = (let s = load d job in or_else (st_log_attempt s) (st_log s))"

definition record_full :: "string \<Rightarrow> i64 \<Rightarrow> sched_disk \<Rightarrow> sched_disk" where
  "record_full job t d =
     store job ((load d job) \<lparr> st_full := Some t, st_log := Some t, st_full_attempt := Some t,
                               st_log_attempt := Some t \<rparr>) d"

definition record_log :: "string \<Rightarrow> i64 \<Rightarrow> sched_disk \<Rightarrow> sched_disk" where
  "record_log job t d = store job ((load d job) \<lparr> st_log := Some t, st_log_attempt := Some t \<rparr>) d"

definition note_no_chain :: "string \<Rightarrow> string \<Rightarrow> i64 \<Rightarrow> sched_disk \<Rightarrow> i64 \<times> sched_disk" where
  "note_no_chain job db now d =
     (let s = load d job;
          since = (case st_no_chain_since s db of None \<Rightarrow> now | Some t \<Rightarrow> t)
      in (since, store job (s \<lparr> st_no_chain_since := (st_no_chain_since s)(db \<mapsto> since) \<rparr>) d))"

definition clear_no_chain :: "string \<Rightarrow> string \<Rightarrow> sched_disk \<Rightarrow> sched_disk" where
  "clear_no_chain job db d =
     (let s = load d job in
      if st_no_chain_since s db = None then d
      else store job (s \<lparr> st_no_chain_since := (st_no_chain_since s)(db := None) \<rparr>) d)"

definition record_full_attempt :: "string \<Rightarrow> i64 \<Rightarrow> sched_disk \<Rightarrow> sched_disk" where
  "record_full_attempt job t d = store job ((load d job) \<lparr> st_full_attempt := Some t \<rparr>) d"

definition record_log_attempt :: "string \<Rightarrow> i64 \<Rightarrow> sched_disk \<Rightarrow> sched_disk" where
  "record_log_attempt job t d = store job ((load d job) \<lparr> st_log_attempt := Some t \<rparr>) d"

lemmas sched_defs = last_full_def last_full_attempt_def last_log_attempt_def record_full_def
  record_log_def note_no_chain_def clear_no_chain_def record_full_attempt_def record_log_attempt_def
  Let_def

lemma load_store: "sd_writable d \<Longrightarrow> load (store job s d) job' = (if job' = job then s else load d job')"
  by (simp add: load_def store_def)

lemma store_writable [simp]: "sd_writable (store job s d) = sd_writable d"
  by (simp add: store_def)

lemma or_else_simps [simp]: "or_else (Some x) y = Some x" "or_else None y = y"
  by (simp_all add: or_else_def)

lemma load_other: "job' \<noteq> job \<Longrightarrow> load (store job s d) job' = load d job'"
  by (simp add: load_def store_def)

end
