(* ===== verification/Scheduler.thy ===== *)
theory Scheduler
  imports SqlSched
begin

text \<open>
  The scheduler's decisions (\<open>pbsgui-engine/src/scheduler.rs\<close>): when a schedule is due, which
  kind of SQL backup is due, the validation of schedules, and the repetition of stall warnings.

  Unix times are 64-bit words read as signed integers; the differences the code takes wrap. The
  calendar and the time zone belong to the \<open>chrono\<close> library and the operating system: a record of
  the functions the code calls, with dates as day numbers, is a parameter. Its laws
  (\<open>calendar_laws\<close>, \<open>zone_laws\<close>) state the documented behaviour for an unbounded range of dates.
\<close>

section \<open>The calendar\<close>

datatype LocalResult = LNone | LSingle i64 | LAmbiguous i64 i64

record calendar =
  cal_today :: "i64 \<Rightarrow> int option"
  cal_sub_days :: "int \<Rightarrow> nat \<Rightarrow> int option"
  cal_weekday :: "int \<Rightarrow> nat"
  cal_year :: "int \<Rightarrow> int"
  cal_month :: "int \<Rightarrow> nat"
  cal_day :: "int \<Rightarrow> nat"
  cal_from_ymd :: "int \<Rightarrow> nat \<Rightarrow> nat \<Rightarrow> int option"
  cal_pred :: "int \<Rightarrow> int option"
  cal_local :: "int \<Rightarrow> nat \<Rightarrow> nat \<Rightarrow> LocalResult"

definition next_first :: "calendar \<Rightarrow> int \<Rightarrow> int option" where
  "next_first C date =
     (let y = cal_year C date; m = cal_month C date in
      if m = 12 then cal_from_ymd C (y + 1) 1 1 else cal_from_ymd C y (m + 1) 1)"

definition days_in_month :: "calendar \<Rightarrow> int \<Rightarrow> nat" where
  "days_in_month C date =
     (case Option.bind (next_first C date) (cal_pred C) of Some d \<Rightarrow> cal_day C d | None \<Rightarrow> 28)"

definition local_unix :: "calendar \<Rightarrow> int \<Rightarrow> byte \<Rightarrow> byte \<Rightarrow> i64 option" where
  "local_unix C date hour minute =
     (let h = unat hour; m = unat minute in
      if h < 24 \<and> m < 60 then
        (case cal_local C date h m of
           LSingle t \<Rightarrow> Some t
         | LAmbiguous first _ \<Rightarrow> Some first
         | LNone \<Rightarrow>
             (case (if h = 23 then cal_local C (date + 1) 0 m else cal_local C date (h + 1) m) of
                LSingle t \<Rightarrow> Some t
              | LAmbiguous first _ \<Rightarrow> Some first
              | LNone \<Rightarrow> None))
      else None)"


section \<open>Due times\<close>

fun runs_on :: "calendar \<Rightarrow> Schedule \<Rightarrow> int \<Rightarrow> bool" where
  "runs_on C (Daily h m) date = True"
| "runs_on C (Weekly days h m) date = (of_nat (cal_weekday C date) \<in> set days)"
| "runs_on C (Monthly day h m) date = (cal_day C date = min (unat day) (days_in_month C date))"
| "runs_on C _ date = False"

fun time_of_day :: "Schedule \<Rightarrow> (byte \<times> byte) option" where
  "time_of_day (Daily h m) = Some (h, m)"
| "time_of_day (Weekly days h m) = Some (h, m)"
| "time_of_day (Monthly day h m) = Some (h, m)"
| "time_of_day _ = None"

fun occurrence_scan ::
  "calendar \<Rightarrow> Schedule \<Rightarrow> byte \<Rightarrow> byte \<Rightarrow> i64 \<Rightarrow> int \<Rightarrow> nat list \<Rightarrow> (i64 \<times> bool) option" where
  "occurrence_scan C s h m now today [] = None"
| "occurrence_scan C s h m now today (back # rest) =
     (case cal_sub_days C today back of
        None \<Rightarrow> None
      | Some date \<Rightarrow>
          if \<not> runs_on C s date then occurrence_scan C s h m now today rest
          else (case local_unix C date h m of
                  None \<Rightarrow> None
                | Some t \<Rightarrow>
                    if sint t \<le> sint now then Some (t, back = 0)
                    else occurrence_scan C s h m now today rest))"

definition latest_occurrence :: "calendar \<Rightarrow> Schedule \<Rightarrow> i64 \<Rightarrow> (i64 \<times> bool) option" where
  "latest_occurrence C s now =
     (case time_of_day s of
        None \<Rightarrow> None
      | Some (h, m) \<Rightarrow>
          (case cal_today C now of
             None \<Rightarrow> None
           | Some today \<Rightarrow> occurrence_scan C s h m now today [0..<63]))"

definition interval_secs :: "u32 \<Rightarrow> int" where
  "interval_secs minutes = max 1 (uint minutes) * 60"

fun schedule_due :: "calendar \<Rightarrow> Schedule \<Rightarrow> i64 option \<Rightarrow> i64 \<Rightarrow> bool" where
  "schedule_due C Manual prev now = False"
| "schedule_due C (Interval minutes) prev now =
     (case prev of None \<Rightarrow> True | Some l \<Rightarrow> interval_secs minutes \<le> sint (now - l))"
| "schedule_due C s prev now =
     (case latest_occurrence C s now of
        None \<Rightarrow> False
      | Some (t, today) \<Rightarrow> (case prev of None \<Rightarrow> today | Some l \<Rightarrow> sint l < sint t))"

definition log_due :: "i64 option \<Rightarrow> u32 \<Rightarrow> i64 \<Rightarrow> bool" where
  "log_due baseline minutes now =
     (case baseline of None \<Rightarrow> True | Some b \<Rightarrow> interval_secs minutes \<le> sint (now - b))"

datatype SqlRun = RunFull | RunLog

fun sql_due_kind :: "calendar \<Rightarrow> sched_disk \<Rightarrow> string \<Rightarrow> SqlProtection \<Rightarrow> i64 \<Rightarrow> SqlRun option" where
  "sql_due_kind C d job (PointInTime full minutes) now =
     (if schedule_due C full (last_full_attempt d job) now then Some RunFull
      else if log_due (or_else (last_log_attempt d job) (last_full d job)) minutes now then Some RunLog
      else None)"
| "sql_due_kind C d job (DailyRestorePoints schedule) now =
     (if schedule_due C schedule (last_full_attempt d job) now then Some RunFull else None)"
| "sql_due_kind C d job (SecondaryCopy schedule) now =
     (if schedule_due C schedule (last_full_attempt d job) now then Some RunFull else None)"

definition due_kind :: "calendar \<Rightarrow> sched_disk \<Rightarrow> Job \<Rightarrow> i64 \<Rightarrow> SqlRun option" where
  "due_kind C d job now =
     (case j_source job of
        Sql _ _ protection \<Rightarrow> sql_due_kind C d (j_id job) protection now
      | Files _ _ _ \<Rightarrow>
          if schedule_due C (j_schedule job) (j_last_run job) now then Some RunFull else None)"


section \<open>Validation\<close>

definition pad2 :: "nat \<Rightarrow> string" where
  "pad2 n = (if n < 10 then CHR ''0'' # show_nat n else show_nat n)"

definition check_time :: "byte \<Rightarrow> byte \<Rightarrow> string + unit" where
  "check_time hour minute =
     (if 23 < unat hour \<or> 59 < unat minute
      then Err (''the schedule time '' @ pad2 (unat hour) @ '':'' @ pad2 (unat minute)
                  @ '' is not a valid time of day'')
      else Ok ())"

fun validate :: "Schedule \<Rightarrow> string + unit" where
  "validate Manual = Ok ()"
| "validate (Interval minutes) =
     (if minutes = 0 then Err ''the interval must be at least one minute'' else Ok ())"
| "validate (Daily h m) = check_time h m"
| "validate (Weekly days h m) =
     (if days = [] then Err ''a weekly schedule needs at least one day''
      else case List.find (\<lambda>d. 6 < unat d) days of
             Some d \<Rightarrow> Err (show_nat (unat d) @ '' is not a weekday (0 = Sunday .. 6 = Saturday)'')
           | None \<Rightarrow> check_time h m)"
| "validate (Monthly day h m) =
     (if \<not> (1 \<le> unat day \<and> unat day \<le> 31)
      then Err ''the day of the month must be between 1 and 31''
      else check_time h m)"

definition validate_job :: "Job \<Rightarrow> string + unit" where
  "validate_job job =
     (case j_source job of
        Sql _ _ (PointInTime full minutes) \<Rightarrow>
          if minutes = 0 then Err ''the log backup interval must be at least one minute''
          else validate full
      | Sql _ _ (DailyRestorePoints schedule) \<Rightarrow> validate schedule
      | Sql _ _ (SecondaryCopy schedule) \<Rightarrow> validate schedule
      | Files _ _ _ \<Rightarrow> validate (j_schedule job))"


section \<open>Laws of the calendar\<close>

text \<open>Day numbers count days; weekdays cycle; months are runs of 28 to 31 consecutive days
  numbered from one, and the first day of the month after a date's month is found by its year and
  month.\<close>

definition calendar_laws :: "calendar \<Rightarrow> bool" where
  "calendar_laws C =
     ((\<forall>d n. cal_sub_days C d n = Some (d - int n)) \<and>
      (\<forall>d. cal_pred C d = Some (d - 1)) \<and>
      (\<forall>d. cal_weekday C d < 7 \<and> cal_weekday C (d + 1) = (cal_weekday C d + 1) mod 7) \<and>
      (\<forall>d. 1 \<le> cal_day C d \<and> cal_day C d \<le> 31) \<and>
      (\<forall>d k. k < cal_day C d \<longrightarrow> cal_day C (d - int k) = cal_day C d - k \<and>
         next_first C (d - int k) = next_first C d) \<and>
      (\<forall>d. \<exists>f. next_first C d = Some f \<and> d < f \<and> 28 \<le> cal_day C (f - 1) \<and>
         next_first C (f - 1) = Some f \<and> int (cal_day C (f - 1)) = int (cal_day C d) + (f - 1 - d) \<and>
         cal_day C f = 1))"

text \<open>Within the library's range of dates, every time of day has an instant on every date, later
  dates have later instants, and the local date of an instant separates the instants before it
  from those after it.\<close>

definition date_ok :: "int \<Rightarrow> bool" where
  "date_ok d = (\<bar>d\<bar> \<le> 90000000)"

definition zone_laws :: "calendar \<Rightarrow> i64 \<Rightarrow> bool" where
  "zone_laws C now =
     ((\<forall>d h m. date_ok d \<longrightarrow> unat h < 24 \<longrightarrow> unat m < 60 \<longrightarrow> local_unix C d h m \<noteq> None) \<and>
      (\<forall>d d' h m t t'. date_ok d \<longrightarrow> date_ok d' \<longrightarrow> d < d' \<longrightarrow> local_unix C d h m = Some t \<longrightarrow>
         local_unix C d' h m = Some t' \<longrightarrow> sint t < sint t') \<and>
      (\<exists>today. cal_today C now = Some today \<and> \<bar>today\<bar> \<le> 80000000 \<and>
         (\<forall>d h m t. date_ok d \<longrightarrow> local_unix C d h m = Some t \<longrightarrow>
            (d < today \<longrightarrow> sint t \<le> sint now) \<and> (today < d \<longrightarrow> sint now < sint t))))"

lemma days_in_month_next:
  assumes "calendar_laws C" "next_first C d = Some f"
  shows "days_in_month C d = cal_day C (f - 1)"
  using assms by (simp add: days_in_month_def calendar_laws_def)

lemma days_in_month_range:
  assumes "calendar_laws C"
  shows "28 \<le> days_in_month C d \<and> days_in_month C d \<le> 31 \<and> cal_day C d \<le> days_in_month C d"
proof -
  obtain f where f: "next_first C d = Some f" "d < f" "28 \<le> cal_day C (f - 1)"
    "int (cal_day C (f - 1)) = int (cal_day C d) + (f - 1 - d)"
    using assms unfolding calendar_laws_def by blast
  moreover have "cal_day C (f - 1) \<le> 31"
    using assms by (simp add: calendar_laws_def)
  ultimately show ?thesis
    using days_in_month_next [OF assms f(1)] by simp
qed

text \<open>The date of day \<open>t\<close> in the month before the one of \<open>d\<close>.\<close>

lemma previous_month:
  assumes C: "calendar_laws C" and d: "p = d - int (cal_day C d)"
  shows "cal_day C p = days_in_month C p"
proof -
  from C obtain f where f: "next_first C p = Some f" "p < f"
    "int (cal_day C (f - 1)) = int (cal_day C p) + (f - 1 - p)"
    "next_first C (f - 1) = Some f" "cal_day C f = 1"
    unfolding calendar_laws_def by meson
  have "f = p + 1"
  proof (rule ccontr)
    assume "f \<noteq> p + 1"
    then have k: "nat (f - 2 - p) < cal_day C (f - 1)"
      using f(2,3) C unfolding calendar_laws_def by (smt (verit) int_nat_eq of_nat_less_imp_less of_nat_le_iff of_nat_1)
    have "cal_day C (f - 1 - int (nat (f - 2 - p))) = cal_day C (f - 1) - nat (f - 2 - p)"
      using C k unfolding calendar_laws_def by blast
    moreover have "f - 1 - int (nat (f - 2 - p)) = p + 1"
      using f(2) \<open>f \<noteq> p + 1\<close> by simp
    ultimately have one: "int (cal_day C (p + 1)) = int (cal_day C p) + 1"
      using f(2,3) \<open>f \<noteq> p + 1\<close> k by (simp add: of_nat_diff add.commute [of 1 p])
    have "cal_day C d - 1 < cal_day C d"
      using C unfolding calendar_laws_def by (metis diff_less less_one not_le zero_less_one less_le_trans)
    then have "cal_day C (d - int (cal_day C d - 1)) = cal_day C d - (cal_day C d - 1)"
      using C unfolding calendar_laws_def by blast
    moreover have "1 \<le> cal_day C d" "1 \<le> cal_day C p"
      using C unfolding calendar_laws_def by blast+
    moreover from this have eq: "d - int (cal_day C d - 1) = p + 1"
      using d by (simp add: of_nat_diff)
    ultimately have "cal_day C (p + 1) = 1" "1 \<le> cal_day C p"
      unfolding eq by simp_all
    then show False
      using one by simp
  qed
  then show ?thesis
    using days_in_month_next [OF C f(1)] by simp
qed

lemma weekday_back:
  assumes "calendar_laws C"
  shows "cal_weekday C d = (cal_weekday C (d - int k) + k) mod 7"
proof (induction k)
  case 0
  then show ?case
    using assms by (simp add: calendar_laws_def)
next
  case (Suc k)
  have "cal_weekday C (d - int k) = (cal_weekday C (d - int (Suc k)) + 1) mod 7"
  proof -
    have "cal_weekday C (d - int (Suc k) + 1) = (cal_weekday C (d - int (Suc k)) + 1) mod 7"
      using assms unfolding calendar_laws_def by blast
    moreover have "d - int (Suc k) + 1 = d - int k"
      by simp
    ultimately show ?thesis
      by simp
  qed
  with Suc show ?case
    by (simp add: mod_simps)
qed

lemma weekday_within_week:
  assumes "calendar_laws C" "w < 7"
  shows "\<exists>k. 1 \<le> k \<and> k \<le> 7 \<and> cal_weekday C (d - int k) = w"
proof -
  define u where "u = cal_weekday C d"
  define k where "k = (if w < u then u - w else u + 7 - w)"
  define v where "v = cal_weekday C (d - int k)"
  have v: "v < 7" "u = (v + k) mod 7" "u < 7"
    using assms weekday_back [OF assms(1), of d k] by (auto simp: calendar_laws_def u_def v_def)
  have k: "1 \<le> k" "k \<le> 7" "w + k = u \<or> w + k = u + 7"
    using assms(2) v(3) by (auto simp: k_def)
  have "v + k = u \<or> v + k = u + 7"
    using v k(2) by presburger
  with k v(1) assms(2) have "v = w"
    by linarith
  with k show ?thesis
    by (auto simp: v_def)
qed

lemma month_day_within_two_months:
  assumes C: "calendar_laws C" and day: "1 \<le> day"
  shows "\<exists>k. 1 \<le> k \<and> k \<le> 62 \<and>
    cal_day C (today - int k) = min day (days_in_month C (today - int k))"
proof -
  define d where "d = today - 1"
  define p where "p = d - int (cal_day C d)"
  define n where "n = days_in_month C p"
  define j where "j = n - min day n"
  define k where "k = 1 + cal_day C d + j"
  have p: "cal_day C p = n"
    unfolding n_def by (rule previous_month [OF C p_def])
  have r: "1 \<le> cal_day C d" "cal_day C d \<le> 31" "28 \<le> n" "n \<le> 31"
    using C days_in_month_range [OF C, of p] by (auto simp: calendar_laws_def n_def)
  have j: "j < cal_day C p"
    using p r day by (auto simp: j_def)
  then have e: "cal_day C (p - int j) = n - j" "next_first C (p - int j) = next_first C p"
    using C p unfolding calendar_laws_def by metis+
  have "days_in_month C (p - int j) = n"
    using e(2) by (simp add: days_in_month_def n_def)
  moreover have "n - j = min day n"
    by (simp add: j_def)
  moreover have eq: "today - int k = p - int j"
    by (simp add: k_def p_def d_def)
  ultimately have "cal_day C (today - int k) = min day (days_in_month C (today - int k))"
    using e(1) unfolding eq by simp
  moreover have "1 \<le> k" "k \<le> 62"
    using r day by (auto simp: k_def j_def)
  ultimately show ?thesis
    by blast
qed

lemma check_time_Ok [simp]: "check_time h m = Inr u \<longleftrightarrow> unat h < 24 \<and> unat m < 60"
  by (auto simp: check_time_def)

lemma valid_time:
  "validate s = Ok () \<Longrightarrow> time_of_day s = Some (h, m) \<Longrightarrow> unat h < 24 \<and> unat m < 60"
  by (cases s) (auto split: if_splits option.splits)

lemma occurrence_within_two_months:
  assumes "calendar_laws C" "validate s = Ok ()" "time_of_day s = Some (h, m)"
  shows "\<exists>k. 1 \<le> k \<and> k \<le> 62 \<and> runs_on C s (today - int k)"
proof (cases s)
  case (Weekly days h' m')
  with assms(2) have "days \<noteq> []" "\<not> 6 < unat (hd days)"
    by (auto split: if_splits option.splits simp: find_None_iff)
  then obtain k where "1 \<le> k" "k \<le> 7" "cal_weekday C (today - int k) = unat (hd days)"
    using weekday_within_week [OF assms(1), of "unat (hd days)" today] by auto
  then show ?thesis
    using Weekly \<open>days \<noteq> []\<close> by (intro exI [of _ k]) auto
next
  case (Monthly day h' m')
  with assms(2) month_day_within_two_months [OF assms(1), of "unat day" today] show ?thesis
    by (auto split: if_splits)
qed (use assms(3) in auto)


section \<open>The scan\<close>

lemma scan_filter:
  assumes "\<And>d n. cal_sub_days C d n = Some (d - int n)"
    and "\<And>b. b \<in> set bs \<Longrightarrow> local_unix C (today - int b) h m = Some (at (today - int b))"
  shows "occurrence_scan C s h m now today bs =
    (case filter (\<lambda>b. runs_on C s (today - int b) \<and> sint (at (today - int b)) \<le> sint now) bs of
       [] \<Rightarrow> None | b # _ \<Rightarrow> Some (at (today - int b), b = 0))"
  using assms(2) by (induction bs) (auto simp: assms(1) split: list.splits)

lemma filter_upt_first:
  assumes "filter P [0..<n] = b # bs"
  shows "P b \<and> b < n \<and> (\<forall>j < b. \<not> P j)"
proof -
  obtain us vs where u: "[0..<n] = us @ b # vs" "\<forall>x \<in> set us. \<not> P x" "P b"
    using assms by (auto simp: filter_eq_Cons_iff)
  have "b \<in> set [0..<n]"
    unfolding u(1) by simp
  moreover have "\<forall>j < b. j \<in> set us"
  proof (intro allI impI)
    fix j assume "j < b"
    have "sorted_wrt (<) (us @ b # vs)"
      unfolding u(1) [symmetric] by simp
    then have "j \<notin> set (b # vs)"
      using \<open>j < b\<close> by (auto simp: sorted_wrt_append)
    moreover have "j \<in> set (us @ b # vs)"
      unfolding u(1) [symmetric] using \<open>j < b\<close> \<open>b \<in> set [0..<n]\<close> by simp
    ultimately show "j \<in> set us"
      by simp
  qed
  ultimately show ?thesis
    using u(2,3) by auto
qed

text \<open>The latest occurrence exists for every valid timed schedule, and no occurrence lies between
  it and now.\<close>

lemma latest_occurrence_max:
  assumes C: "calendar_laws C" and Z: "zone_laws C now"
    and s: "validate s = Ok ()" "time_of_day s = Some (h, m)"
  obtains date t today where "latest_occurrence C s now = Some (t, date = today)"
    "date_ok date" "runs_on C s date" "local_unix C date h m = Some t" "sint t \<le> sint now"
    "cal_today C now = Some today"
    "\<And>date' t'. date_ok date' \<Longrightarrow> runs_on C s date' \<Longrightarrow> local_unix C date' h m = Some t'
       \<Longrightarrow> sint t' \<le> sint now \<Longrightarrow> sint t' \<le> sint t \<and> date' \<le> date"
proof -
  define at where "at = (\<lambda>d. the (local_unix C d h m))"
  have hm: "unat h < 24" "unat m < 60"
    using valid_time [OF s] by auto
  then have at: "local_unix C d h m = Some (at d)" if "date_ok d" for d
    using Z that by (auto simp: zone_laws_def at_def)
  have mono: "date_ok d \<Longrightarrow> date_ok d' \<Longrightarrow> d < d' \<Longrightarrow> sint (at d) < sint (at d')" for d d'
    using Z at unfolding zone_laws_def by blast
  obtain today where today: "cal_today C now = Some today"
    "\<And>d. date_ok d \<Longrightarrow> d < today \<Longrightarrow> sint (at d) \<le> sint now"
    "\<And>d. date_ok d \<Longrightarrow> today < d \<Longrightarrow> sint now < sint (at d)" and range: "\<bar>today\<bar> \<le> 80000000"
    using Z at unfolding zone_laws_def by meson
  have near: "date_ok (today - int b)" if "b < 63" for b
    using range that by (simp add: date_ok_def)
  let ?P = "\<lambda>b. runs_on C s (today - int b) \<and> sint (at (today - int b)) \<le> sint now"
  obtain k where k: "1 \<le> k" "k \<le> 62" "runs_on C s (today - int k)"
    using occurrence_within_two_months [OF C s, of today] by blast
  then have "?P k"
    using today(2) [of "today - int k"] near by simp
  obtain b bs where fb: "filter ?P [0..<63] = b # bs"
  proof (cases "filter ?P [0..<63]")
    case Nil
    then show ?thesis
      using k \<open>?P k\<close> by (auto simp: filter_empty_conv)
  qed (use that in blast)
  then have b: "?P b" "b < 63" "\<And>j. j < b \<Longrightarrow> \<not> ?P j"
    using filter_upt_first [OF fb] by blast+
  have "latest_occurrence C s now = Some (at (today - int b), today - int b = today)"
    using C s(2) today(1) scan_filter [of C "[0..<63]" today h m at s now] at near fb
    by (simp add: latest_occurrence_def calendar_laws_def)
  moreover have "sint t' \<le> sint (at (today - int b)) \<and> date' \<le> today - int b"
    if "date_ok date'" "runs_on C s date'" "local_unix C date' h m = Some t'" "sint t' \<le> sint now"
    for date' t'
  proof -
    have t': "t' = at date'"
      using that(1,3) at by simp
    then have le: "date' \<le> today"
      using today(3) [of date'] that(1,4) by (meson linorder_not_less)
    then have "?P (nat (today - date'))"
      using that t' by simp
    then have "\<not> nat (today - date') < b"
      using b(3) by blast
    then have "date' \<le> today - int b"
      using le by linarith
    then show ?thesis
      using mono [of date' "today - int b"] t' that(1) near b(2) by (cases "date' = today - int b") auto
  qed
  ultimately show ?thesis
    using that [of "at (today - int b)" "today - int b" today] b(1,2) at near today(1) by blast
qed


section \<open>Properties\<close>

text \<open>An occurrence of a timed schedule: a date it runs on, at its time of day.\<close>

definition occurs :: "calendar \<Rightarrow> Schedule \<Rightarrow> i64 \<Rightarrow> bool" where
  "occurs C s t =
     (\<exists>date h m. date_ok date \<and> time_of_day s = Some (h, m) \<and> runs_on C s date \<and>
        local_unix C date h m = Some t)"

lemma schedule_due_timed:
  assumes "time_of_day s \<noteq> None"
  shows "schedule_due C s prev now =
     (case latest_occurrence C s now of
        None \<Rightarrow> False
      | Some (t, today) \<Rightarrow> (case prev of None \<Rightarrow> today | Some l \<Rightarrow> sint l < sint t))"
  using assms by (cases s) auto

lemma due_iff_occurrence:
  assumes C: "calendar_laws C" "zone_laws C now" and s: "validate s = Ok ()" "time_of_day s \<noteq> None"
  shows "schedule_due C s (Some l) now \<longleftrightarrow> (\<exists>t. occurs C s t \<and> sint l < sint t \<and> sint t \<le> sint now)"
proof -
  obtain h m where hm: "time_of_day s = Some (h, m)"
    using s(2) by auto
  obtain date t today where lo: "latest_occurrence C s now = Some (t, date = today)" "date_ok date"
    "runs_on C s date" "local_unix C date h m = Some t" "sint t \<le> sint now"
    and max: "\<And>date' t'. date_ok date' \<Longrightarrow> runs_on C s date' \<Longrightarrow> local_unix C date' h m = Some t'
       \<Longrightarrow> sint t' \<le> sint now \<Longrightarrow> sint t' \<le> sint t \<and> date' \<le> date"
    by (rule latest_occurrence_max [OF C s(1) hm]) blast
  have "schedule_due C s (Some l) now \<longleftrightarrow> sint l < sint t"
    using lo(1) by (simp add: schedule_due_timed [OF s(2)])
  moreover have "occurs C s t"
    using lo hm by (auto simp: occurs_def)
  moreover have "sint t' \<le> sint t" if "occurs C s t'" "sint t' \<le> sint now" for t'
    using that hm max by (auto simp: occurs_def)
  ultimately show ?thesis
    using lo(5) by (meson order_less_le_trans)
qed


text \<open>A concrete calendar: months of thirty days, no time zone offset.\<close>

definition demo_cal :: calendar where
  "demo_cal =
     \<lparr> cal_today = (\<lambda>now. Some (sint now div 86400)),
       cal_sub_days = (\<lambda>d n. Some (d - int n)),
       cal_weekday = (\<lambda>d. nat (d mod 7)),
       cal_year = (\<lambda>d. d div 30),
       cal_month = (\<lambda>d. 1),
       cal_day = (\<lambda>d. nat (d mod 30) + 1),
       cal_from_ymd = (\<lambda>y m dd. Some ((y + int m - 1) * 30 + int dd - 1)),
       cal_pred = (\<lambda>d. Some (d - 1)),
       cal_local = (\<lambda>d h m. LSingle (of_int (d * 86400 + int h * 3600 + int m * 60))) \<rparr>"

lemma demo_next_first: "next_first demo_cal d = Some ((d div 30 + 1) * 30)"
  by (simp add: next_first_def demo_cal_def)

lemma demo_same_month:
  assumes "k < nat (d mod 30) + 1"
  shows "(d - int k) div 30 = d div 30" "(d - int k) mod 30 = d mod 30 - int k"
proof -
  have "int k \<le> d mod 30" "d mod 30 < 30"
    using assms by auto
  moreover have "d = 30 * (d div 30) + d mod 30"
    by simp
  ultimately have "d - int k = 30 * (d div 30) + (d mod 30 - int k)" "0 \<le> d mod 30 - int k"
    "d mod 30 - int k < 30"
    by linarith+
  then show "(d - int k) div 30 = d div 30" "(d - int k) mod 30 = d mod 30 - int k"
    using int_div_pos_eq [of "d - int k" 30] int_mod_pos_eq [of "d - int k" 30] by blast+
qed

lemma demo_weekday: "nat ((d + 1) mod 7) = (nat (d mod 7) + 1) mod 7" for d :: int
proof -
  have "(d + 1) mod 7 = (d mod 7 + 1) mod 7"
    by (simp add: mod_simps)
  then have "nat ((d + 1) mod 7) = nat ((d mod 7 + 1) mod 7)"
    by simp
  also have "\<dots> = nat (d mod 7 + 1) mod 7"
    by (simp add: nat_mod_distrib)
  finally show ?thesis
    by (simp add: nat_add_distrib)
qed

lemma demo_month_end:
  fixes d :: int
  defines "f \<equiv> (d div 30 + 1) * 30"
  shows "d < f" "(f - 1) mod 30 = 29" "(f - 1) div 30 + 1 = d div 30 + 1" "f mod 30 = 0"
    "f - 1 - d = 29 - d mod 30"
proof -
  have d: "d = 30 * (d div 30) + d mod 30" "0 \<le> d mod 30" "d mod 30 < 30"
    by simp_all
  have f: "f - 1 = 30 * (d div 30) + 29"
    by (simp add: f_def)
  show "d < f" "f - 1 - d = 29 - d mod 30"
    using d f by linarith+
  show "(f - 1) mod 30 = 29" "(f - 1) div 30 + 1 = d div 30 + 1"
    unfolding f by simp_all
  show "f mod 30 = 0"
    by (simp add: f_def)
qed

lemma demo_calendar_laws: "calendar_laws demo_cal"
proof -
  have day: "cal_day demo_cal d = nat (d mod 30) + 1" for d
    by (simp add: demo_cal_def)
  have "\<exists>f. next_first demo_cal d = Some f \<and> d < f \<and> 28 \<le> cal_day demo_cal (f - 1) \<and>
      next_first demo_cal (f - 1) = Some f \<and>
      int (cal_day demo_cal (f - 1)) = int (cal_day demo_cal d) + (f - 1 - d) \<and>
      cal_day demo_cal f = 1" for d
    using demo_month_end [of d] by (simp add: demo_next_first day)
  moreover have "1 \<le> cal_day demo_cal d \<and> cal_day demo_cal d \<le> 31" for d
  proof -
    have "d mod 30 < 30"
      by simp
    then show ?thesis
      unfolding day by linarith
  qed
  moreover have "cal_day demo_cal (d - int k) = cal_day demo_cal d - k \<and>
      next_first demo_cal (d - int k) = next_first demo_cal d" if "k < cal_day demo_cal d" for d k
    using demo_same_month [of k d] that unfolding demo_next_first day by (simp add: nat_diff_distrib Suc_diff_le)
  moreover have "cal_weekday demo_cal d < 7 \<and> cal_weekday demo_cal (d + 1) = (cal_weekday demo_cal d + 1) mod 7" for d
    using demo_weekday [of d] by (simp add: demo_cal_def nat_less_iff)
  ultimately show ?thesis
    unfolding calendar_laws_def by (simp add: demo_cal_def)
qed

lemma sint_of_int_small: "- (2 ^ 62) \<le> x \<Longrightarrow> x < 2 ^ 62 \<Longrightarrow> sint (of_int x :: i64) = x"
  by (simp add: signed_of_int signed_take_bit_int_eq_self)

lemma demo_local_unix:
  assumes "unat h < 24" "unat m < 60" "date_ok d"
  shows "\<exists>t. local_unix demo_cal d h m = Some t \<and> sint t = d * 86400 + int (unat h) * 3600 + int (unat m) * 60"
proof -
  let ?x = "d * 86400 + int (unat h) * 3600 + int (unat m) * 60"
  have "- 7776003600000 \<le> ?x" "?x < 7776003600000"
    using assms unfolding date_ok_def by linarith+
  then have "sint (of_int ?x :: i64) = ?x"
    by (intro sint_of_int_small) simp_all
  then show ?thesis
    using assms by (simp add: local_unix_def demo_cal_def)
qed

lemma demo_zone_laws: "zone_laws demo_cal 3000000"
proof -
  have now: "sint (3000000 :: i64) = 3000000"
    by simp
  have def: "local_unix demo_cal d h m = Some t \<Longrightarrow> unat h < 24 \<and> unat m < 60" for d h m t
    by (auto simp: local_unix_def Let_def split: if_splits)
  have val: "sint t = d * 86400 + int (unat h) * 3600 + int (unat m) * 60"
    if "date_ok d" "local_unix demo_cal d h m = Some t" for d h m t
    using demo_local_unix [of h m d] def [OF that(2)] that by auto
  have today: "cal_today demo_cal 3000000 = Some 34"
    by (simp add: demo_cal_def)
  have "(d < 34 \<longrightarrow> sint t \<le> sint (3000000 :: i64)) \<and> (34 < d \<longrightarrow> sint (3000000 :: i64) < sint t)"
    if "date_ok d" "local_unix demo_cal d h m = Some t" for d h m t
    using val [OF that] def [OF that(2)] unfolding now by (intro conjI impI) linarith+
  moreover have "sint t < sint t'" if "date_ok d" "date_ok d'" "d < d'"
    "local_unix demo_cal d h m = Some t" "local_unix demo_cal d' h m = Some t'" for d d' h m t t'
    using val [OF that(1,4)] val [OF that(2,5)] that(3) by simp
  moreover have "local_unix demo_cal d h m \<noteq> None" if "date_ok d" "unat h < 24" "unat m < 60" for d h m
    using demo_local_unix [of h m d] that by auto
  ultimately show ?thesis
    unfolding zone_laws_def today by fastforce
qed


end
