(* ===== verification/SnapshotGroups.thy ===== *)
theory SnapshotGroups
  imports Stores Scheduler
begin

text \<open>
  The snapshot groups of jobs on a backup server (\<open>pbsgui-engine/src/backup.rs\<close>): their names, the
  check that refuses a job whose groups collide, and the store of jobs as the request handler
  changes it. Shows that jobs accepted by the handler never share a group.
\<close>

section \<open>Names\<close>

text \<open>A slug has one character per character of the name, and one outside ASCII becomes an
  underscore.\<close>

definition sanitize :: "string \<Rightarrow> string" where
  "sanitize s =
     map (\<lambda>c. if is_alnum c \<or> c = CHR ''.'' \<or> c = CHR ''_'' \<or> c = CHR ''-'' then to_lower_char c else CHR ''_'')
       (filter (\<lambda>c. \<not> utf8_continuation c) s)"

definition sql_group_and_archive :: "string \<Rightarrow> string \<Rightarrow> SqlBackupType \<Rightarrow> string \<times> string" where
  "sql_group_and_archive backup_id database kind =
     (let db = sanitize database;
          grp = (case kind of Log \<Rightarrow> backup_id @ ''-'' @ db @ ''-log'' | _ \<Rightarrow> backup_id @ ''-'' @ db)
      in (grp, db @ ''.didx''))"

definition sql_groups :: "string \<Rightarrow> bool \<Rightarrow> string \<Rightarrow> (string \<times> string) list" where
  "sql_groups backup_id logs db =
     (fst (sql_group_and_archive backup_id db Full), ''full backups of ['' @ db @ '']'') #
     (if logs then [(fst (sql_group_and_archive backup_id db Log), ''log backups of ['' @ db @ '']'')] else [])"

definition job_pbs_groups :: "Job \<Rightarrow> (string \<times> string) list" where
  "job_pbs_groups job =
     (case j_destination job of
        Folder _ \<Rightarrow> []
      | Pbs _ backup_id \<Rightarrow>
          (case j_source job of
             Files _ _ _ \<Rightarrow> [(backup_id, ''the file backups'')]
           | Sql _ databases protection \<Rightarrow>
               concat (map (sql_groups backup_id (case protection of PointInTime _ _ \<Rightarrow> True | _ \<Rightarrow> False))
                 databases)))"


section \<open>The collision check\<close>

fun inner_collision :: "(string \<rightharpoonup> string) \<Rightarrow> (string \<times> string) list \<Rightarrow> string + unit" where
  "inner_collision seen [] = Ok ()"
| "inner_collision seen ((grp, what) # rest) =
     (case seen grp of
        Some other \<Rightarrow>
          Err (''snapshot group collision inside this job: '' @ what @ '' and '' @ other
            @ '' would both write the PBS group '' @ [CHR 0x27] @ grp @ [CHR 0x27]
            @ ''; change the backup id or deselect one of them'')
      | None \<Rightarrow> inner_collision (seen(grp \<mapsto> what)) rest)"

fun group_clash :: "(string \<times> string) list \<Rightarrow> Job \<Rightarrow> (string \<times> string) list \<Rightarrow> string + unit" where
  "group_clash groups other [] = Ok ()"
| "group_clash groups other ((ogroup, owhat) # rest) =
     (case List.find (\<lambda>g. fst g = ogroup) groups of
        Some (grp, what) \<Rightarrow>
          Err (''snapshot group collision: '' @ what @ '' would write the PBS group '' @ [CHR 0x27] @ grp
            @ [CHR 0x27] @ '', which job '' @ [CHR 0x27] @ j_name other @ [CHR 0x27] @ '' already uses for ''
            @ owhat @ ''; pick a different backup id'')
      | None \<Rightarrow> group_clash groups other rest)"

definition on_server :: "string \<Rightarrow> Job \<Rightarrow> bool" where
  "on_server server job = (case j_destination job of Pbs s _ \<Rightarrow> s = server | Folder _ \<Rightarrow> False)"

fun outer_collision :: "string \<Rightarrow> (string \<times> string) list \<Rightarrow> Job list \<Rightarrow> string + unit" where
  "outer_collision server groups [] = Ok ()"
| "outer_collision server groups (other # rest) =
     (if on_server server other
      then and_then (group_clash groups other (job_pbs_groups other)) (\<lambda>_. outer_collision server groups rest)
      else outer_collision server groups rest)"

definition validate_pbs_groups :: "Job \<Rightarrow> Job list \<Rightarrow> string + unit" where
  "validate_pbs_groups job existing =
     (case j_destination job of
        Folder _ \<Rightarrow> Ok ()
      | Pbs server _ \<Rightarrow>
          and_then (inner_collision Map.empty (job_pbs_groups job)) (\<lambda>_.
            outer_collision server (job_pbs_groups job) (filter (\<lambda>o'. j_id o' \<noteq> j_id job) existing)))"

text \<open>The handler's save of a job: both checks, then the store.\<close>

definition save_job_request :: "Job writer \<Rightarrow> Job \<Rightarrow> Job json_store \<Rightarrow> (string + unit) \<times> Job json_store" where
  "save_job_request w job st =
     (case and_then (validate_job job) (\<lambda>_. validate_pbs_groups job (js_items st)) of
        Inl e \<Rightarrow> (Err e, st)
      | Inr _ \<Rightarrow> save_job w job st)"


section \<open>What the check decides\<close>

definition group_names :: "Job \<Rightarrow> string set" where
  "group_names job = fst ` set (job_pbs_groups job)"

lemma inner_collision_iff:
  "inner_collision seen gs = Ok () \<longleftrightarrow> distinct (map fst gs) \<and> (\<forall>g \<in> set gs. seen (fst g) = None)"
proof (induction gs arbitrary: seen)
  case (Cons g gs)
  obtain a b where g: "g = (a, b)"
    by (cases g)
  have "inner_collision seen (g # gs) = Ok () \<longleftrightarrow> seen a = None \<and> inner_collision (seen(a \<mapsto> b)) gs = Ok ()"
    by (simp add: g split: option.split)
  also have "\<dots> \<longleftrightarrow> seen a = None \<and> distinct (map fst gs) \<and> (\<forall>h \<in> set gs. fst h \<noteq> a \<and> seen (fst h) = None)"
    unfolding Cons.IH by (auto split: if_splits)
  finally show ?case
    by (auto simp: g)
qed simp

lemma group_clash_iff:
  "group_clash groups other gs = Ok () \<longleftrightarrow> fst ` set groups \<inter> fst ` set gs = {}"
  by (induction groups other gs rule: group_clash.induct)
     (auto split: option.splits simp: find_None_iff find_Some_iff dest: nth_mem)

lemma outer_collision_iff:
  "outer_collision server groups js = Ok () \<longleftrightarrow>
     (\<forall>o' \<in> set js. on_server server o' \<longrightarrow> fst ` set groups \<inter> group_names o' = {})"
  by (induction server groups js rule: outer_collision.induct) (auto simp: group_clash_iff group_names_def)

definition same_server :: "Job \<Rightarrow> Job \<Rightarrow> bool" where
  "same_server a b = (case j_destination a of Pbs s _ \<Rightarrow> on_server s b | Folder _ \<Rightarrow> False)"

lemma same_server_sym: "same_server a b = same_server b a"
  by (auto simp: same_server_def on_server_def split: JobDestination.splits)

lemma validate_pbs_groups_iff:
  "validate_pbs_groups job existing = Ok () \<longleftrightarrow>
     distinct (map fst (job_pbs_groups job)) \<and>
     (\<forall>o' \<in> set existing. j_id o' \<noteq> j_id job \<and> same_server job o' \<longrightarrow>
        group_names job \<inter> group_names o' = {})"
proof (cases "j_destination job")
  case (Pbs s b)
  then show ?thesis
    by (auto simp: validate_pbs_groups_def inner_collision_iff outer_collision_iff same_server_def
        group_names_def [of job])
next
  case (Folder f)
  then show ?thesis
    by (simp add: validate_pbs_groups_def same_server_def job_pbs_groups_def)
qed

definition groups_separate :: "Job list \<Rightarrow> bool" where
  "groups_separate js =
     (distinct (map j_id js) \<and>
      (\<forall>a \<in> set js. distinct (map fst (job_pbs_groups a))) \<and>
      (\<forall>a \<in> set js. \<forall>b \<in> set js. j_id a \<noteq> j_id b \<and> same_server a b \<longrightarrow>
         group_names a \<inter> group_names b = {}))"

lemma set_upsert: "set (upsert ident x ys) \<subseteq> insert x (set ys)"
  by (induction ys) auto

lemma set_upsert_distinct:
  "distinct (map ident ys) \<Longrightarrow> set (upsert ident x ys) = insert x {y \<in> set ys. ident y \<noteq> ident x}"
  by (induction ys) (auto simp: image_iff)

lemma distinct_upsert: "distinct (map ident ys) \<Longrightarrow> distinct (map ident (upsert ident x ys))"
  by (induction ys) (use set_upsert in \<open>fastforce+\<close>)

lemma separate_upsert:
  assumes "groups_separate js" "validate_pbs_groups job js = Ok ()"
  shows "groups_separate (upsert j_id job js)"
  using assms distinct_upsert [of j_id js job] same_server_sym
  unfolding groups_separate_def validate_pbs_groups_iff
  by (auto simp: set_upsert_distinct)

lemma separate_filter: "groups_separate js \<Longrightarrow> groups_separate (filter P js)"
  by (auto simp: groups_separate_def distinct_map_filter)


section \<open>The store under the handler\<close>

datatype store_op =
    SaveReq "Job writer" Job
  | DeleteReq "Job writer" string
  | RanReq "Job writer" string i64 string

fun store_step :: "Job json_store \<Rightarrow> store_op \<Rightarrow> Job json_store option" where
  "store_step st (SaveReq w job) = Some (snd (save_job_request w job st))"
| "store_step st (DeleteReq w k) = Some (snd (delete_job w k st))"
| "store_step st (RanReq w k t msg) = Some (snd (record_run w k t msg st))"

lemma separate_update:
  assumes "groups_separate js"
    and "\<And>j. j_id (f j) = j_id j \<and> j_source (f j) = j_source j \<and> j_destination (f j) = j_destination j"
  shows "groups_separate (update_first P f js)"
proof -
  have f: "j_id (f j) = j_id j" "j_source (f j) = j_source j" "j_destination (f j) = j_destination j" for j
    using assms(2) [of j] by auto
  have eq: "job_pbs_groups (f j) = job_pbs_groups j" "same_server (f a) b = same_server a b"
    "same_server a (f b) = same_server a b" "group_names (f j) = group_names j" for a b j
    by (simp_all add: job_pbs_groups_def same_server_def on_server_def group_names_def f
        split: JobDestination.split)
  have "\<exists>y \<in> set js. x = y \<or> x = f y" if "x \<in> set (update_first P f js)" for x
    using that by (induction js) (auto split: if_splits)
  moreover have "map j_id (update_first P f js) = map j_id js"
    using assms(2) by (simp add: update_first_ids)
  ultimately show ?thesis
    using assms(1) f(1) unfolding groups_separate_def by (metis eq)
qed

lemma store_step_keeps:
  assumes "groups_separate (js_items st)" "store_step st l = Some st'"
  shows "groups_separate (js_items st')"
proof (cases l)
  case (SaveReq w job)
  with assms show ?thesis
    by (auto simp: save_job_request_def save_job_def js_save_def ensure_writable_def persist_items
        separate_upsert split: sum.splits option.splits)
next
  case (DeleteReq w k)
  with assms show ?thesis
    by (auto simp: delete_job_def js_delete_def ensure_writable_def persist_items separate_filter
        split: option.splits)
next
  case (RanReq w k t msg)
  with assms show ?thesis
    by (auto simp: record_run_def ensure_writable_def persist_items separate_update split: option.splits)
qed

definition fresh_store :: "Job json_store \<Rightarrow> bool" where
  "fresh_store st = (js_items st = [])"

interpretation job_groups: inductive_invariant fresh_store "\<lambda>s l s'. store_step s l = Some s'"
  "\<lambda>st. groups_separate (js_items st)"
proof unfold_locales
  show "groups_separate (js_items st)" if "fresh_store st" for st
    using that by (simp add: fresh_store_def groups_separate_def)
qed (rule store_step_keeps)

text \<open>A store filled by the handler: the second job is refused, since the slug of its database is
  the one of a database of the first job.\<close>

definition sql_job :: "string \<Rightarrow> string \<Rightarrow> Job" where
  "sql_job ident db =
     \<lparr> j_id = ident, j_name = ident, j_source = Sql ''c'' [db] (PointInTime (Daily 1 0) 15),
       j_destination = Pbs ''s'' ''host'', j_schedule = Manual, j_last_run = None, j_last_status = None,
       j_encrypted = False, j_compress = True \<rparr>"

definition demo_job_writer :: "Job writer" where
  "demo_job_writer = \<lparr> wr_signer = undefined, wr_key = Inl ''locked'', wr_io = None \<rparr>"

definition demo_ops :: "store_op list" where
  "demo_ops =
     [SaveReq demo_job_writer (sql_job ''a'' ''My DB''), SaveReq demo_job_writer (sql_job ''b'' ''my_db''),
      SaveReq demo_job_writer (sql_job ''c'' ''other'')]"

definition demo_groups_store :: "Job json_store" where
  "demo_groups_store =
     \<lparr> js_items = [sql_job ''a'' ''My DB'', sql_job ''c'' ''other''], js_load_error = None, js_file = NotFound \<rparr>"

lemma demo_ops_run:
  "run_labels store_step demo_ops \<lparr> js_items = [], js_load_error = None, js_file = NotFound \<rparr>
     = Some demo_groups_store"
  by code_simp



end
