(* ===== verification/RunRegistry.thy ===== *)
theory RunRegistry
  imports Protocol
begin

text \<open>
  The registry of runs in progress (\<open>pbsgui-engine/src/backup.rs\<close>): the map of running jobs with
  their cancellation tokens, the map of their progress, and the guard whose drop releases a claim.
  Each step is one critical section of the code, so the two halves of a drop are two steps and
  other tasks may come between them.
\<close>

section \<open>State and operations\<close>

record RunStatus =
  rs_started :: i64
  rs_fraction :: f32
  rs_message :: string

text \<open>Tokens are numbered in the order of their creation. \<open>rg_guards\<close> holds the live guards with
  the token of their run, \<open>rg_dropping\<close> the jobs of guards that have released the first map and
  not yet the second.\<close>

record registry =
  rg_running :: "string \<rightharpoonup> nat"
  rg_status :: "string \<rightharpoonup> RunStatus"
  rg_cancelled :: "nat list"
  rg_next :: nat
  rg_guards :: "(string \<times> nat) list"
  rg_dropping :: "string list"

definition registry_init :: registry where
  "registry_init =
     \<lparr> rg_running = Map.empty, rg_status = Map.empty, rg_cancelled = [], rg_next = 0, rg_guards = [],
       rg_dropping = [] \<rparr>"

definition try_claim_run :: "string \<Rightarrow> i64 \<Rightarrow> registry \<Rightarrow> (nat \<times> registry) option" where
  "try_claim_run job now r =
     (case rg_running r job of
        Some _ \<Rightarrow> None
      | None \<Rightarrow>
          let token = rg_next r in
          Some (token,
            r \<lparr> rg_running := (rg_running r)(job \<mapsto> token),
                rg_status := (rg_status r)(job \<mapsto>
                  \<lparr> rs_started = now, rs_fraction = (0, 1), rs_message = ''starting...'' \<rparr>),
                rg_next := Suc token,
                rg_guards := (job, token) # rg_guards r \<rparr>))"

definition cancel_job :: "string \<Rightarrow> registry \<Rightarrow> bool \<times> registry" where
  "cancel_job job r =
     (case rg_running r job of
        Some token \<Rightarrow> (True, r \<lparr> rg_cancelled := token # rg_cancelled r \<rparr>)
      | None \<Rightarrow> (False, r))"

definition set_run_status :: "string \<Rightarrow> f32 \<Rightarrow> string \<Rightarrow> registry \<Rightarrow> registry" where
  "set_run_status job fraction message r =
     (case rg_status r job of
        Some s \<Rightarrow>
          r \<lparr> rg_status := (rg_status r)(job \<mapsto> s \<lparr> rs_fraction := fraction, rs_message := message \<rparr>) \<rparr>
      | None \<Rightarrow> r)"

definition drop_running :: "string \<times> nat \<Rightarrow> registry \<Rightarrow> registry" where
  "drop_running g r =
     r \<lparr> rg_running := (rg_running r)(fst g := None), rg_guards := remove1 g (rg_guards r),
         rg_dropping := fst g # rg_dropping r \<rparr>"

definition drop_status :: "string \<Rightarrow> registry \<Rightarrow> registry" where
  "drop_status job r =
     r \<lparr> rg_status := (rg_status r)(job := None), rg_dropping := remove1 job (rg_dropping r) \<rparr>"

definition running_snapshot :: "string list \<Rightarrow> registry \<Rightarrow> RunningJob list" where
  "running_snapshot order r =
     concat (map (\<lambda>job. case rg_status r job of
         None \<Rightarrow> []
       | Some s \<Rightarrow> [\<lparr> rj_job_id = job, rj_started = rs_started s, rj_fraction = rs_fraction s,
                      rj_message = rs_message s \<rparr>]) order)"

datatype registry_op =
    Claim string i64
  | Cancel string
  | Report string f32 string
  | DropRunning "string \<times> nat"
  | DropStatus string

fun registry_step :: "registry \<Rightarrow> registry_op \<Rightarrow> registry option" where
  "registry_step r (Claim job now) =
     Some (case try_claim_run job now r of None \<Rightarrow> r | Some (_, r') \<Rightarrow> r')"
| "registry_step r (Cancel job) = Some (snd (cancel_job job r))"
| "registry_step r (Report job f m) = Some (set_run_status job f m r)"
| "registry_step r (DropRunning g) = (if g \<in> set (rg_guards r) then Some (drop_running g r) else None)"
| "registry_step r (DropStatus job) = (if job \<in> set (rg_dropping r) then Some (drop_status job r) else None)"

abbreviation registry_reachable :: "registry \<Rightarrow> bool" where
  "registry_reachable \<equiv> reachable (\<lambda>r. r = registry_init) (\<lambda>r l r'. registry_step r l = Some r')"


section \<open>The invariant\<close>

definition registry_inv :: "registry \<Rightarrow> bool" where
  "registry_inv r =
     (distinct (map fst (rg_guards r)) \<and>
      (\<forall>job token. rg_running r job = Some token \<longleftrightarrow> (job, token) \<in> set (rg_guards r)) \<and>
      (\<forall>job token. (job, token) \<in> set (rg_guards r) \<longrightarrow> token < rg_next r) \<and>
      (\<forall>token \<in> set (rg_cancelled r). token < rg_next r) \<and>
      distinct (map snd (rg_guards r)) \<and>
      (\<forall>job. rg_status r job \<noteq> None \<longrightarrow> job \<in> fst ` set (rg_guards r) \<union> set (rg_dropping r)))"

lemmas registry_defs =
  registry_inv_def try_claim_run_def cancel_job_def set_run_status_def drop_running_def drop_status_def

lemma claim_keeps:
  assumes "registry_inv r" "try_claim_run job now r = Some (t, r')"
  shows "registry_inv r'"
proof -
  have free: "rg_running r job = None"
    using assms(2) by (simp add: try_claim_run_def split: option.splits)
  have guards: "(rg_running r k = Some u) = ((k, u) \<in> set (rg_guards r))" for k u
    using assms(1) by (simp add: registry_inv_def)
  have new: "job \<notin> fst ` set (rg_guards r)"
    using free guards [of job] by (auto simp: image_iff)
  have fresh: "rg_next r \<notin> snd ` set (rg_guards r)"
    using assms(1) by (fastforce simp: registry_inv_def)
  have r': "r' = r \<lparr> rg_running := (rg_running r)(job \<mapsto> rg_next r),
      rg_status := (rg_status r)(job \<mapsto> \<lparr> rs_started = now, rs_fraction = (0, 1), rs_message = ''starting...'' \<rparr>),
      rg_next := Suc (rg_next r), rg_guards := (job, rg_next r) # rg_guards r \<rparr>"
    using assms(2) by (auto simp: try_claim_run_def Let_def split: option.splits)
  have "(rg_running r' k = Some u) = ((k, u) \<in> set (rg_guards r'))" for k u
    using guards new by (auto simp: r' image_iff)
  moreover have "k \<in> fst ` set (rg_guards r') \<union> set (rg_dropping r')" if "rg_status r' k \<noteq> None" for k
    using assms(1) that by (cases "k = job") (auto simp: r' registry_inv_def)
  ultimately show ?thesis
    using assms(1) new fresh unfolding registry_inv_def
    by (simp add: r' less_Suc_eq)
qed

lemma drop_running_keeps:
  assumes "registry_inv r" "g \<in> set (rg_guards r)"
  shows "registry_inv (drop_running g r)"
proof -
  have d: "distinct (rg_guards r)"
    using assms(1) by (auto simp: registry_inv_def distinct_map)
  have s: "set (remove1 g (rg_guards r)) = {h \<in> set (rg_guards r). fst h \<noteq> fst g}"
    using assms d by (auto simp: registry_inv_def distinct_map inj_on_def)
  have "distinct (map fst (remove1 g (rg_guards r)))" "distinct (map snd (remove1 g (rg_guards r)))"
    using assms(1) by (auto simp: registry_inv_def distinct_map inj_on_def dest: notin_set_remove1)
  moreover have "(rg_running (drop_running g r) k = Some u) = ((k, u) \<in> set (rg_guards (drop_running g r)))" for k u
    using assms by (auto simp: registry_inv_def drop_running_def s)
  moreover have "k \<in> fst ` set (rg_guards (drop_running g r)) \<union> set (rg_dropping (drop_running g r))"
    if "rg_status r k \<noteq> None" for k
    using assms(1) that by (cases "k = fst g") (auto simp: registry_inv_def drop_running_def s)
  ultimately show ?thesis
    using assms(1) unfolding registry_inv_def by (simp add: drop_running_def s) blast
qed

lemma cancel_keeps:
  assumes "registry_inv r"
  shows "registry_inv (snd (cancel_job job r))"
proof (cases "rg_running r job")
  case None
  with assms show ?thesis
    by (simp add: cancel_job_def)
next
  case (Some token)
  with assms have "token < rg_next r"
    unfolding registry_inv_def by blast
  moreover have "snd (cancel_job job r) = r \<lparr> rg_cancelled := token # rg_cancelled r \<rparr>"
    by (simp add: cancel_job_def Some)
  ultimately show ?thesis
    using assms unfolding registry_inv_def by simp
qed

lemma report_keeps:
  assumes "registry_inv r"
  shows "registry_inv (set_run_status job f m r)"
proof (cases "rg_status r job")
  case None
  with assms show ?thesis
    by (simp add: set_run_status_def)
next
  case (Some st)
  then have "job \<in> fst ` set (rg_guards r) \<union> set (rg_dropping r)"
    using assms unfolding registry_inv_def by blast
  moreover have "set_run_status job f m r
      = r \<lparr> rg_status := (rg_status r)(job \<mapsto> st \<lparr> rs_fraction := f, rs_message := m \<rparr>) \<rparr>"
    by (simp add: set_run_status_def Some)
  ultimately show ?thesis
    using assms unfolding registry_inv_def by simp
qed

lemma drop_status_keeps:
  assumes "registry_inv r"
  shows "registry_inv (drop_status job r)"
proof -
  have "k \<in> fst ` set (rg_guards r) \<union> set (remove1 job (rg_dropping r))"
    if "rg_status r k \<noteq> None" "k \<noteq> job" for k
    using assms that by (auto simp: registry_inv_def)
  with assms show ?thesis
    unfolding registry_inv_def by (simp add: drop_status_def)
qed

lemma registry_step_keeps:
  assumes "registry_inv r" "registry_step r l = Some r'"
  shows "registry_inv r'"
  using assms
  by (cases l)
    (auto intro: claim_keeps cancel_keeps report_keeps drop_running_keeps drop_status_keeps
      split: option.splits if_splits)

interpretation runs: inductive_invariant "\<lambda>r. r = registry_init" "\<lambda>r l r'. registry_step r l = Some r'"
  registry_inv
proof unfold_locales
  show "registry_inv r" if "r = registry_init" for r
    using that by (simp add: registry_inv_def registry_init_def)
qed (rule registry_step_keeps)


section \<open>Properties\<close>

definition demo_registry :: registry where
  "demo_registry = snd (the (try_claim_run ''a'' 7 registry_init))"

lemma demo_registry_reachable: "registry_reachable demo_registry"
proof -
  have "run_labels registry_step [Claim ''a'' 7] registry_init = Some demo_registry"
    by (simp add: demo_registry_def try_claim_run_def registry_init_def)
  then show ?thesis
    by (rule run_labels_reachable) (rule reach_init, rule refl)
qed

text \<open>C25: One run per job. In every reachable state of the registry, whatever claims, cancellations,
  progress reports and drops came before in whatever order, a job has at most one live guard; a
  claim succeeds exactly when the job has none, with a token no cancellation has touched; and a
  cancellation finds a run exactly when the job has a live guard and then cancels the token of that
  guard and of no other live run.\<close>

theorem one_run_per_job:
  assumes "registry_reachable r"
  shows "(\<forall>t u. (job, t) \<in> set (rg_guards r) \<and> (job, u) \<in> set (rg_guards r) \<longrightarrow> t = u) \<and>
    (try_claim_run job now r = None \<longleftrightarrow> (\<exists>t. (job, t) \<in> set (rg_guards r))) \<and>
    (\<forall>t r'. try_claim_run job now r = Some (t, r') \<longrightarrow>
       t \<notin> set (rg_cancelled r') \<and> (job, t) \<in> set (rg_guards r')) \<and>
    (fst (cancel_job job r) \<longleftrightarrow> (\<exists>t. (job, t) \<in> set (rg_guards r))) \<and>
    (\<forall>k t. (k, t) \<in> set (rg_guards r) \<longrightarrow>
       (t \<in> set (rg_cancelled (snd (cancel_job job r))) \<longleftrightarrow> k = job \<or> t \<in> set (rg_cancelled r)))"
proof -
  have inv: "registry_inv r"
    using assms by (rule runs.reachable_inv)
  then have guards: "(rg_running r k = Some t) = ((k, t) \<in> set (rg_guards r))" for k t
    by (simp add: registry_inv_def)
  have tokens: "k = k'" if "(k, t) \<in> set (rg_guards r)" "(k', t) \<in> set (rg_guards r)" for k k' t
    using inv that inj_onD [of snd "set (rg_guards r)" "(k, t)" "(k', t)"]
    by (simp add: registry_inv_def distinct_map)
  have busy: "(\<exists>t. (job, t) \<in> set (rg_guards r)) = (rg_running r job \<noteq> None)"
    using guards by auto
  have "\<forall>t u. (job, t) \<in> set (rg_guards r) \<and> (job, u) \<in> set (rg_guards r) \<longrightarrow> t = u"
    unfolding guards [symmetric] by auto
  moreover have "try_claim_run job now r = None \<longleftrightarrow> (\<exists>t. (job, t) \<in> set (rg_guards r))"
    unfolding busy by (simp add: try_claim_run_def Let_def split: option.split)
  moreover have "\<forall>t \<in> set (rg_cancelled r). t < rg_next r"
    using inv by (simp add: registry_inv_def)
  then have "\<forall>t r'. try_claim_run job now r = Some (t, r') \<longrightarrow>
      t \<notin> set (rg_cancelled r') \<and> (job, t) \<in> set (rg_guards r')"
    by (auto simp: try_claim_run_def Let_def split: option.splits)
  moreover have "fst (cancel_job job r) \<longleftrightarrow> (\<exists>t. (job, t) \<in> set (rg_guards r))"
    unfolding busy by (simp add: cancel_job_def split: option.split)
  moreover have "t \<in> set (rg_cancelled (snd (cancel_job job r))) \<longleftrightarrow> k = job \<or> t \<in> set (rg_cancelled r)"
    if live: "(k, t) \<in> set (rg_guards r)" for k t
  proof (cases "rg_running r job")
    case None
    then have "k \<noteq> job"
      using live busy by blast
    with None show ?thesis
      by (simp add: cancel_job_def)
  next
    case (Some u)
    then have "(job, u) \<in> set (rg_guards r)"
      using guards by simp
    then have "t = u \<longleftrightarrow> k = job"
      using live tokens guards by (metis option.inject)
    with Some show ?thesis
      by (simp add: cancel_job_def)
  qed
  ultimately show ?thesis
    by blast
qed

theorem one_run_per_job_witness:
  "try_claim_run ''a'' 9 demo_registry = None \<and> fst (cancel_job ''a'' demo_registry)"
proof -
  have "(''a'', 0) \<in> set (rg_guards demo_registry)"
    by (simp add: demo_registry_def try_claim_run_def registry_init_def)
  with one_run_per_job [OF demo_registry_reachable, of "''a''" 9] show ?thesis
    by blast
qed

text \<open>The progress map is not in lockstep with the map of running jobs. When a guard is dropped
  while the job is claimed again, between the two halves of the drop, the second half removes the
  progress of the new run: a state is reachable in which the job is running, with its guard alive,
  and the snapshot of running jobs does not list it.\<close>

theorem running_job_without_status:
  "\<exists>r. registry_reachable r \<and> rg_running r ''a'' \<noteq> None \<and> rg_status r ''a'' = None \<and>
     (''a'', 1) \<in> set (rg_guards r) \<and> running_snapshot [''a''] r = []"
proof -
  let ?ops = "[Claim ''a'' 1, DropRunning (''a'', 0), Claim ''a'' 2, DropStatus ''a'']"
  obtain r where r: "run_labels registry_step ?ops registry_init = Some r"
    by (simp add: registry_init_def try_claim_run_def drop_running_def)
  then have "registry_reachable r"
    by (rule run_labels_reachable) (rule reach_init, rule refl)
  moreover have "rg_running r ''a'' \<noteq> None \<and> rg_status r ''a'' = None \<and>
      (''a'', 1) \<in> set (rg_guards r) \<and> running_snapshot [''a''] r = []"
    using r by (auto simp: registry_init_def try_claim_run_def drop_running_def drop_status_def
        running_snapshot_def)
  ultimately show ?thesis
    by blast
qed

end
