(* ===== verification/Metrics.thy ===== *)
theory Metrics
  imports Protocol Upload
begin

text \<open>
  The metrics exporter (\<open>pbsgui-engine/src/metrics.rs\<close>): the state kept per job, its updates, the
  exposition text, the settings and the HTTP answers. Floating-point values are opaque words; the
  operations of the processor and the standard library on them (conversion, division, the test for
  a whole number below 1e15, printing in full and without decimals) are a parameter. The counters
  wrap as in a release build.
\<close>

section \<open>State\<close>

type_synonym f64 = "64 word"

record floats =
  f64_of_int :: "int \<Rightarrow> f64"
  f64_div :: "f64 \<Rightarrow> f64 \<Rightarrow> f64"
  f64_mul :: "f64 \<Rightarrow> f64 \<Rightarrow> f64"
  f64_zero :: f64
  f64_percent :: "f64 \<Rightarrow> string"
  f64_whole :: "f64 \<Rightarrow> i64 option"
  f64_show :: "f64 \<Rightarrow> string"

datatype RunResult = RunSuccess | RunSkipped | RunFailure

record SqlDbStatus =
  ss_database :: string
  ss_chain_latest :: "i64 option"
  ss_stalled :: bool
  ss_full_count :: u32
  ss_log_count :: u32
  ss_pit_window_secs :: "i64 option"

record JobRuntime =
  jr_last_run :: "i64 option"
  jr_last_success :: "i64 option"
  jr_last_ok :: "bool option"
  jr_last_duration :: "f64 option"
  jr_last_bytes :: "u64 option"
  jr_last_chunks :: "u64 option"
  jr_last_uploaded :: "u64 option"
  jr_last_reused :: "u64 option"
  jr_last_uploaded_bytes :: "u64 option"
  jr_last_stored_bytes :: "u64 option"
  jr_runs_success :: u64
  jr_runs_failure :: u64
  jr_runs_skipped :: u64
  jr_bytes_total :: u64
  jr_running :: bool
  jr_progress_bytes :: u64
  jr_progress_total :: u64
  jr_throughput_bps :: f64
  jr_databases :: "SqlDbStatus list"

record metrics_state =
  mt_start_time :: i64
  mt_jobs :: "string \<rightharpoonup> JobRuntime"

definition runtime_default :: "floats \<Rightarrow> JobRuntime" where
  "runtime_default F =
     \<lparr> jr_last_run = None, jr_last_success = None, jr_last_ok = None, jr_last_duration = None,
       jr_last_bytes = None, jr_last_chunks = None, jr_last_uploaded = None, jr_last_reused = None,
       jr_last_uploaded_bytes = None, jr_last_stored_bytes = None, jr_runs_success = 0,
       jr_runs_failure = 0, jr_runs_skipped = 0, jr_bytes_total = 0, jr_running = False,
       jr_progress_bytes = 0, jr_progress_total = 0, jr_throughput_bps = f64_zero F,
       jr_databases = [] \<rparr>"

definition runtime_of :: "floats \<Rightarrow> metrics_state \<Rightarrow> string \<Rightarrow> JobRuntime" where
  "runtime_of F st job = (case mt_jobs st job of None \<Rightarrow> runtime_default F | Some j \<Rightarrow> j)"

definition put_runtime :: "string \<Rightarrow> JobRuntime \<Rightarrow> metrics_state \<Rightarrow> metrics_state" where
  "put_runtime job j st = st \<lparr> mt_jobs := (mt_jobs st)(job \<mapsto> j) \<rparr>"

definition set_running :: "floats \<Rightarrow> string \<Rightarrow> bool \<Rightarrow> metrics_state \<Rightarrow> metrics_state" where
  "set_running F job r st = put_runtime job ((runtime_of F st job) \<lparr> jr_running := r \<rparr>) st"

definition record_progress :: "floats \<Rightarrow> string \<Rightarrow> BackupProgress \<Rightarrow> f64 \<Rightarrow> metrics_state \<Rightarrow> metrics_state" where
  "record_progress F job p bps st =
     put_runtime job ((runtime_of F st job)
       \<lparr> jr_running := True, jr_progress_bytes := bp_bytes_done p, jr_progress_total := bp_total_bytes p,
         jr_throughput_bps := bps \<rparr>) st"

definition count_result :: "RunResult \<Rightarrow> i64 \<Rightarrow> JobRuntime \<Rightarrow> JobRuntime" where
  "count_result result now j =
     (case result of
        RunSuccess \<Rightarrow> j \<lparr> jr_runs_success := jr_runs_success j + 1, jr_last_ok := Some True,
                          jr_last_success := Some now \<rparr>
      | RunSkipped \<Rightarrow> j \<lparr> jr_runs_skipped := jr_runs_skipped j + 1, jr_last_ok := Some True \<rparr>
      | RunFailure \<Rightarrow> j \<lparr> jr_runs_failure := jr_runs_failure j + 1, jr_last_ok := Some False \<rparr>)"

definition record_stats :: "BackupStats option \<Rightarrow> JobRuntime \<Rightarrow> JobRuntime" where
  "record_stats stats j =
     (case stats of
        None \<Rightarrow> j
      | Some s \<Rightarrow>
          j \<lparr> jr_last_bytes := Some (st_bytes s), jr_last_chunks := Some (st_chunks s),
              jr_last_uploaded := Some (st_uploaded s), jr_last_reused := Some (st_reused s),
              jr_last_uploaded_bytes := Some (st_uploaded_bytes s),
              jr_last_stored_bytes := Some (st_stored_bytes s),
              jr_bytes_total := jr_bytes_total j + st_bytes s \<rparr>)"

definition metrics_record_run ::
  "floats \<Rightarrow> string \<Rightarrow> RunResult \<Rightarrow> f64 \<Rightarrow> BackupStats option \<Rightarrow> i64 \<Rightarrow> metrics_state \<Rightarrow> metrics_state" where
  "metrics_record_run F job result duration stats now st =
     (let j = (runtime_of F st job) \<lparr> jr_running := False, jr_last_run := Some now,
                jr_last_duration := Some duration \<rparr>;
          j' = record_stats stats (count_result result now j)
      in put_runtime job (j' \<lparr> jr_progress_bytes := 0, jr_progress_total := 0,
                               jr_throughput_bps := f64_zero F \<rparr>) st)"

definition set_sql_status :: "floats \<Rightarrow> string \<Rightarrow> SqlDbStatus list \<Rightarrow> metrics_state \<Rightarrow> metrics_state" where
  "set_sql_status F job dbs st = put_runtime job ((runtime_of F st job) \<lparr> jr_databases := dbs \<rparr>) st"


section \<open>Exposition text\<close>

text \<open>Character-wise replacement, as the successive calls of \<open>replace\<close> do it.\<close>

definition replace_char :: "char \<Rightarrow> string \<Rightarrow> string \<Rightarrow> string" where
  "replace_char c r s = concat (map (\<lambda>x. if x = c then r else [x]) s)"

definition esc :: "string \<Rightarrow> string" where
  "esc s =
     replace_char (CHR 0x0A) [CHR 0x5C, CHR ''n'']
       (replace_char (CHR 0x22) [CHR 0x5C, CHR 0x22]
          (replace_char (CHR 0x5C) [CHR 0x5C, CHR 0x5C] s))"

abbreviation nl :: string where
  "nl \<equiv> [CHR 0x0A]"

abbreviation quoted :: "string \<Rightarrow> string" where
  "quoted s \<equiv> CHR 0x22 # s @ [CHR 0x22]"

definition help_lines :: "string \<Rightarrow> string \<Rightarrow> string \<Rightarrow> string list" where
  "help_lines name help kind = [''# HELP '' @ name @ '' '' @ help, ''# TYPE '' @ name @ '' '' @ kind]"

text \<open>\<open>f64_whole v\<close> is \<open>v as i64\<close> when \<open>v.fract() == 0.0 && v.abs() < 1e15\<close>.\<close>

definition fmt :: "floats \<Rightarrow> f64 \<Rightarrow> string" where
  "fmt F v = (case f64_whole F v of Some i \<Rightarrow> show_int (sint i) | None \<Rightarrow> f64_show F v)"

definition job_gauge ::
  "floats \<Rightarrow> metrics_state \<Rightarrow> Job list \<Rightarrow> string \<times> string \<times> (JobRuntime \<Rightarrow> f64 option) \<Rightarrow> string list" where
  "job_gauge F st jobs g =
     (let (name, help, pick) = g in
      help_lines name help ''gauge'' @
      concat (map (\<lambda>job.
        case mt_jobs st (j_id job) of
          None \<Rightarrow> []
        | Some r \<Rightarrow>
            (case pick r of
               None \<Rightarrow> []
             | Some v \<Rightarrow> [name @ ''{job='' @ quoted (esc (j_name job)) @ ''} '' @ fmt F v])) jobs))"

definition protection_label :: "SqlProtection \<Rightarrow> string" where
  "protection_label p =
     (case p of
        PointInTime _ _ \<Rightarrow> ''point_in_time''
      | DailyRestorePoints _ \<Rightarrow> ''daily_restore_points''
      | SecondaryCopy _ \<Rightarrow> ''secondary_copy'')"

definition show_bool :: "bool \<Rightarrow> string" where
  "show_bool b = (if b then ''true'' else ''false'')"

definition job_info_line :: "Job \<Rightarrow> string" where
  "job_info_line job =
     (let (source, plan) = (case j_source job of
              Sql _ _ protection \<Rightarrow> (''sql'', protection_label protection)
            | Files _ _ _ \<Rightarrow> (''files'', []));
          destination = (case j_destination job of Pbs _ _ \<Rightarrow> ''pbs'' | Folder _ \<Rightarrow> ''folder'')
      in ''pbsgui_job_info{job='' @ quoted (esc (j_name job)) @ '',job_id='' @ quoted (esc (j_id job))
           @ '',source='' @ quoted source @ '',destination='' @ quoted destination
           @ '',plan='' @ quoted plan @ '',encrypted='' @ quoted (show_bool (j_encrypted job)) @ ''} 1'')"

definition render_head :: "string \<Rightarrow> string \<Rightarrow> metrics_state \<Rightarrow> Job list \<Rightarrow> string list" where
  "render_head version commit st jobs =
     help_lines ''pbsgui_build_info'' ''Build information.'' ''gauge'' @
     [''pbsgui_build_info{version='' @ quoted version @ '',commit='' @ quoted (esc commit) @ ''} 1''] @
     help_lines ''pbsgui_jobs'' ''Number of configured jobs.'' ''gauge'' @
     [''pbsgui_jobs '' @ show_nat (length jobs)] @
     help_lines ''pbsgui_engine_start_timestamp_seconds'' ''Engine start time.'' ''gauge'' @
     [''pbsgui_engine_start_timestamp_seconds '' @ show_int (sint (mt_start_time st))] @
     help_lines ''pbsgui_job_info'' ''Static job metadata.'' ''gauge'' @
     map job_info_line jobs"

definition last_gauges :: "floats \<Rightarrow> (string \<times> string \<times> (JobRuntime \<Rightarrow> f64 option)) list" where
  "last_gauges F =
     (let b = (\<lambda>x. f64_of_int F (if x then 1 else 0));
          i = map_option (\<lambda>v :: i64. f64_of_int F (sint v));
          u = map_option (\<lambda>v :: u64. f64_of_int F (uint v))
      in [(''pbsgui_job_running'', ''1 while a backup for the job is running.'', \<lambda>r. Some (b (jr_running r))),
          (''pbsgui_job_last_run_timestamp_seconds'', ''Time of the last run.'', \<lambda>r. i (jr_last_run r)),
          (''pbsgui_job_last_success_timestamp_seconds'', ''Time of the last successful run.'',
             \<lambda>r. i (jr_last_success r)),
          (''pbsgui_job_last_run_success'', ''1 if the last run succeeded, else 0.'',
             \<lambda>r. map_option b (jr_last_ok r)),
          (''pbsgui_job_last_duration_seconds'', ''Duration of the last run.'', jr_last_duration),
          (''pbsgui_job_last_size_bytes'', ''Size of the last backup.'', \<lambda>r. u (jr_last_bytes r)),
          (''pbsgui_job_last_chunks'', ''Chunks in the last backup.'', \<lambda>r. u (jr_last_chunks r)),
          (''pbsgui_job_last_chunks_uploaded'', ''Chunks uploaded in the last backup.'',
             \<lambda>r. u (jr_last_uploaded r)),
          (''pbsgui_job_last_chunks_reused'', ''Chunks reused (deduplicated) in the last backup.'',
             \<lambda>r. u (jr_last_reused r)),
          (''pbsgui_job_last_uploaded_bytes'',
             ''Plaintext bytes uploaded (not deduplicated) in the last backup.'',
             \<lambda>r. u (jr_last_uploaded_bytes r)),
          (''pbsgui_job_last_stored_bytes'',
             ''Encoded bytes stored after compression/encryption in the last backup.'',
             \<lambda>r. u (jr_last_stored_bytes r)),
          (''pbsgui_job_last_compression_ratio'',
             ''Compression ratio of uploaded data in the last backup (uploaded/stored).'',
             \<lambda>r. case (jr_last_uploaded_bytes r, jr_last_stored_bytes r) of
                   (Some a, Some s) \<Rightarrow>
                     if 0 < uint s then Some (f64_div F (f64_of_int F (uint a)) (f64_of_int F (uint s)))
                     else None
                 | _ \<Rightarrow> None)])"

definition progress_gauges :: "floats \<Rightarrow> (string \<times> string \<times> (JobRuntime \<Rightarrow> f64 option)) list" where
  "progress_gauges F =
     [(''pbsgui_job_progress_bytes'', ''Bytes processed so far in the running backup.'',
         \<lambda>r. if jr_running r then Some (f64_of_int F (uint (jr_progress_bytes r))) else None),
      (''pbsgui_job_progress_total_bytes'',
         ''Estimated total bytes for the running backup (0 if unknown).'',
         \<lambda>r. if jr_running r \<and> 0 < uint (jr_progress_total r)
             then Some (f64_of_int F (uint (jr_progress_total r))) else None),
      (''pbsgui_job_throughput_bytes_per_second'', ''Throughput of the running backup.'',
         \<lambda>r. if jr_running r then Some (jr_throughput_bps r) else None)]"

definition runs_total_lines :: "metrics_state \<Rightarrow> Job list \<Rightarrow> string list" where
  "runs_total_lines st jobs =
     help_lines ''pbsgui_job_runs_total'' ''Runs by result since engine start.'' ''counter'' @
     concat (map (\<lambda>job.
       case mt_jobs st (j_id job) of
         None \<Rightarrow> []
       | Some r \<Rightarrow>
           map (\<lambda>(result, n :: u64).
             ''pbsgui_job_runs_total{job='' @ quoted (esc (j_name job)) @ '',result='' @ quoted result
               @ ''} '' @ show_nat (unat n))
             [(''success'', jr_runs_success r), (''failure'', jr_runs_failure r),
              (''skipped'', jr_runs_skipped r)]) jobs)"

definition sql_gauges :: "floats \<Rightarrow> (string \<times> string \<times> (SqlDbStatus \<Rightarrow> f64 option)) list" where
  "sql_gauges F =
     [(''pbsgui_sql_chain_latest_timestamp_seconds'', ''Newest snapshot time in the shared PBS group.'',
         \<lambda>d. map_option (\<lambda>v. f64_of_int F (sint v)) (ss_chain_latest d)),
      (''pbsgui_sql_chain_stalled'', ''1 if the point-in-time chain has stopped advancing.'',
         \<lambda>d. Some (f64_of_int F (if ss_stalled d then 1 else 0))),
      (''pbsgui_sql_full_count'', ''Full backups retained in the group.'',
         \<lambda>d. Some (f64_of_int F (uint (ss_full_count d)))),
      (''pbsgui_sql_log_count'', ''Log backups retained in the group.'',
         \<lambda>d. Some (f64_of_int F (uint (ss_log_count d)))),
      (''pbsgui_sql_pit_window_seconds'', ''Span of the recoverable point-in-time window.'',
         \<lambda>d. map_option (\<lambda>v. f64_of_int F (sint v)) (ss_pit_window_secs d))]"

definition sql_lines ::
  "floats \<Rightarrow> metrics_state \<Rightarrow> Job list \<Rightarrow> string \<times> string \<times> (SqlDbStatus \<Rightarrow> f64 option) \<Rightarrow> string list" where
  "sql_lines F st jobs g =
     (let (name, help, pick) = g in
      help_lines name help ''gauge'' @
      concat (map (\<lambda>job.
        case mt_jobs st (j_id job) of
          None \<Rightarrow> []
        | Some r \<Rightarrow>
            concat (map (\<lambda>d.
              case pick d of
                None \<Rightarrow> []
              | Some v \<Rightarrow>
                  [name @ ''{job='' @ quoted (esc (j_name job)) @ '',database='' @ quoted (esc (ss_database d))
                     @ ''} '' @ fmt F v]) (jr_databases r))) jobs))"

definition render_lines :: "floats \<Rightarrow> string \<Rightarrow> string \<Rightarrow> metrics_state \<Rightarrow> Job list \<Rightarrow> string list" where
  "render_lines F version commit st jobs =
     render_head version commit st jobs @
     concat (map (job_gauge F st jobs) (last_gauges F @ progress_gauges F)) @
     runs_total_lines st jobs @
     job_gauge F st jobs (''pbsgui_job_bytes_backed_up_total'',
       ''Cumulative bytes backed up since engine start.'',
       \<lambda>r. Some (f64_of_int F (uint (jr_bytes_total r)))) @
     concat (map (sql_lines F st jobs) (sql_gauges F))"

definition metrics_render :: "floats \<Rightarrow> string \<Rightarrow> string \<Rightarrow> metrics_state \<Rightarrow> Job list \<Rightarrow> string" where
  "metrics_render F version commit st jobs = concat (map (\<lambda>l. l @ nl) (render_lines F version commit st jobs))"


section \<open>Settings, textfile and endpoint\<close>

text \<open>
  \<open>parse\<close> stands for \<open>serde_json::from_slice\<close>; a file that cannot be read is \<open>None\<close>.
  The textfile directory is a map from path to content, \<open>put\<close> the outcome of a write and
  \<open>mv\<close> that of a rename.
\<close>

definition metrics_default_settings :: MetricsSettings where
  "metrics_default_settings =
     \<lparr> ms_mode = Off, ms_port = 9654, ms_bind = ''127.0.0.1'', ms_textfile_dir = [] \<rparr>"

definition metrics_load :: "(bytes \<Rightarrow> MetricsSettings option) \<Rightarrow> bytes option \<Rightarrow> MetricsSettings" where
  "metrics_load parse content =
     (case content of
        None \<Rightarrow> metrics_default_settings
      | Some b \<Rightarrow> (case parse b of None \<Rightarrow> metrics_default_settings | Some m \<Rightarrow> m))"

definition write_textfile ::
  "bool \<Rightarrow> bool \<Rightarrow> MetricsSettings \<Rightarrow> string \<Rightarrow> (string \<times> string \<rightharpoonup> string) \<Rightarrow> (string \<times> string \<rightharpoonup> string)" where
  "write_textfile put mv settings body fs =
     (let dir = trim (ms_textfile_dir settings) in
      if ms_mode settings \<noteq> Textfile \<or> dir = [] then fs
      else if \<not> put then fs
      else
        let fs' = fs((dir, ''pbsgui.prom.tmp'') \<mapsto> body) in
        if \<not> mv then fs'
        else fs'((dir, ''pbsgui.prom.tmp'') := None, (dir, ''pbsgui.prom'') \<mapsto> body))"

text \<open>The running endpoint, if any, and the directory. A running endpoint is always stopped first.\<close>

definition metrics_apply ::
  "bool \<Rightarrow> bool \<Rightarrow> MetricsSettings \<Rightarrow> string \<Rightarrow> (string \<times> u16) option \<times> (string \<times> string \<rightharpoonup> string)
   \<Rightarrow> (string \<times> u16) option \<times> (string \<times> string \<rightharpoonup> string)" where
  "metrics_apply put mv settings body w =
     (let (server, fs) = w in
      case ms_mode settings of
        Endpoint \<Rightarrow> (Some (ms_bind settings, ms_port settings), fs)
      | Textfile \<Rightarrow> (None, write_textfile put mv settings body fs)
      | Off \<Rightarrow> (None, fs))"

definition metrics_route :: "string \<Rightarrow> string \<Rightarrow> string \<times> string \<times> string" where
  "metrics_route body req =
     (let tokens = split_ws req;
          method_name = (case tokens of m # _ \<Rightarrow> m | [] \<Rightarrow> []);
          path = (case tokens of _ # p # _ \<Rightarrow> p | _ \<Rightarrow> [])
      in if method_name \<noteq> ''GET'' then
           (''405 Method Not Allowed'', ''text/plain; charset=utf-8'', ''method not allowed'' @ nl)
         else if starts_with ''/metrics'' path then
           (''200 OK'', ''text/plain; version=0.0.4; charset=utf-8'', body)
         else if path = ''/'' then
           (''200 OK'', ''text/html; charset=utf-8'',
            ''<html><body>pbsgui metrics: <a href='' @ quoted ''/metrics'' @ ''>/metrics</a></body></html>'')
         else (''404 Not Found'', ''text/plain; charset=utf-8'', ''not found'' @ nl))"

text \<open>The answer to what the first read of a connection returned (at most 2048 bytes).\<close>

definition metrics_serve :: "string \<Rightarrow> string \<Rightarrow> string option" where
  "metrics_serve body received =
     (let buf = take 2048 received in
      if buf = [] then None
      else
        let (status, ctype, content) = metrics_route body buf in
        Some (''HTTP/1.1 '' @ status @ eol @ ''Content-Type: '' @ ctype @ eol
          @ ''Content-Length: '' @ show_nat (length content) @ eol
          @ ''Connection: close'' @ eol @ eol @ content))"


section \<open>Counters\<close>

lemma runtime_of_put: "runtime_of F (put_runtime a j st) b = (if a = b then j else runtime_of F st b)"
  by (simp add: runtime_of_def put_runtime_def)

lemma record_run_counts:
  "runtime_of F (metrics_record_run F a r d s now st) a = j \<Longrightarrow>
   jr_runs_success j + jr_runs_failure j + jr_runs_skipped j
     = jr_runs_success (runtime_of F st a) + jr_runs_failure (runtime_of F st a)
       + jr_runs_skipped (runtime_of F st a) + 1
   \<and> \<not> jr_running j \<and> jr_last_run j = Some now \<and> (jr_last_ok j = Some (r \<noteq> RunFailure))"
  by (cases r; cases s)
    (auto simp: metrics_record_run_def runtime_of_put count_result_def record_stats_def Let_def)


section \<open>Label values\<close>

text \<open>How a scraper reads a label value after its opening quote: up to the next bare quote, with the
  three escapes undone.\<close>

fun parse_label :: "string \<Rightarrow> (string \<times> string) option" where
  "parse_label [] = None"
| "parse_label (c # cs) =
     (if c = CHR 0x22 then Some ([], cs)
      else if c = CHR 0x0A then None
      else if c = CHR 0x5C then
        (case cs of
           [] \<Rightarrow> None
         | d # ds \<Rightarrow>
             if d = CHR ''n'' then map_option (apfst (Cons (CHR 0x0A))) (parse_label ds)
             else if d = CHR 0x22 \<or> d = CHR 0x5C then map_option (apfst (Cons d)) (parse_label ds)
             else None)
      else map_option (apfst (Cons c)) (parse_label cs))"

lemma replace_char_append [simp]: "replace_char c r (a @ b) = replace_char c r a @ replace_char c r b"
  by (simp add: replace_char_def)

lemma replace_char_Nil [simp]: "replace_char c r [] = []"
  by (simp add: replace_char_def)

lemma replace_char_Cons: "replace_char c r (x # xs) = (if x = c then r else [x]) @ replace_char c r xs"
  by (simp add: replace_char_def)

lemma esc_Nil [simp]: "esc [] = []"
  by (simp add: esc_def)

lemma esc_Cons:
  "esc (x # xs) =
     (if x = CHR 0x5C then [CHR 0x5C, CHR 0x5C]
      else if x = CHR 0x22 then [CHR 0x5C, CHR 0x22]
      else if x = CHR 0x0A then [CHR 0x5C, CHR ''n'']
      else [x]) @ esc xs"
  by (simp add: esc_def replace_char_Cons)

lemma parse_label_esc: "parse_label (esc s @ CHR 0x22 # rest) = Some (s, rest)"
  by (induction s) (auto simp: esc_Cons)

lemma esc_no_newline: "CHR 0x0A \<notin> set (esc s)"
  by (induction s) (auto simp: esc_Cons)

lemma show_nat_no_newline [simp]: "CHR 0x0A \<notin> set (show_nat n)"
  using show_nat_digits [of "CHR 0x0A" n] by (auto simp: is_digit_def)

lemma show_int_no_newline [simp]: "CHR 0x0A \<notin> set (show_int i)"
  by (simp add: show_int_def)

definition one_line :: "string \<Rightarrow> bool" where
  "one_line l = (CHR 0x0A \<notin> set l)"

definition floats_one_line :: "floats \<Rightarrow> bool" where
  "floats_one_line F = (\<forall>v. one_line (f64_show F v))"

lemma one_line_fmt: "floats_one_line F \<Longrightarrow> CHR 0x0A \<notin> set (fmt F v)"
  by (auto simp: fmt_def floats_one_line_def one_line_def split: option.split)

lemmas line_defs = one_line_def help_lines_def esc_no_newline

lemma help_one_line:
  "CHR 0x0A \<notin> set name \<Longrightarrow> CHR 0x0A \<notin> set help \<Longrightarrow> CHR 0x0A \<notin> set kind \<Longrightarrow>
   list_all one_line (help_lines name help kind)"
  by (simp add: line_defs)

lemma list_all_concat_map: "(\<And>x. list_all P (f x)) \<Longrightarrow> list_all P (concat (map f xs))"
  by (induction xs) auto

lemma job_gauge_one_line:
  assumes "floats_one_line F" "CHR 0x0A \<notin> set (fst g)" "CHR 0x0A \<notin> set (fst (snd g))"
  shows "list_all one_line (job_gauge F st jobs g)"
  using assms
  by (auto simp: job_gauge_def help_one_line esc_no_newline one_line_fmt one_line_def
      split: prod.split option.split intro!: list_all_concat_map)

lemma sql_lines_one_line:
  assumes "floats_one_line F" "CHR 0x0A \<notin> set (fst g)" "CHR 0x0A \<notin> set (fst (snd g))"
  shows "list_all one_line (sql_lines F st jobs g)"
  using assms
  by (auto simp: sql_lines_def help_one_line esc_no_newline one_line_fmt one_line_def
      split: prod.split option.split intro!: list_all_concat_map)

lemma job_info_one_line: "one_line (job_info_line job)"
  by (auto simp: job_info_line_def esc_no_newline one_line_def protection_label_def show_bool_def
      split: JobSource.split JobDestination.split SqlProtection.split)

lemma runs_total_one_line: "list_all one_line (runs_total_lines st jobs)"
  by (auto simp: runs_total_lines_def help_one_line esc_no_newline one_line_def
      split: option.split intro!: list_all_concat_map)

lemma render_head_one_line: "one_line version \<Longrightarrow> list_all one_line (render_head version commit st jobs)"
  by (auto simp: render_head_def help_one_line esc_no_newline one_line_def list_all_iff
      job_info_one_line [unfolded one_line_def] help_lines_def)

lemma gauges_one_line:
  assumes "floats_one_line F"
  shows "list_all one_line (concat (map (job_gauge F st jobs) (last_gauges F @ progress_gauges F)))"
    and "list_all one_line (concat (map (sql_lines F st jobs) (sql_gauges F)))"
  using assms
  by (simp_all add: last_gauges_def progress_gauges_def sql_gauges_def Let_def job_gauge_one_line
      sql_lines_one_line)

lemma render_one_line:
  "floats_one_line F \<Longrightarrow> one_line version \<Longrightarrow> list_all one_line (render_lines F version commit st jobs)"
  using gauges_one_line [of F st jobs]
  by (simp add: render_lines_def render_head_one_line runs_total_one_line job_gauge_one_line)

lemma split_on_lines:
  "list_all one_line ls \<Longrightarrow> split_on (CHR 0x0A) (concat (map (\<lambda>l. l @ nl) ls)) = ls @ [[]]"
  by (induction ls) (auto simp: one_line_def split_on_append)

lemma job_info_label:
  "\<exists>rest. parse_label (drop (length (''pbsgui_job_info{job='' @ [CHR 0x22])) (job_info_line job))
             = Some (j_name job, rest)"
  by (auto simp: job_info_line_def Let_def parse_label_esc split: prod.split)

definition demo_floats :: floats where
  "demo_floats =
     \<lparr> f64_of_int = of_int, f64_div = (div), f64_mul = (*), f64_zero = 0,
       f64_percent = (\<lambda>v. show_nat (unat v)), f64_whole = Some, f64_show = (\<lambda>v. ''0.5'') \<rparr>"

definition demo_metrics :: metrics_state where
  "demo_metrics = metrics_record_run demo_floats ''j1'' RunSuccess 7 None 100 \<lparr> mt_start_time = 5, mt_jobs = Map.empty \<rparr>"

definition hostile_job :: Job where
  "hostile_job =
     \<lparr> j_id = ''j1'', j_name = [CHR ''a'', CHR 0x22, CHR 0x7D, CHR 0x0A, CHR 0x5C], j_source = Files [''/d''] [] False,
       j_destination = Folder ''/b'', j_schedule = Manual, j_last_run = None, j_last_status = None,
       j_encrypted = False, j_compress = False \<rparr>"

text \<open>Whatever the names of jobs and databases contain, the exposition text has exactly the
  lines the exporter wrote (no name can start a line of its own), and a scraper reading the job
  label of an info line from its opening quote gets the job's name back. The float printer of the
  library is taken to print no newline.\<close>

theorem exposition_safe:
  assumes "floats_one_line F" and "one_line version"
  shows "split_on (CHR 0x0A) (metrics_render F version commit st jobs)
           = render_lines F version commit st jobs @ [[]]
         \<and> (\<exists>rest. parse_label (drop (length (''pbsgui_job_info{job='' @ [CHR 0x22])) (job_info_line job))
                    = Some (j_name job, rest))"
  using assms job_info_label by (simp add: metrics_render_def split_on_lines render_one_line)

theorem exposition_safe_witness:
  "split_on (CHR 0x0A) (metrics_render demo_floats ''1.0'' ''dev'' demo_metrics [hostile_job])
     = render_lines demo_floats ''1.0'' ''dev'' demo_metrics [hostile_job] @ [[]]"
  using exposition_safe [of demo_floats "''1.0''" "''dev''" demo_metrics "[hostile_job]" hostile_job]
  by (simp add: floats_one_line_def demo_floats_def one_line_def)

end
