(* ===== verification/Notify.thy ===== *)
theory Notify
  imports Stores Scheduler Metrics
begin

text \<open>
  Notifications (\<open>pbsgui-engine/src/notify.rs\<close>) and the byte counts they and the run summaries
  print (\<open>human_bytes\<close> of \<open>backup.rs\<close>): settings and secrets, the texts of both channels, and
  which deliveries a finished run or a stalled chain causes. The mail and HTTP libraries are a
  parameter.
\<close>

section \<open>Byte counts\<close>

text \<open>The count as a double: to the nearest multiple of the last of 53 bits, ties to even. Dividing
  by 1024 is exact, and two decimals are printed to nearest, ties to even.\<close>

definition div_half_even :: "nat \<Rightarrow> nat \<Rightarrow> nat" where
  "div_half_even a b =
     (let q = a div b; r = a mod b in if 2 * r < b \<or> 2 * r = b \<and> even q then q else Suc q)"

fun bit_len :: "nat \<Rightarrow> nat" where
  "bit_len n = (if n = 0 then 0 else Suc (bit_len (n div 2)))"

definition to_f64 :: "nat \<Rightarrow> nat" where
  "to_f64 n = (let u = 2 ^ (bit_len n - 53) in div_half_even n u * u)"

function unit_loop :: "nat \<Rightarrow> nat \<Rightarrow> nat" where
  "unit_loop r u = (if 1024 ^ Suc u \<le> r \<and> u < 4 then unit_loop r (Suc u) else u)"
  by pat_completeness auto
termination
  by (relation "measure (\<lambda>(r, u). 4 - u)") auto

declare unit_loop.simps [simp del] bit_len.simps [simp del]

definition human_bytes :: "u64 \<Rightarrow> string" where
  "human_bytes n =
     (let r = to_f64 (unat n); u = unit_loop r 0 in
      if u = 0 then show_nat (unat n) @ '' B''
      else let h = div_half_even (100 * r) (1024 ^ u) in
           show_nat (h div 100) @ ''.'' @ pad2 (h mod 100) @ '' ''
             @ [''B'', ''KiB'', ''MiB'', ''GiB'', ''TiB''] ! u)"


section \<open>Settings and secrets\<close>

definition SMTP_SECRET_KEY :: string where
  "SMTP_SECRET_KEY = ''notify:smtp''"

definition WEBHOOK_SECRET_KEY :: string where
  "WEBHOOK_SECRET_KEY = ''notify:webhook''"

definition notify_default_settings :: NotificationSettings where
  "notify_default_settings =
     \<lparr> ns_on_success = False, ns_on_failure = True, ns_on_stall = True,
       ns_email = \<lparr> es_enabled = False, es_host = [], es_port = 587, es_security = Starttls,
         es_username = [], es_from = [], es_to = [] \<rparr>,
       ns_webhook = \<lparr> wh_enabled = False \<rparr> \<rparr>"

definition notify_load :: "(bytes \<Rightarrow> NotificationSettings option) \<Rightarrow> bytes option \<Rightarrow> NotificationSettings" where
  "notify_load parse content =
     (case content of
        None \<Rightarrow> notify_default_settings
      | Some b \<Rightarrow> (case parse b of None \<Rightarrow> notify_default_settings | Some s \<Rightarrow> s))"

definition secret_stored :: "string \<Rightarrow> keyring \<Rightarrow> bool" where
  "secret_stored k kr = (case secret_get k kr of Inr (Some _) \<Rightarrow> True | _ \<Rightarrow> False)"

definition secret_flags :: "keyring \<Rightarrow> bool \<times> bool" where
  "secret_flags kr = (secret_stored SMTP_SECRET_KEY kr, secret_stored WEBHOOK_SECRET_KEY kr)"

definition set_smtp_password :: "string option \<Rightarrow> keyring \<Rightarrow> (string + unit) \<times> keyring" where
  "set_smtp_password password kr =
     (case password of None \<Rightarrow> (Ok (), kr) | Some p \<Rightarrow> secret_set SMTP_SECRET_KEY p kr)"

definition set_webhook_url :: "string option \<Rightarrow> keyring \<Rightarrow> (string + unit) \<times> keyring" where
  "set_webhook_url url kr =
     (case url of None \<Rightarrow> (Ok (), kr) | Some u \<Rightarrow> secret_set WEBHOOK_SECRET_KEY u kr)"


section \<open>Texts\<close>

record JobOutcome =
  jo_job_name :: string
  jo_kind :: string
  jo_databases :: "string list"
  jo_success :: bool
  jo_status :: string
  jo_message :: string
  jo_stats :: "BackupStats option"

definition headline :: "JobOutcome \<Rightarrow> string" where
  "headline oc =
     jo_job_name oc @ '': '' @ jo_kind oc
       @ (if jo_databases oc = [] then [] else '' of '' @ join_with '', '' (jo_databases oc)) @ '' ''
       @ (if jo_success oc then ''succeeded'' else ''FAILED'')"

definition tick :: string where
  "tick = [CHR 0xE2, CHR 0x9C, CHR 0x85]"

definition warning_sign :: string where
  "warning_sign = [CHR 0xE2, CHR 0x9A, CHR 0xA0, CHR 0xEF, CHR 0xB8, CHR 0x8F]"

definition cross :: string where
  "cross = [CHR 0xE2, CHR 0x9D, CHR 0x8C]"

definition dot_sep :: string where
  "dot_sep = [CHR 0x20, CHR 0xC2, CHR 0xB7, CHR 0x20]"

definition status_badge :: "JobOutcome \<Rightarrow> string \<times> string" where
  "status_badge oc =
     (let s = jo_status oc in
      if s = ''ok'' then (tick, ''OK'')
      else if s = ''warning'' then (warning_sign, ''WARNINGS'')
      else if s = ''no-change'' then (warning_sign, ''NO CHANGE'')
      else if s = ''error'' then (cross, ''FAILED'')
      else if s = ''stalled'' then (warning_sign, ''STALLED'')
      else if jo_success oc then (tick, ''OK'') else (cross, ''FAILED''))"

definition db_list :: "string list \<Rightarrow> string" where
  "db_list dbs =
     (if length dbs \<le> 3 then join_with '', '' dbs
      else join_with '', '' (take 3 dbs) @ '' (+'' @ show_nat (length dbs - 3) @ '' more)'')"

definition truncate_text :: "string \<Rightarrow> nat \<Rightarrow> string" where
  "truncate_text s mx =
     (let s = trim s in
      if utf8_count s \<le> mx then s
      else trim_end (utf8_take mx s) @ [CHR 0xE2, CHR 0x80, CHR 0xA6])"

definition stats_line :: "floats \<Rightarrow> BackupStats \<Rightarrow> string" where
  "stats_line F s =
     human_bytes (st_bytes s) @ '' backed up''
       @ (if 0 < st_stored_bytes s then dot_sep @ human_bytes (st_stored_bytes s) @ '' stored'' else [])
       @ (if 0 < st_chunks s
          then dot_sep
            @ f64_percent F (f64_mul F (f64_div F (f64_of_int F (uint (st_reused s)))
                 (f64_of_int F (uint (st_chunks s)))) (f64_of_int F 100)) @ ''% dedup''
          else [])"

definition slack_text :: "floats \<Rightarrow> JobOutcome \<Rightarrow> string" where
  "slack_text F oc =
     (let (icon, word) = status_badge oc;
          head = icon @ '' *'' @ word @ ''*'' @ dot_sep @ jo_job_name oc
            @ (if jo_databases oc = [] then dot_sep @ jo_kind oc
               else dot_sep @ jo_kind oc @ '' of '' @ db_list (jo_databases oc));
          detail = (case jo_stats oc of
              Some s \<Rightarrow> stats_line F s
            | None \<Rightarrow> truncate_text (jo_message oc) 200)
      in if detail = [] then head else head @ nl @ detail)"

definition render_body :: "JobOutcome \<Rightarrow> string" where
  "render_body oc =
     join_with nl
       ([''Job: '' @ jo_job_name oc, ''Type: '' @ jo_kind oc]
        @ (if jo_databases oc = [] then [] else [''Databases: '' @ join_with '', '' (jo_databases oc)])
        @ [''Status: '' @ jo_status oc, ''Message: '' @ jo_message oc])"


section \<open>Channels\<close>

record payload =
  pl_text :: string
  pl_job :: string
  pl_kind :: string
  pl_databases :: "string list"
  pl_status :: string
  pl_success :: bool
  pl_message :: string
  pl_stats :: "(u64 \<times> u64 \<times> u64 \<times> u64) option"

definition webhook_payload :: "floats \<Rightarrow> JobOutcome \<Rightarrow> payload" where
  "webhook_payload F oc =
     \<lparr> pl_text = slack_text F oc, pl_job = jo_job_name oc, pl_kind = jo_kind oc,
       pl_databases = jo_databases oc, pl_status = jo_status oc, pl_success = jo_success oc,
       pl_message = jo_message oc,
       pl_stats = map_option (\<lambda>s. (st_bytes s, st_chunks s, st_uploaded s, st_reused s)) (jo_stats oc) \<rparr>"

datatype delivery =
    Mailed EmailSettings string string "string option"
  | Posted string payload

text \<open>The libraries: whether an address parses, whether a message and a TLS configuration can be
  built, and the result of a transfer (for the webhook its HTTP status).\<close>

record channels =
  ch_address :: "string \<Rightarrow> string option"
  ch_message :: "string \<Rightarrow> string \<Rightarrow> string option"
  ch_tls :: "string \<Rightarrow> string option"
  ch_smtp :: "delivery \<Rightarrow> string option"
  ch_http :: "delivery \<Rightarrow> string + nat"

definition or_err :: "string option \<Rightarrow> string \<Rightarrow> string + unit" where
  "or_err r context_text = (case r of None \<Rightarrow> Ok () | Some e \<Rightarrow> Err (context_text @ e))"

fun check_recipients :: "channels \<Rightarrow> string list \<Rightarrow> string + unit" where
  "check_recipients C [] = Ok ()"
| "check_recipients C (t # ts) =
     and_then (or_err (ch_address C t) (''invalid recipient: '' @ t @ '': '')) (\<lambda>_. check_recipients C ts)"

definition smtp_password :: "keyring \<Rightarrow> EmailSettings \<Rightarrow> string + string option" where
  "smtp_password kr email =
     (if es_username email = [] then Ok None
      else and_then (secret_get SMTP_SECRET_KEY kr) (\<lambda>p.
        case p of None \<Rightarrow> Err ''no SMTP password stored'' | Some s \<Rightarrow> Ok (Some s)))"

text \<open>Each channel returns its result and what it handed to the network.\<close>

definition prepare_email :: "channels \<Rightarrow> keyring \<Rightarrow> EmailSettings \<Rightarrow> string \<Rightarrow> string \<Rightarrow> string + delivery" where
  "prepare_email C kr email subject body =
     (if trim (es_host email) = [] then Err ''no SMTP host configured''
      else if es_to email = [] then Err ''no recipients configured''
      else
        and_then (or_err (ch_address C (es_from email)) (''invalid from address: '' @ es_from email @ '': '')) (\<lambda>_.
        and_then (check_recipients C (es_to email)) (\<lambda>_.
        and_then (or_err (ch_message C subject body) []) (\<lambda>_.
        and_then (or_err (ch_tls C (es_host email)) []) (\<lambda>_.
        and_then (smtp_password kr email) (\<lambda>password.
        Ok (Mailed email subject body password)))))))"

definition send_email ::
  "channels \<Rightarrow> keyring \<Rightarrow> EmailSettings \<Rightarrow> string \<Rightarrow> string \<Rightarrow> (string + unit) \<times> delivery list" where
  "send_email C kr email subject body =
     (case prepare_email C kr email subject body of
        Inl e \<Rightarrow> (Err e, [])
      | Inr d \<Rightarrow> (or_err (ch_smtp C d) ''SMTP send: '', [d]))"

definition send_webhook ::
  "floats \<Rightarrow> channels \<Rightarrow> keyring \<Rightarrow> JobOutcome \<Rightarrow> (string + unit) \<times> delivery list" where
  "send_webhook F C kr oc =
     (case secret_get WEBHOOK_SECRET_KEY kr of
        Inl e \<Rightarrow> (Err e, [])
      | Inr None \<Rightarrow> (Err ''no webhook URL stored'', [])
      | Inr (Some url) \<Rightarrow>
          let d = Posted url (webhook_payload F oc) in
          (case ch_http C d of
             Inl e \<Rightarrow> (Err (''posting to the webhook: '' @ e), [d])
           | Inr status \<Rightarrow>
               if 200 \<le> status \<and> status < 300 then (Ok (), [d])
               else (Err (''webhook returned HTTP '' @ show_nat status), [d])))"

definition through_channels ::
  "floats \<Rightarrow> channels \<Rightarrow> keyring \<Rightarrow> NotificationSettings \<Rightarrow> string \<Rightarrow> string \<Rightarrow> JobOutcome \<Rightarrow> delivery list" where
  "through_channels F C kr settings subject body oc =
     (if es_enabled (ns_email settings) then snd (send_email C kr (ns_email settings) subject body) else [])
     @ (if wh_enabled (ns_webhook settings) then snd (send_webhook F C kr oc) else [])"

definition job_finished ::
  "floats \<Rightarrow> channels \<Rightarrow> keyring \<Rightarrow> NotificationSettings \<Rightarrow> JobOutcome \<Rightarrow> delivery list" where
  "job_finished F C kr settings oc =
     (let wanted = (if jo_success oc then ns_on_success settings else ns_on_failure settings) in
      if \<not> wanted then []
      else through_channels F C kr settings (''[pbsgui] '' @ headline oc) (render_body oc) oc)"

definition send_test ::
  "floats \<Rightarrow> channels \<Rightarrow> keyring \<Rightarrow> NotificationSettings \<Rightarrow> NotifyChannel \<Rightarrow> (string + unit) \<times> delivery list" where
  "send_test F C kr settings channel =
     (let body = ''This is a test notification from pbsgui. If you can read this, the channel works.'';
          oc = \<lparr> jo_job_name = ''test'', jo_kind = ''test notification'', jo_databases = [],
                 jo_success = True, jo_status = ''ok'', jo_message = body, jo_stats = None \<rparr>
      in case channel of
           Email \<Rightarrow> send_email C kr (ns_email settings) ''[pbsgui] test notification'' body
         | Webhook \<Rightarrow> send_webhook F C kr oc)"

definition backup_stalled ::
  "floats \<Rightarrow> channels \<Rightarrow> keyring \<Rightarrow> NotificationSettings \<Rightarrow> string \<Rightarrow> string \<Rightarrow> int \<Rightarrow> delivery list" where
  "backup_stalled F C kr settings job_name database hours =
     (if \<not> ns_on_stall settings then []
      else
        let body = ''No backup has reached the chain for database '' @ database @ '' in about ''
              @ show_int hours
              @ ''h. Point-in-time recovery is falling behind and the transaction log may be growing. ''
              @ ''Check that pbsgui is running on the active (Always On preferred) replica and that ''
              @ ''SQL Server is reachable.''
        in through_channels F C kr settings (''[pbsgui] '' @ job_name @ '': backup chain stalled'') body
             \<lparr> jo_job_name = job_name, jo_kind = ''point-in-time backup'', jo_databases = [database],
               jo_success = False, jo_status = ''stalled'', jo_message = body, jo_stats = None \<rparr>)"

lemma truncate_text_bound: "utf8_count (truncate_text s mx) \<le> Suc mx"
proof -
  have "utf8_count (trim_end t) \<le> utf8_count t" for t
    using trim_end_prefix [of t] by (metis filter_append le_add1 length_append utf8_count_def)
  then have "utf8_count (trim_end (utf8_take mx (trim s))) \<le> mx"
    using utf8_count_take le_trans by blast
  then show ?thesis
    by (simp add: truncate_text_def Let_def utf8_count_def utf8_continuation_def)
qed

lemma unit_loop_bound: "u \<le> 4 \<Longrightarrow> unit_loop r u \<le> 4"
  by (induction r u rule: unit_loop.induct) (subst unit_loop.simps, auto)

end
