(* ===== verification/SqlPlan.thy ===== *)
theory SqlPlan
  imports Scheduler
begin

text \<open>
  Which backup a database gets (\<open>pbsgui-engine/src/sql/plan.rs\<close>) and which backups a restore
  needs (\<open>pbsgui-engine/src/sql/backupmeta.rs\<close>).
\<close>

section \<open>Decisions\<close>

datatype PlanKind = PlanPointInTime | PlanRestorePoints | PlanSecondaryCopy

datatype Role = RoleStandalone | RolePrimary | RoleSecondary

record DbState =
  ds_role :: Role
  ds_preferred :: bool
  ds_simple_recovery :: bool
  ds_read_only :: bool
  ds_log_chain :: bool

datatype Action =
    Backup (act_kind: SqlBackupType) (act_copy_only: bool) (act_note: "string option")
  | Skip string

definition NOT_PREFERRED :: string where
  "NOT_PREFERRED = ''not the Always On preferred backup replica''"

definition FULL_ON_PRIMARY :: string where
  "FULL_ON_PRIMARY = ''point-in-time full backups are taken on the Always On primary replica''"

definition SIMPLE :: string where
  "SIMPLE = ''SIMPLE recovery model (no log backups; log is auto-managed)''"

definition PROMOTED :: string where
  "PROMOTED = ''no full backup starts the log chain yet, so taking a full backup instead of a log backup''"

definition FIRST_FULL :: string where
  "FIRST_FULL = ''this job has no full backup from this machine yet, so taking a full backup before log backups''"

definition READ_ONLY :: string where
  "READ_ONLY = ''read-only database (no log backups; its full backups cover it)''"

definition NO_CHAIN_ON_SECONDARY :: string where
  "NO_CHAIN_ON_SECONDARY = ''no full backup starts the log chain yet, and a secondary cannot take one; ''
     @ ''pbsgui on the primary replica takes it on its next run (install pbsgui on every replica with this job)''"

definition decide :: "PlanKind \<Rightarrow> SqlRun \<Rightarrow> DbState \<Rightarrow> bool \<Rightarrow> Action" where
  "decide plan run s local_full =
     (case plan of
        PlanPointInTime \<Rightarrow>
          (case run of
             RunFull \<Rightarrow>
               if ds_role s = RoleSecondary then Skip FULL_ON_PRIMARY else Backup Full False None
           | RunLog \<Rightarrow>
               if ds_simple_recovery s then Skip SIMPLE
               else if ds_read_only s then Skip READ_ONLY
               else if ds_role s \<noteq> RoleSecondary \<and> \<not> ds_log_chain s then Backup Full False (Some PROMOTED)
               else if ds_role s \<noteq> RoleSecondary \<and> \<not> local_full then Backup Full False (Some FIRST_FULL)
               else if \<not> ds_preferred s then Skip NOT_PREFERRED
               else Backup Log False None)
      | _ \<Rightarrow>
          if \<not> ds_preferred s then Skip NOT_PREFERRED
          else Backup Full (plan = PlanSecondaryCopy \<or> ds_role s = RoleSecondary) None)"

definition infix_of :: "string \<Rightarrow> string \<Rightarrow> bool" where
  "infix_of needle s = (find_subsequence s needle \<noteq> None)"

definition is_no_chain_error :: "string \<Rightarrow> bool" where
  "is_no_chain_error message =
     (infix_of ''4214'' message \<or> infix_of ''no current database backup'' message)"

definition plan_kind :: "SqlProtection \<Rightarrow> PlanKind" where
  "plan_kind p =
     (case p of
        PointInTime _ _ \<Rightarrow> PlanPointInTime
      | DailyRestorePoints _ \<Rightarrow> PlanRestorePoints
      | SecondaryCopy _ \<Rightarrow> PlanSecondaryCopy)"


section \<open>Backup metadata\<close>

definition META_BLOB_NAME :: string where
  "META_BLOB_NAME = ''meta.json.blob''"

record SqlBackupFile =
  bf_logical :: string
  bf_physical :: string
  bf_is_log :: bool

record SqlBackupMeta =
  bm_kind :: string
  bm_backup_time :: i64
  bm_first_lsn :: string
  bm_last_lsn :: string
  bm_database_backup_lsn :: string
  bm_files :: "SqlBackupFile list"

definition meta_is_log :: "SqlBackupMeta \<Rightarrow> bool" where
  "meta_is_log m = eq_ignore_case (bm_kind m) ''log''"

record ChainItem =
  ci_snapshot_time :: i64
  ci_meta :: SqlBackupMeta

definition parse_lsn :: "string \<Rightarrow> nat" where
  "parse_lsn s = (case parse_uint 128 (trim s) of Some n \<Rightarrow> n | None \<Rightarrow> 0)"

text \<open>\<open>Iterator::max_by_key\<close>: the last of the elements with the greatest key.\<close>

fun max_by_key :: "('a \<Rightarrow> int) \<Rightarrow> 'a list \<Rightarrow> 'a option" where
  "max_by_key f [] = None"
| "max_by_key f (x # xs) =
     (case max_by_key f xs of
        None \<Rightarrow> Some x
      | Some y \<Rightarrow> if f x \<le> f y then Some y else Some x)"

abbreviation item_time :: "ChainItem \<Rightarrow> int" where
  "item_time i \<equiv> sint (bm_backup_time (ci_meta i))"

abbreviation item_is_log :: "ChainItem \<Rightarrow> bool" where
  "item_is_log i \<equiv> meta_is_log (ci_meta i)"

abbreviation item_first :: "ChainItem \<Rightarrow> nat" where
  "item_first i \<equiv> parse_lsn (bm_first_lsn (ci_meta i))"

abbreviation item_last :: "ChainItem \<Rightarrow> nat" where
  "item_last i \<equiv> parse_lsn (bm_last_lsn (ci_meta i))"

fun extend_chain :: "int \<Rightarrow> ChainItem list \<Rightarrow> ChainItem list" where
  "extend_chain target [] = []"
| "extend_chain target (log # logs) =
     log # (if target \<le> item_time log then [] else extend_chain target logs)"

definition select_full :: "ChainItem list \<Rightarrow> i64 \<Rightarrow> ChainItem option" where
  "select_full items target =
     max_by_key item_time (filter (\<lambda>i. \<not> item_is_log i \<and> item_time i \<le> sint target) items)"

definition select_logs :: "ChainItem list \<Rightarrow> nat \<Rightarrow> ChainItem list" where
  "select_logs items base = sort_key item_first (filter (\<lambda>i. item_is_log i \<and> base < item_last i) items)"

definition select_chain :: "ChainItem list \<Rightarrow> i64 \<Rightarrow> ChainItem list" where
  "select_chain items target =
     (case select_full items target of
        None \<Rightarrow> []
      | Some full \<Rightarrow> full # extend_chain (sint target) (select_logs items (item_last full)))"

definition chain_covers :: "ChainItem list \<Rightarrow> i64 \<Rightarrow> bool" where
  "chain_covers chain target = (chain \<noteq> [] \<and> sint target \<le> item_time (last chain))"


section \<open>Lemmas on chains\<close>

lemma max_by_key_None [simp]: "max_by_key f xs = None \<longleftrightarrow> xs = []"
  by (cases xs) (auto split: option.splits)

lemma max_by_key_Some:
  "max_by_key f xs = Some m \<Longrightarrow> m \<in> set xs \<and> (\<forall>x \<in> set xs. f x \<le> f m)"
  by (induction xs arbitrary: m) (auto split: option.splits if_splits)

lemma extend_chain_prefix: "\<exists>rest. logs = extend_chain target logs @ rest"
  by (induction target logs rule: extend_chain.induct) auto

lemma extend_chain_before:
  "x \<in> set (butlast (extend_chain target logs)) \<Longrightarrow> item_time x < target"
  by (induction target logs rule: extend_chain.induct) (auto split: if_splits)

lemma extend_chain_reaches:
  assumes "logs = extend_chain target logs @ rest" "rest \<noteq> []"
  shows "extend_chain target logs \<noteq> [] \<and> target \<le> item_time (last (extend_chain target logs))"
  using assms
proof (induction target logs rule: extend_chain.induct)
  case (2 target log logs)
  show ?case
  proof (cases "target \<le> item_time log")
    case False
    with 2 have "extend_chain target logs \<noteq> [] \<and> target \<le> item_time (last (extend_chain target logs))"
      by simp
    with False show ?thesis
      by simp
  qed simp
qed simp

lemma select_logs_sorted: "sorted (map item_first (select_logs items base))"
  by (simp add: select_logs_def)

lemma select_logs_set: "set (select_logs items base) = {i \<in> set items. item_is_log i \<and> base < item_last i}"
  by (auto simp: select_logs_def)


section \<open>Properties of decisions\<close>

text \<open>The backup rules. Only a log run of a point-in-time plan takes log backups, only of a
  database that is neither in simple recovery nor read-only, only on the preferred replica, and on
  a standalone or primary instance only when a chain exists and this job has a full backup there;
  a secondary never takes a chain-starting full backup; the copy next to another tool is always
  copy-only; and no run takes differential backups.\<close>

theorem decide_rules:
  "(decide plan run s lf = Backup Log co n \<longleftrightarrow>
      plan = PlanPointInTime \<and> run = RunLog \<and> co = False \<and> n = None \<and>
      \<not> ds_simple_recovery s \<and> \<not> ds_read_only s \<and> ds_preferred s \<and>
      (ds_role s = RoleSecondary \<or> ds_log_chain s \<and> lf)) \<and>
   decide plan run s lf \<noteq> Backup Differential co n \<and>
   \<not> (decide plan run s lf = Backup Full False n \<and>
       (ds_role s = RoleSecondary \<or> plan = PlanSecondaryCopy)) \<and>
   \<not> (decide plan run s lf = Backup Full True n \<and> plan = PlanPointInTime)"
  by (cases plan; cases run; cases "ds_role s") (auto simp: decide_def)

definition group_ok :: "DbState list \<Rightarrow> bool" where
  "group_ok rs =
     (length (filter (\<lambda>s. ds_role s = RolePrimary) rs) = 1 \<and>
      length (filter ds_preferred rs) = 1 \<and>
      list_all (\<lambda>s. ds_role s \<noteq> RoleStandalone \<and> \<not> ds_simple_recovery s \<and> \<not> ds_read_only s) rs \<and>
      list_all (\<lambda>s. ds_role s = RolePrimary \<longrightarrow> ds_log_chain s) rs)"

text \<open>C19: One backup per group. In an availability group with one primary, exactly one preferred
  replica and the database's chain started by this job on the primary, every log run makes exactly
  one replica take the log backup and no replica anything else; and a full run makes exactly the
  primary take a full backup, whichever replica is preferred.\<close>

theorem group_backs_up_once:
  assumes "group_ok rs"
  shows "length (filter (\<lambda>s. decide PlanPointInTime RunLog s True = Backup Log False None) rs) = 1 \<and>
    list_all (\<lambda>s. decide PlanPointInTime RunLog s True \<in> {Backup Log False None, Skip NOT_PREFERRED}) rs \<and>
    length (filter (\<lambda>s. decide PlanPointInTime RunFull s lf = Backup Full False None) rs) = 1 \<and>
    list_all (\<lambda>s. decide PlanPointInTime RunFull s lf \<in> {Backup Full False None, Skip FULL_ON_PRIMARY}) rs"
proof -
  have log: "decide PlanPointInTime RunLog s True = (if ds_preferred s then Backup Log False None else Skip NOT_PREFERRED)"
    if "s \<in> set rs" for s
    using assms that by (cases "ds_role s") (auto simp: group_ok_def decide_def list_all_iff)
  have full: "decide PlanPointInTime RunFull s lf =
      (if ds_role s = RolePrimary then Backup Full False None else Skip FULL_ON_PRIMARY)"
    if "s \<in> set rs" for s
    using assms that by (cases "ds_role s") (auto simp: group_ok_def decide_def list_all_iff)
  have "filter (\<lambda>s. decide PlanPointInTime RunLog s True = Backup Log False None) rs = filter ds_preferred rs"
    "filter (\<lambda>s. decide PlanPointInTime RunFull s lf = Backup Full False None) rs
       = filter (\<lambda>s. ds_role s = RolePrimary) rs"
    by (auto intro!: filter_cong simp: log full split: if_splits)
  then show ?thesis
    using assms log full by (simp add: group_ok_def list_all_iff)
qed

definition demo_group :: "DbState list" where
  "demo_group =
     [\<lparr> ds_role = RolePrimary, ds_preferred = False, ds_simple_recovery = False, ds_read_only = False,
        ds_log_chain = True \<rparr>,
      \<lparr> ds_role = RoleSecondary, ds_preferred = True, ds_simple_recovery = False, ds_read_only = False,
        ds_log_chain = False \<rparr>]"

theorem group_backs_up_once_witness:
  "length (filter (\<lambda>s. decide PlanPointInTime RunLog s True = Backup Log False None) demo_group) = 1"
proof -
  have "group_ok demo_group"
    by (simp add: group_ok_def demo_group_def)
  from group_backs_up_once [OF this] show ?thesis
    by blast
qed


section \<open>Properties of chains\<close>

text \<open>SQL Server's replay of log backups: a database at a log sequence number accepts a log backup
  that begins at or before it and ends at or after it, and is then at its end.\<close>

fun replay :: "nat \<Rightarrow> ChainItem list \<Rightarrow> nat option" where
  "replay lsn [] = Some lsn"
| "replay lsn (l # ls) =
     (if item_first l \<le> lsn \<and> lsn \<le> item_last l then replay (item_last l) ls else None)"

text \<open>An unbroken log chain: each log backup begins where the one before it ended.\<close>

fun unbroken :: "ChainItem list \<Rightarrow> bool" where
  "unbroken [] = True"
| "unbroken [l] = (item_first l < item_last l)"
| "unbroken (l # l' # ls) = (item_first l < item_last l \<and> item_last l = item_first l' \<and> unbroken (l' # ls))"

lemma unbroken_first: "unbroken (l # ls) \<Longrightarrow> item_first l < item_last l"
  by (cases ls) auto

lemma unbroken_tl: "unbroken (l # ls) \<Longrightarrow> unbroken ls"
  by (cases ls) auto

lemma unbroken_later: "unbroken (l # ls) \<Longrightarrow> x \<in> set ls \<Longrightarrow> item_last l < item_last x"
proof (induction ls arbitrary: l)
  case (Cons y ys)
  have "item_last l = item_first y" "unbroken (y # ys)"
    using Cons.prems(1) by simp_all
  then have "item_last l < item_last y"
    using unbroken_first [of y ys] by simp
  then show ?case
    using Cons.IH [OF \<open>unbroken (y # ys)\<close>] Cons.prems(2) by auto
qed simp

lemma replay_unbroken:
  "unbroken ls \<Longrightarrow> ls \<noteq> [] \<Longrightarrow> item_first (hd ls) \<le> lsn \<Longrightarrow> lsn \<le> item_last (hd ls)
     \<Longrightarrow> replay lsn ls = Some (item_last (last ls))"
proof (induction ls arbitrary: lsn)
  case (Cons l ls)
  then show ?case
    by (cases ls) (auto dest: unbroken_first)
qed simp

lemma unbroken_append: "unbroken (a @ b) \<Longrightarrow> unbroken a"
proof (induction a)
  case (Cons x xs)
  then show ?case
    using unbroken_first [of x "xs @ b"] unbroken_tl [of x "xs @ b"] by (cases xs) simp_all
qed simp

lemma filter_past:
  assumes "unbroken ls" "ls \<noteq> []" "item_first (hd ls) \<le> base"
  shows "\<exists>suf. filter (\<lambda>l. base < item_last l) ls = suf \<and> unbroken suf \<and>
    (suf \<noteq> [] \<longrightarrow> item_first (hd suf) \<le> base \<and> base \<le> item_last (hd suf))"
  using assms
proof (induction ls)
  case (Cons l ls)
  show ?case
  proof (cases "base < item_last l")
    case True
    then have "filter (\<lambda>x. base < item_last x) (l # ls) = l # ls"
      using unbroken_later [OF Cons.prems(1)] by (fastforce intro!: filter_True)
    with True Cons.prems show ?thesis
      by simp
  next
    case False
    show ?thesis
    proof (cases ls)
      case (Cons l' ls')
      with False Cons.prems Cons.IH show ?thesis
        by simp
    qed (use False in simp)
  qed
qed simp

lemma select_logs_filter:
  "select_logs items base = filter (\<lambda>l. base < item_last l) (sort_key item_first (filter item_is_log items))"
  by (simp add: select_logs_def filter_sort conj_commute)

lemma chain_stops_short:
  assumes "\<not> chain_covers (full # logs) target"
    and "logs = extend_chain (sint target) (select_logs items (item_last full))"
    and "i \<in> set (select_logs items (item_last full))"
  shows "item_time i < sint target"
proof -
  obtain rest where pre: "select_logs items (item_last full) = logs @ rest"
    using extend_chain_prefix assms(2) by blast
  have short: "logs \<noteq> [] \<Longrightarrow> item_time (last logs) < sint target"
    using assms(1) by (auto simp: chain_covers_def)
  have "rest = []"
  proof (rule ccontr)
    assume "rest \<noteq> []"
    from extend_chain_reaches [OF _ this, of "select_logs items (item_last full)" "sint target"]
    have "logs \<noteq> [] \<and> sint target \<le> item_time (last logs)"
      unfolding assms(2) [symmetric] using pre by blast
    with short show False
      by simp
  qed
  then have "i \<in> set logs"
    using assms(3) pre by simp
  then have "i \<in> set (butlast logs) \<or> i = last logs"
    by (cases logs rule: rev_cases) auto
  moreover have "logs \<noteq> []"
    using \<open>i \<in> set logs\<close> by auto
  ultimately show ?thesis
    using short extend_chain_before [of i "sint target" "select_logs items (item_last full)"]
    unfolding assms(2) [symmetric] by blast
qed

lemma replay_selected:
  assumes "select_logs items (item_last full) = logs @ rest"
    and "unbroken (sort_key item_first (filter item_is_log items))"
    and "sort_key item_first (filter item_is_log items) \<noteq> []"
    and "item_first (hd (sort_key item_first (filter item_is_log items))) \<le> item_last full"
  shows "replay (item_last full) logs = Some (item_last (last (full # logs)))"
proof (cases "logs = []")
  case False
  have suf: "unbroken (logs @ rest)"
    "item_first (hd (logs @ rest)) \<le> item_last full \<and> item_last full \<le> item_last (hd (logs @ rest))"
    using filter_past [OF assms(2-4)] False unfolding select_logs_filter [symmetric] assms(1) by simp_all
  then have "unbroken logs"
    using unbroken_append by blast
  with suf(2) False show ?thesis
    using replay_unbroken [of logs] by simp
qed simp

text \<open>C21: The restore chain. \<open>select_chain\<close> is empty exactly when no full backup finished at or
  before the target; otherwise it starts with the latest such full backup, followed by log backups
  in order, of which only the last may finish at or after the target; when it does not cover the
  target, no available log backup that ends past the full one reaches the target. And when the
  log backups present form an unbroken chain that begins at or before the end of the full backup,
  SQL Server can replay the whole selection.\<close>

theorem select_chain_correct:
  "(select_chain items target = [] \<longleftrightarrow>
      (\<forall>i \<in> set items. item_is_log i \<or> sint target < item_time i)) \<and>
   (\<forall>full logs. select_chain items target = full # logs \<longrightarrow>
      full \<in> set items \<and> \<not> item_is_log full \<and> item_time full \<le> sint target \<and>
      (\<forall>i \<in> set items. \<not> item_is_log i \<longrightarrow> item_time i \<le> sint target \<longrightarrow> item_time i \<le> item_time full) \<and>
      set logs \<subseteq> {i \<in> set items. item_is_log i \<and> item_last full < item_last i} \<and>
      sorted (map item_first logs) \<and>
      (\<forall>l \<in> set (butlast logs). item_time l < sint target) \<and>
      (\<not> chain_covers (full # logs) target \<longrightarrow>
         (\<forall>i \<in> set items. item_is_log i \<longrightarrow> item_last full < item_last i \<longrightarrow> item_time i < sint target)) \<and>
      (let ls = sort_key item_first (filter item_is_log items) in
       unbroken ls \<longrightarrow> ls \<noteq> [] \<longrightarrow> item_first (hd ls) \<le> item_last full \<longrightarrow>
       replay (item_last full) logs = Some (item_last (last (full # logs)))))"
proof (intro conjI allI impI)
  show "(select_chain items target = []) =
      (\<forall>i \<in> set items. item_is_log i \<or> sint target < item_time i)"
  proof -
    have "select_chain items target = [] \<longleftrightarrow> select_full items target = None"
      by (simp add: select_chain_def split: option.splits)
    then show ?thesis
      by (auto simp: select_full_def filter_empty_conv not_le)
  qed
  fix full logs assume "select_chain items target = full # logs"
  then have full: "select_full items target = Some full"
    and logs: "logs = extend_chain (sint target) (select_logs items (item_last full))"
    by (auto simp: select_chain_def split: option.splits)
  have "full \<in> set (filter (\<lambda>i. \<not> item_is_log i \<and> item_time i \<le> sint target) items)"
    and max: "\<forall>i \<in> set (filter (\<lambda>i. \<not> item_is_log i \<and> item_time i \<le> sint target) items).
      item_time i \<le> item_time full"
    using max_by_key_Some [OF full [unfolded select_full_def]] by blast+
  then show "full \<in> set items" "\<not> item_is_log full" "item_time full \<le> sint target"
    "\<forall>i \<in> set items. \<not> item_is_log i \<longrightarrow> item_time i \<le> sint target \<longrightarrow> item_time i \<le> item_time full"
    by auto
  obtain rest where pre: "select_logs items (item_last full) = logs @ rest"
    using extend_chain_prefix logs by blast
  then have sub: "set logs \<subseteq> set (select_logs items (item_last full))"
    by simp
  then show "set logs \<subseteq> {i \<in> set items. item_is_log i \<and> item_last full < item_last i}"
    by (simp add: select_logs_set)
  show "sorted (map item_first logs)"
    using select_logs_sorted [of items "item_last full"] by (simp add: pre sorted_append)
  show "\<forall>l \<in> set (butlast logs). item_time l < sint target"
    using extend_chain_before logs by blast
  show "\<forall>i \<in> set items. item_is_log i \<longrightarrow> item_last full < item_last i \<longrightarrow> item_time i < sint target"
    if "\<not> chain_covers (full # logs) target"
    using chain_stops_short [OF that logs] by (auto simp: select_logs_set)
  show "let ls = sort_key item_first (filter item_is_log items) in
       unbroken ls \<longrightarrow> ls \<noteq> [] \<longrightarrow> item_first (hd ls) \<le> item_last full \<longrightarrow>
       replay (item_last full) logs = Some (item_last (last (full # logs)))"
    using replay_selected [OF pre] by (simp add: Let_def)
qed

definition demo_item :: "string \<Rightarrow> i64 \<Rightarrow> string \<Rightarrow> string \<Rightarrow> ChainItem" where
  "demo_item kind t a b =
     \<lparr> ci_snapshot_time = t,
       ci_meta = \<lparr> bm_kind = kind, bm_backup_time = t, bm_first_lsn = a, bm_last_lsn = b,
                   bm_database_backup_lsn = [], bm_files = [] \<rparr> \<rparr>"

definition demo_items :: "ChainItem list" where
  "demo_items =
     [demo_item ''log'' 250 ''60'' ''80'', demo_item ''full'' 100 ''10'' ''50'',
      demo_item ''Log'' 150 ''40'' ''60'', demo_item ''full'' 300 ''80'' ''90'']"

theorem select_chain_correct_witness:
  "\<exists>full logs. select_chain demo_items 200 = full # logs \<and> length logs = 2 \<and> item_time full = 100 \<and>
     replay (item_last full) logs = Some 80"
proof -
  let ?full = "demo_item ''full'' 100 ''10'' ''50''"
  let ?logs = "[demo_item ''Log'' 150 ''40'' ''60'', demo_item ''log'' 250 ''60'' ''80'']"
  have e: "select_chain demo_items 200 = ?full # ?logs \<and>
      (let ls = sort_key item_first (filter item_is_log demo_items) in
        unbroken ls \<and> ls \<noteq> [] \<and> item_first (hd ls) \<le> item_last ?full) \<and>
      item_last (last (?full # ?logs)) = 80 \<and> item_time ?full = 100"
    by code_simp
  then have "replay (item_last ?full) ?logs = Some 80"
    using select_chain_correct [of demo_items 200] by (metis (no_types, lifting))
  with e show ?thesis
    by (intro exI [of _ ?full] exI [of _ ?logs]) simp
qed

end
