(* ===== verification/FileSources.thy ===== *)
theory FileSources
  imports Libs Protocol "HOL-Library.List_Lexorder" "HOL-Library.Product_Lexorder" "HOL-Library.Char_ord"
    "HOL-Library.Multiset"
begin

text \<open>
  The sources of a file job (\<open>pbsgui-engine/src/changedet.rs\<close> and \<open>archive.rs\<close>): the fingerprint
  that decides whether a run is skipped, and the walk that writes the archive, with the files it
  skips. The file system, the directory walker, the glob patterns and the tar builder are
  parameters.
\<close>

section \<open>Environment\<close>

text \<open>A path is the list of its components, the root being one of them.\<close>

type_synonym path = "string list"

datatype file_kind = DirKind | FileKind | OtherKind

datatype walked =
    WalkErr "path option" string
  | Walked path file_kind

record 'p files_env =
  fe_path :: "string \<Rightarrow> path"
  fe_show :: "path \<Rightarrow> string"
  fe_root :: "string \<Rightarrow> bool"
  fe_meta :: "path \<Rightarrow> string + file_kind"
  fe_walk :: "path \<Rightarrow> walked list"
  fe_walk_sorted :: "path \<Rightarrow> walked list"
  fe_size :: "path \<Rightarrow> string + u64"
  fe_mtime :: "path \<Rightarrow> i64"
  fe_open :: "path \<Rightarrow> string + u64"
  fe_cloud_only :: "path \<Rightarrow> string option"
  fe_pattern :: "string \<Rightarrow> 'p option"
  fe_matches :: "'p \<Rightarrow> string \<Rightarrow> bool"

definition patterns_of :: "'p files_env \<Rightarrow> string list \<Rightarrow> 'p list" where
  "patterns_of E excludes = List.map_filter (fe_pattern E) excludes"

definition excluded :: "'p files_env \<Rightarrow> path \<Rightarrow> 'p list \<Rightarrow> bool" where
  "excluded E p patterns = list_ex (\<lambda>pat. fe_matches E pat (fe_show E p)) patterns"

definition slashes :: "string \<Rightarrow> string" where
  "slashes s = map (\<lambda>c. if c = CHR 0x5C then CHR ''/'' else c) s"


section \<open>Change detection\<close>

type_synonym item = "string \<times> u64 \<times> i64"

fun walk_items :: "'p files_env \<Rightarrow> 'p list \<Rightarrow> walked list \<Rightarrow> string + item list" where
  "walk_items E pats [] = Ok []"
| "walk_items E pats (WalkErr p e # ws) = Err e"
| "walk_items E pats (Walked p k # ws) =
     (if excluded E p pats \<or> k \<noteq> FileKind then walk_items E pats ws
      else and_then (fe_size E p) (\<lambda>n. and_then (walk_items E pats ws) (\<lambda>is.
        Ok ((slashes (fe_show E p), n, fe_mtime E p) # is))))"

definition source_items :: "'p files_env \<Rightarrow> 'p list \<Rightarrow> string \<Rightarrow> string + item list" where
  "source_items E pats source =
     (let root = fe_path E source in
      if fe_meta E root = Ok DirKind then walk_items E pats (fe_walk E root)
      else if fe_meta E root = Ok FileKind \<and> \<not> excluded E root pats
      then and_then (fe_size E root) (\<lambda>n. Ok [(source, n, fe_mtime E root)])
      else Ok [])"

fun all_items :: "'p files_env \<Rightarrow> 'p list \<Rightarrow> string list \<Rightarrow> string + item list" where
  "all_items E pats [] = Ok []"
| "all_items E pats (s # ss) =
     and_then (source_items E pats s) (\<lambda>a. and_then (all_items E pats ss) (\<lambda>b. Ok (a @ b)))"

text \<open>Items are ordered by path, then size, then modification time, the latter as signed numbers.\<close>

definition item_key :: "item \<Rightarrow> string \<times> nat \<times> int" where
  "item_key i = (fst i, unat (fst (snd i)), sint (snd (snd i)))"

definition item_bytes :: "item \<Rightarrow> bytes" where
  "item_bytes i = bytes_of (fst i) @ [0] @ u64_to_le (fst (snd i)) @ u64_to_le (snd (snd i))"

definition fingerprint_input :: "item list \<Rightarrow> bytes" where
  "fingerprint_input is = concat (map item_bytes (sort_key item_key is))"

definition fingerprint :: "libs \<Rightarrow> 'p files_env \<Rightarrow> string list \<Rightarrow> string list \<Rightarrow> string + arr32" where
  "fingerprint L E sources excludes =
     and_then (all_items E (patterns_of E excludes) sources) (\<lambda>is. Ok (sha256 L (fingerprint_input is)))"

text \<open>The recorded fingerprint: a file that must have exactly 32 bytes.\<close>

definition print_load :: "(string \<rightharpoonup> bytes) \<Rightarrow> string \<Rightarrow> arr32 option" where
  "print_load fs job =
     (case fs job of None \<Rightarrow> None | Some b \<Rightarrow> if length b = 32 then Some (arr32_of_bytes b) else None)"

definition print_save :: "bool \<Rightarrow> string \<Rightarrow> arr32 \<Rightarrow> (string \<rightharpoonup> bytes) \<Rightarrow> (string \<rightharpoonup> bytes)" where
  "print_save writable job fp fs = (if writable then fs(job \<mapsto> arr32_to_bytes fp) else fs)"

lemma print_load_save: "print_load (print_save True job fp fs) job = Some fp"
  by (simp add: print_load_def print_save_def)


section \<open>The input of the fingerprint determines the items\<close>

lemma bytes_of_inj: "bytes_of a = bytes_of b \<longleftrightarrow> a = b"
  by (metis text_of_bytes_of)

lemma bytes_of_length [simp]: "length (bytes_of s) = length s"
  by (simp add: bytes_of_def)

definition plain_path :: "item \<Rightarrow> bool" where
  "plain_path i = (0 \<notin> set (bytes_of (fst i)))"

lemma append_stop:
  assumes "x \<notin> set a" "x \<notin> set b" "a @ x # r = b @ x # s"
  shows "a = b \<and> r = s"
  using assms by (induction a arbitrary: b) (case_tac b; auto)+

lemma item_bytes_split:
  assumes "plain_path i" "plain_path j" "item_bytes i @ r = item_bytes j @ s"
  shows "i = j \<and> r = s"
proof -
  obtain a m t where i: "i = (a, m, t)" by (cases i)
  obtain b n u where j: "j = (b, n, u)" by (cases j)
  have "bytes_of a = bytes_of b \<and>
      u64_to_le m @ u64_to_le t @ r = u64_to_le n @ u64_to_le u @ s"
    using assms append_stop [of 0 "bytes_of a" "bytes_of b"] by (simp add: i j item_bytes_def plain_path_def)
  then have "bytes_of a = bytes_of b" "u64_to_le m = u64_to_le n" "u64_to_le t = u64_to_le u" "r = s"
    by auto
  then show ?thesis
    by (metis i j bytes_of_inj u64_roundtrip)
qed

lemma item_bytes_nonempty: "item_bytes i \<noteq> []"
  by (simp add: item_bytes_def)

lemma items_bytes_inj:
  assumes "\<forall>i \<in> set is. plain_path i" "\<forall>j \<in> set js. plain_path j"
    and "concat (map item_bytes is) = concat (map item_bytes js)"
  shows "is = js"
  using assms
proof (induction "is" js rule: list_induct2')
  case (4 i "is" j js)
  have "item_bytes i @ concat (map item_bytes is) = item_bytes j @ concat (map item_bytes js)"
    using 4(4) by simp
  then have "i = j \<and> concat (map item_bytes is) = concat (map item_bytes js)"
    using 4(2,3) by (intro item_bytes_split) auto
  with 4(1-3) show ?case
    by simp
qed (simp_all add: item_bytes_nonempty)

lemma fingerprint_input_mset:
  assumes "\<forall>i \<in> set is. plain_path i" "\<forall>j \<in> set js. plain_path j"
    and "fingerprint_input is = fingerprint_input js"
  shows "mset is = mset js"
proof -
  have "sort_key item_key is = sort_key item_key js"
    using assms by (intro items_bytes_inj) (auto simp: fingerprint_input_def)
  then show ?thesis
    by (metis mset_sort)
qed

section \<open>The archive\<close>

record Skipped =
  sk_path :: string
  sk_reason :: string

record ArchiveReport =
  ar_entries :: "(string \<times> u64) list"
  ar_skipped :: "Skipped list"
  ar_warnings :: "string list"

definition report_default :: ArchiveReport where
  "report_default = \<lparr> ar_entries = [], ar_skipped = [], ar_warnings = [] \<rparr>"

definition skip :: "'p files_env \<Rightarrow> path \<Rightarrow> string \<Rightarrow> ArchiveReport \<Rightarrow> ArchiveReport" where
  "skip E live reason r =
     r \<lparr> ar_skipped := ar_skipped r @ [\<lparr> sk_path = fe_show E live, sk_reason = reason \<rparr>] \<rparr>"

fun strip_prefix :: "path \<Rightarrow> path \<Rightarrow> path option" where
  "strip_prefix [] p = Some p"
| "strip_prefix (c # cs) [] = None"
| "strip_prefix (c # cs) (d # ds) = (if c = d then strip_prefix cs ds else None)"

definition parent :: "'p files_env \<Rightarrow> path \<Rightarrow> path option" where
  "parent E p = (if p = [] \<or> fe_root E (last p) then None else Some (butlast p))"

definition file_name :: "'p files_env \<Rightarrow> path \<Rightarrow> string option" where
  "file_name E p = (if p = [] \<or> fe_root E (last p) \<or> last p = ''..'' then None else Some (last p))"

definition to_live :: "path \<Rightarrow> path \<Rightarrow> path \<Rightarrow> path" where
  "to_live live_root read p =
     (case strip_prefix read p of None \<Rightarrow> p | Some rel \<Rightarrow> if rel = [] then live_root else live_root @ rel)"

definition archive_name :: "'p files_env \<Rightarrow> path \<Rightarrow> path \<Rightarrow> string" where
  "archive_name E source_root p =
     (let base = (case parent E source_root of None \<Rightarrow> source_root | Some b \<Rightarrow> b);
          rel = (case strip_prefix base p of None \<Rightarrow> p | Some r \<Rightarrow> r)
      in slashes (fe_show E rel))"

text \<open>The tar builder is a state \<open>'b\<close>, changed by appending a file under a name.\<close>

type_synonym 'b appender = "string \<Rightarrow> path \<Rightarrow> 'b \<Rightarrow> string + 'b"

definition add_file ::
  "'p files_env \<Rightarrow> 'b appender \<Rightarrow> path \<Rightarrow> path \<Rightarrow> string \<Rightarrow> 'b \<times> ArchiveReport \<Rightarrow> string + 'b \<times> ArchiveReport" where
  "add_file E tar read live name br =
     (let (b, r) = br in
      case fe_cloud_only E read of
        Some reason \<Rightarrow> Ok (b, skip E live reason r)
      | None \<Rightarrow>
          (case fe_open E read of
             Inl e \<Rightarrow> Ok (b, skip E live e r)
           | Inr sz \<Rightarrow>
               and_then (tar name read b) (\<lambda>b'.
                 Ok (b', r \<lparr> ar_entries := ar_entries r @ [(name, sz)] \<rparr>))))"

fun tar_walk ::
  "'p files_env \<Rightarrow> 'b appender \<Rightarrow> 'p list \<Rightarrow> path \<Rightarrow> path \<Rightarrow> walked list \<Rightarrow> 'b \<times> ArchiveReport \<Rightarrow> string + 'b \<times> ArchiveReport" where
  "tar_walk E tar pats live_root read [] br = Ok br"
| "tar_walk E tar pats live_root read (WalkErr p e # ws) br =
     (let live = (case p of Some q \<Rightarrow> to_live live_root read q | None \<Rightarrow> live_root)
      in tar_walk E tar pats live_root read ws (fst br, skip E live e (snd br)))"
| "tar_walk E tar pats live_root read (Walked p k # ws) br =
     (let live = to_live live_root read p in
      if excluded E live pats \<or> k \<noteq> FileKind then tar_walk E tar pats live_root read ws br
      else and_then (add_file E tar p live (archive_name E live_root live) br)
             (tar_walk E tar pats live_root read ws))"

definition tar_source ::
  "'p files_env \<Rightarrow> 'b appender \<Rightarrow> 'p list \<Rightarrow> (path \<Rightarrow> path option) \<Rightarrow> string \<Rightarrow> 'b \<times> ArchiveReport \<Rightarrow> string + 'b \<times> ArchiveReport" where
  "tar_source E tar pats read_root source br =
     (let live_root = fe_path E source;
          read = (case read_root live_root of None \<Rightarrow> live_root | Some q \<Rightarrow> q)
      in case fe_meta E read of
           Inl e \<Rightarrow> Ok (fst br, skip E live_root (''source not readable: '' @ e) (snd br))
         | Inr DirKind \<Rightarrow> tar_walk E tar pats live_root read (fe_walk_sorted E read) br
         | Inr FileKind \<Rightarrow>
             if excluded E live_root pats then Ok br
             else add_file E tar read live_root
                    (case file_name E live_root of None \<Rightarrow> ''file'' | Some n \<Rightarrow> n) br
         | Inr OtherKind \<Rightarrow> Ok br)"

fun tar_sources ::
  "'p files_env \<Rightarrow> 'b appender \<Rightarrow> 'p list \<Rightarrow> (path \<Rightarrow> path option) \<Rightarrow> string list \<Rightarrow> 'b \<times> ArchiveReport \<Rightarrow> string + 'b \<times> ArchiveReport" where
  "tar_sources E tar pats read_root [] br = Ok br"
| "tar_sources E tar pats read_root (s # ss) br =
     and_then (tar_source E tar pats read_root s br) (tar_sources E tar pats read_root ss)"

text \<open>\<open>close\<close> is the end of the archive and the flush of the writer.\<close>

definition write_tar ::
  "'p files_env \<Rightarrow> 'b appender \<Rightarrow> ('b \<Rightarrow> string + unit) \<Rightarrow> string list \<Rightarrow> string list \<Rightarrow> (path \<Rightarrow> path option) \<Rightarrow> 'b
   \<Rightarrow> string + ArchiveReport" where
  "write_tar E tar close sources excludes read_root out =
     and_then (tar_sources E tar (patterns_of E excludes) read_root sources (out, report_default)) (\<lambda>(b, r).
       and_then (close b) (\<lambda>_. Ok r))"

definition estimate_source :: "'p files_env \<Rightarrow> 'p list \<Rightarrow> string \<Rightarrow> u64" where
  "estimate_source E pats source =
     sum_list (map (\<lambda>w. case w of
         Walked p FileKind \<Rightarrow>
           if excluded E p pats then 0 else (case fe_size E p of Inr n \<Rightarrow> n | Inl _ \<Rightarrow> 0)
       | _ \<Rightarrow> 0) (fe_walk E (fe_path E source)))"

definition estimate_size :: "'p files_env \<Rightarrow> string list \<Rightarrow> string list \<Rightarrow> u64" where
  "estimate_size E sources excludes =
     sum_list (map (estimate_source E (patterns_of E excludes)) sources)"


section \<open>Nothing is lost silently\<close>

text \<open>The files a source stands for: where each is read, its live path and its name.\<close>

definition walk_files :: "'p files_env \<Rightarrow> 'p list \<Rightarrow> path \<Rightarrow> path \<Rightarrow> walked list \<Rightarrow> (path \<times> path \<times> string) list" where
  "walk_files E pats live_root read ws =
     concat (map (\<lambda>w. case w of
         Walked p FileKind \<Rightarrow>
           let live = to_live live_root read p in
           if excluded E live pats then [] else [(p, live, archive_name E live_root live)]
       | _ \<Rightarrow> []) ws)"

definition source_files ::
  "'p files_env \<Rightarrow> 'p list \<Rightarrow> (path \<Rightarrow> path option) \<Rightarrow> string \<Rightarrow> (path \<times> path \<times> string) list" where
  "source_files E pats read_root source =
     (let live_root = fe_path E source;
          read = (case read_root live_root of None \<Rightarrow> live_root | Some q \<Rightarrow> q)
      in case fe_meta E read of
           Inr DirKind \<Rightarrow> walk_files E pats live_root read (fe_walk_sorted E read)
         | Inr FileKind \<Rightarrow>
             if excluded E live_root pats then []
             else [(read, live_root, case file_name E live_root of None \<Rightarrow> ''file'' | Some n \<Rightarrow> n)]
         | _ \<Rightarrow> [])"

definition entry_of :: "'p files_env \<Rightarrow> path \<times> path \<times> string \<Rightarrow> (string \<times> u64) list" where
  "entry_of E f =
     (case fe_cloud_only E (fst f) of
        Some _ \<Rightarrow> []
      | None \<Rightarrow> (case fe_open E (fst f) of Inl _ \<Rightarrow> [] | Inr sz \<Rightarrow> [(snd (snd f), sz)]))"

text \<open>\<open>archived r fs r'\<close>: the report grew by exactly the readable files of \<open>fs\<close>, in order, and
  every other file of \<open>fs\<close> is among the skipped.\<close>

definition archived :: "'p files_env \<Rightarrow> ArchiveReport \<Rightarrow> (path \<times> path \<times> string) list \<Rightarrow> ArchiveReport \<Rightarrow> bool" where
  "archived E r fs r' =
     (ar_entries r' = ar_entries r @ concat (map (entry_of E) fs) \<and>
      set (ar_skipped r) \<subseteq> set (ar_skipped r') \<and>
      (\<forall>f \<in> set fs. entry_of E f = [] \<longrightarrow> fe_show E (fst (snd f)) \<in> sk_path ` set (ar_skipped r')))"

lemma archived_refl [simp]: "archived E r [] r"
  by (simp add: archived_def)

lemma archived_skip [simp]: "archived E r [] (skip E live e r)"
  by (auto simp: archived_def skip_def)

lemma archived_trans: "archived E r fs r1 \<Longrightarrow> archived E r1 gs r2 \<Longrightarrow> archived E r (fs @ gs) r2"
  unfolding archived_def by (auto 0 3)

lemma add_file_archived:
  "add_file E tar read live name (b, r) = Ok (b', r') \<Longrightarrow> archived E r [(read, live, name)] r'"
  by (auto simp: add_file_def archived_def entry_of_def skip_def Let_def
      split: option.splits sum.splits)

lemma tar_walk_archived:
  "tar_walk E tar pats live_root read ws br = Ok br' \<Longrightarrow>
   archived E (snd br) (walk_files E pats live_root read ws) (snd br')"
proof (induction E tar pats live_root read ws br rule: tar_walk.induct)
  case (2 E tar pats live_root read p e ws br)
  let ?live = "case p of Some q \<Rightarrow> to_live live_root read q | None \<Rightarrow> live_root"
  have "walk_files E pats live_root read (WalkErr p e # ws) = [] @ walk_files E pats live_root read ws"
    by (simp add: walk_files_def)
  moreover have "archived E (skip E ?live e (snd br)) (walk_files E pats live_root read ws) (snd br')"
    using 2(1) [OF refl] 2(2) by (simp add: Let_def)
  ultimately show ?case
    using archived_trans [OF archived_skip] by metis
next
  case (3 E tar pats live_root read p k ws br)
  let ?live = "to_live live_root read p"
  show ?case
  proof (cases "excluded E ?live pats \<or> k \<noteq> FileKind")
    case True
    then have "walk_files E pats live_root read (Walked p k # ws) = walk_files E pats live_root read ws"
      by (cases k) (auto simp: walk_files_def Let_def)
    with True 3 show ?thesis
      by (auto simp: Let_def)
  next
    case False
    then have "walk_files E pats live_root read (Walked p k # ws)
        = [(p, ?live, archive_name E live_root ?live)] @ walk_files E pats live_root read ws"
      by (simp add: walk_files_def Let_def)
    moreover obtain br1 where br1: "add_file E tar p ?live (archive_name E live_root ?live) br = Ok br1"
      "tar_walk E tar pats live_root read ws br1 = Ok br'"
      using False 3(3) by (auto simp: Let_def)
    moreover have "archived E (snd br) [(p, ?live, archive_name E live_root ?live)] (snd br1)"
      using br1(1) by (intro add_file_archived [where b = "fst br" and b' = "fst br1"]) simp
    moreover have "archived E (snd br1) (walk_files E pats live_root read ws) (snd br')"
      using 3(2) [OF refl False br1(2)] .
    ultimately show ?thesis
      using archived_trans by metis
  qed
qed (simp add: walk_files_def)

lemma tar_source_archived:
  assumes "tar_source E tar pats read_root source br = Ok br'"
  shows "archived E (snd br) (source_files E pats read_root source) (snd br')"
  using assms add_file_archived [where b = "fst br" and r = "snd br" and b' = "fst br'" and r' = "snd br'"]
  by (auto simp: tar_source_def source_files_def Let_def tar_walk_archived
      split: sum.splits file_kind.splits if_splits)

lemma tar_sources_archived:
  "tar_sources E tar pats read_root ss br = Ok br' \<Longrightarrow>
   archived E (snd br) (concat (map (source_files E pats read_root) ss)) (snd br')"
  by (induction E tar pats read_root ss br rule: tar_sources.induct)
     (auto intro: archived_trans tar_source_archived)

section \<open>Reading from a snapshot\<close>

lemma strip_prefix_append [simp]: "strip_prefix a (a @ r) = Some r"
  by (induction a) auto

lemma strip_prefix_Some: "strip_prefix a p = Some r \<longleftrightarrow> p = a @ r"
  by (induction a p rule: strip_prefix.induct) auto

lemma to_live_append [simp]: "to_live live read (read @ rel) = live @ rel"
  by (simp add: to_live_def)

text \<open>A shadow copy of a tree: the same files under another root, with the same content.\<close>

definition moved_path :: "path \<Rightarrow> path \<Rightarrow> path \<Rightarrow> path" where
  "moved_path live read p = (case strip_prefix live p of Some rel \<Rightarrow> read @ rel | None \<Rightarrow> p)"

fun moved :: "path \<Rightarrow> path \<Rightarrow> walked \<Rightarrow> walked" where
  "moved live read (WalkErr q e) = WalkErr (map_option (moved_path live read) q) e"
| "moved live read (Walked p k) = Walked (moved_path live read p) k"

fun walked_below :: "path \<Rightarrow> walked \<Rightarrow> bool" where
  "walked_below root (WalkErr None e) = True"
| "walked_below root (WalkErr (Some q) e) = (strip_prefix root q \<noteq> None)"
| "walked_below root (Walked p k) = (strip_prefix root p \<noteq> None)"

definition same_file :: "'p files_env \<Rightarrow> 'b appender \<Rightarrow> path \<Rightarrow> path \<Rightarrow> bool" where
  "same_file E tar p q =
     (fe_cloud_only E p = fe_cloud_only E q \<and> fe_open E p = fe_open E q \<and> (\<forall>name b. tar name p b = tar name q b))"

definition mirrors :: "'p files_env \<Rightarrow> 'b appender \<Rightarrow> path \<Rightarrow> path \<Rightarrow> bool" where
  "mirrors E tar live read =
     (fe_meta E read = fe_meta E live \<and>
      fe_walk_sorted E read = map (moved live read) (fe_walk_sorted E live) \<and>
      list_all (walked_below live) (fe_walk_sorted E live) \<and>
      (\<forall>rel. same_file E tar (read @ rel) (live @ rel)))"

lemma add_file_same: "same_file E tar p q \<Longrightarrow> add_file E tar p live name br = add_file E tar q live name br"
  by (auto simp: same_file_def add_file_def split: prod.split option.split sum.split)

lemma to_live_same_root: "strip_prefix live p \<noteq> None \<Longrightarrow> to_live live live p = p"
  by (auto simp: to_live_def strip_prefix_Some)

lemma tar_walk_moved:
  assumes "list_all (walked_below live) ws" "\<forall>rel. same_file E tar (read @ rel) (live @ rel)"
  shows "tar_walk E tar pats live read (map (moved live read) ws) br = tar_walk E tar pats live live ws br"
  using assms(1)
proof (induction ws arbitrary: br)
  case (Cons w ws)
  show ?case
  proof (cases w)
    case (WalkErr q e)
    have "(case map_option (moved_path live read) q of Some u \<Rightarrow> to_live live read u | None \<Rightarrow> live)
        = (case q of Some u \<Rightarrow> to_live live live u | None \<Rightarrow> live)"
      using Cons.prems WalkErr by (cases q) (auto simp: moved_path_def to_live_same_root strip_prefix_Some)
    with Cons WalkErr show ?thesis
      by (simp add: Let_def)
  next
    case (Walked p k)
    then obtain rel where p: "p = live @ rel"
      using Cons.prems by (auto simp: strip_prefix_Some)
    have "add_file E tar (read @ rel) (live @ rel) name = add_file E tar (live @ rel) (live @ rel) name" for name
      using assms(2) add_file_same by blast
    moreover have "tar_walk E tar pats live read (map (moved live read) ws) = tar_walk E tar pats live live ws"
      using Cons by (auto intro!: ext)
    ultimately show ?thesis
      using Walked p by (simp add: Let_def moved_path_def to_live_same_root)
  qed
qed simp

lemma tar_source_mirrored:
  assumes "mirrors E tar (fe_path E s) read" "read_root (fe_path E s) = Some read"
  shows "tar_source E tar pats read_root s br = tar_source E tar pats (\<lambda>_. None) s br"
proof -
  have "same_file E tar read (fe_path E s)"
    using assms(1) by (metis append_Nil2 mirrors_def)
  then show ?thesis
    using assms by (simp add: tar_source_def mirrors_def tar_walk_moved add_file_same Let_def
        split: sum.split file_kind.split)
qed

lemma tar_sources_mirrored:
  assumes "\<forall>s \<in> set ss. case read_root (fe_path E s) of None \<Rightarrow> True | Some read \<Rightarrow> mirrors E tar (fe_path E s) read"
  shows "tar_sources E tar pats read_root ss br = tar_sources E tar pats (\<lambda>_. None) ss br"
  using assms
proof (induction ss arbitrary: br)
  case (Cons s ss)
  have "tar_source E tar pats read_root s br = tar_source E tar pats (\<lambda>_. None) s br"
    using Cons.prems tar_source_mirrored [of E tar s]
    by (cases "read_root (fe_path E s)") (auto simp: tar_source_def)
  moreover have "tar_sources E tar pats read_root ss = tar_sources E tar pats (\<lambda>_. None) ss"
    using Cons by (auto intro!: ext)
  ultimately show ?case
    by simp
qed simp


section \<open>Properties\<close>

text \<open>A folder with a readable and a locked file, and its copy under another root.\<close>

definition demo_files :: "string files_env" where
  "demo_files =
     \<lparr> fe_path = (\<lambda>s. [''/'', s]), fe_show = join_with ''/'', fe_root = (\<lambda>c. c = ''/''),
       fe_meta = (\<lambda>p. Ok (if length p = 2 then DirKind else FileKind)),
       fe_walk = (\<lambda>p. [Walked p DirKind, Walked (p @ [''a'']) FileKind, Walked (p @ [''b'']) FileKind]),
       fe_walk_sorted = (\<lambda>p. [Walked p DirKind, Walked (p @ [''a'']) FileKind, Walked (p @ [''b'']) FileKind]),
       fe_size = (\<lambda>p. Ok 5), fe_mtime = (\<lambda>p. 100),
       fe_open = (\<lambda>p. if last p = ''b'' then Err ''locked'' else Ok 5), fe_cloud_only = (\<lambda>p. None),
       fe_pattern = Some, fe_matches = (=) \<rparr>"

definition demo_tar :: "string list appender" where
  "demo_tar name p b = Ok (b @ [name])"



text \<open>Archiving from a shadow copy equals archiving the live files. If each source that is read
  elsewhere is read from a tree that mirrors it (the same files in the same order with the same
  content), the run yields the same result and the same report, names and skipped paths included,
  as reading the sources in place.\<close>

theorem snapshot_archive_same:
  assumes "\<forall>s \<in> set sources. case read_root (fe_path E s) of
      None \<Rightarrow> True | Some read \<Rightarrow> mirrors E tar (fe_path E s) read"
  shows "write_tar E tar close sources excludes read_root out = write_tar E tar close sources excludes (\<lambda>_. None) out"
  using tar_sources_mirrored [OF assms] by (simp add: write_tar_def)

lemma demo_mirrors: "mirrors demo_files demo_tar [''/'', ''d''] [''/'', ''shadow'']"
  by (simp add: mirrors_def demo_files_def moved_path_def same_file_def demo_tar_def)

theorem snapshot_archive_same_witness:
  "write_tar demo_files demo_tar (\<lambda>_. Ok ()) [''d''] [] (\<lambda>_. Some [''/'', ''shadow'']) []
     = write_tar demo_files demo_tar (\<lambda>_. Ok ()) [''d''] [] (\<lambda>_. None) []"
proof (rule snapshot_archive_same)
  have "fe_path demo_files ''d'' = [''/'', ''d'']"
    by (simp add: demo_files_def)
  then show "\<forall>s \<in> set [''d'']. case Some [''/'', ''shadow''] of
      None \<Rightarrow> True | Some read \<Rightarrow> mirrors demo_files demo_tar (fe_path demo_files s) read"
    using demo_mirrors by simp
qed

text \<open>A run is skipped only for unchanged files. If two scans of sources give the same fingerprint
  and SHA-256 does not collide on what was hashed, the scans saw the same files: the same paths with
  the same sizes and modification times, each the same number of times. Paths are taken not to
  contain the NUL character, as no file system allows.\<close>

theorem fingerprint_detects_change:
  assumes "fingerprint L E sources excludes = Ok fp" "fingerprint L E' sources' excludes' = Ok fp"
    and "all_items E (patterns_of E excludes) sources = Ok is"
    and "all_items E' (patterns_of E' excludes') sources' = Ok js"
    and "sha256 L (fingerprint_input is) = sha256 L (fingerprint_input js) \<longrightarrow>
         fingerprint_input is = fingerprint_input js"
    and "\<forall>i \<in> set is. plain_path i" "\<forall>j \<in> set js. plain_path j"
  shows "mset is = mset js"
proof (rule fingerprint_input_mset [OF assms(6,7)])
  show "fingerprint_input is = fingerprint_input js"
    using assms(1-5) by (simp add: fingerprint_def)
qed

definition demo_rescan :: "string files_env" where
  "demo_rescan =
     demo_files \<lparr> fe_walk := (\<lambda>p. [Walked (p @ [''b'']) FileKind, Walked p DirKind, Walked (p @ [''a'']) FileKind]) \<rparr>"

definition item_a :: item where
  "item_a = (''//d/a'', 5, 100)"

definition item_b :: item where
  "item_b = (''//d/b'', 5, 100)"

lemma demo_scans:
  "all_items demo_files (patterns_of demo_files []) [''d''] = Ok [item_a, item_b]"
  "all_items demo_rescan (patterns_of demo_rescan []) [''d''] = Ok [item_b, item_a]"
  "fingerprint_input [item_a, item_b] = fingerprint_input [item_b, item_a]"
  "list_all plain_path [item_a, item_b]"
  by code_simp+

theorem fingerprint_detects_change_witness: "mset [item_a, item_b] = mset [item_b, item_a]"
proof (rule fingerprint_detects_change)
  show "fingerprint demo_libs demo_files [''d''] [] = Ok (sha256 demo_libs (fingerprint_input [item_a, item_b]))"
    "fingerprint demo_libs demo_rescan [''d''] [] = Ok (sha256 demo_libs (fingerprint_input [item_a, item_b]))"
    using demo_scans(3) unfolding fingerprint_def demo_scans(1,2) by simp_all
  show "all_items demo_files (patterns_of demo_files []) [''d''] = Ok [item_a, item_b]"
    "all_items demo_rescan (patterns_of demo_rescan []) [''d''] = Ok [item_b, item_a]"
    by (fact demo_scans)+
qed (use demo_scans(3,4) in \<open>simp_all\<close>)

end
