(* ===== verification/RunJob.thy ===== *)
theory RunJob
  imports SnapshotGroups RunRegistry Notify SqlPlan FileSources
begin

text \<open>
  A backup run (\<open>pbsgui-engine/src/backup.rs\<close>): claim of the job, change detection, the backends for
  files and SQL databases, and what a finished, failed or cancelled run leaves in the timers, the
  metrics, the registry and the notifications.

  The world of a run is what it changes; its environment is what it only reads or calls: clock,
  stores, keyring, file system, archiver, uploads, SQL Server and the notification channels. The
  throttled byte progress between the phases of a run is not modelled.
\<close>

section \<open>World and environment\<close>

record run_world =
  rw_sched :: sched_disk
  rw_prints :: "string \<rightharpoonup> bytes"
  rw_metrics :: metrics_state
  rw_registry :: registry
  rw_events :: "Reply list"
  rw_sent :: "delivery list"
  rw_tick :: nat

record ('a, 'p, 'b) run_env =
  re_clock :: "nat \<Rightarrow> i64"
  re_floats :: floats
  re_elapsed :: f64
  re_libs :: libs
  re_signer :: "'a signer"
  re_keyring :: keyring
  re_conns :: "SqlConnection json_store"
  re_servers :: "PbsServer json_store"
  re_files :: "'p files_env"
  re_prints_writable :: bool
  re_vss :: "path list \<Rightarrow> string + (path \<Rightarrow> path option) \<times> string list \<times> string option"
  re_tar :: "'b appender"
  re_tar_close :: "'b \<Rightarrow> string + unit"
  re_tar_new :: 'b
  re_broken_pipe :: "string \<Rightarrow> bool"
  re_upload :: "SessionParams \<Rightarrow> u64 \<Rightarrow> CryptConfig option \<Rightarrow> bool \<Rightarrow> FileInfo list option \<Rightarrow> string + BackupStats"
  re_sql_connect :: "SqlConnection \<Rightarrow> string option \<Rightarrow> string + unit"
  re_db_state :: "string \<Rightarrow> string + DbState"
  re_sql_backup :: "SqlConnection \<Rightarrow> string option \<Rightarrow> string \<Rightarrow> SessionParams \<Rightarrow> string \<Rightarrow> CryptConfig option \<Rightarrow> bool
     \<Rightarrow> SqlBackupType \<Rightarrow> bool \<Rightarrow> string + BackupStats"
  re_sql_file :: "SqlConnection \<Rightarrow> string option \<Rightarrow> string \<Rightarrow> string \<Rightarrow> string + u64"
  re_join :: "string \<Rightarrow> string \<Rightarrow> string"
  re_channels :: channels
  re_settings :: NotificationSettings

definition unix_now :: "('a, 'p, 'b) run_env \<Rightarrow> run_world \<Rightarrow> i64 \<times> run_world" where
  "unix_now E w = (re_clock E (rw_tick w), w \<lparr> rw_tick := Suc (rw_tick w) \<rparr>)"

definition log_line :: "string \<Rightarrow> run_world \<Rightarrow> run_world" where
  "log_line line w = w \<lparr> rw_events := rw_events w @ [LogLine line] \<rparr>"

definition report_phase :: "string \<Rightarrow> string \<Rightarrow> run_world \<Rightarrow> run_world" where
  "report_phase job_id message w =
     w \<lparr> rw_registry := set_run_status job_id (0, 1) message (rw_registry w),
         rw_events := rw_events w @ [Progress (0, 1) message] \<rparr>"

definition pbs_error_text :: "PbsError \<Rightarrow> string" where
  "pbs_error_text e =
     (case e of
        InvalidRepository s \<Rightarrow> ''invalid repository string: '' @ s
      | Auth s \<Rightarrow> ''authentication failed: '' @ s
      | FingerprintMismatch expected got \<Rightarrow>
          ''server fingerprint mismatch: expected '' @ expected @ '', got '' @ got
      | Protocol s \<Rightarrow> ''protocol error: '' @ s
      | Io s \<Rightarrow> s)"

definition map_err :: "('e \<Rightarrow> 'f) \<Rightarrow> 'e + 'x \<Rightarrow> 'f + 'x" where
  "map_err f r = (case r of Inl e \<Rightarrow> Inl (f e) | Inr x \<Rightarrow> Inr x)"


section \<open>Connections\<close>

definition pbs_session_params ::
  "PbsServer json_store \<Rightarrow> keyring \<Rightarrow> string \<Rightarrow> string \<Rightarrow> string \<Rightarrow> i64 \<Rightarrow> string + SessionParams" where
  "pbs_session_params servers kr server_id grp backup_type backup_time =
     (case js_get ps_id servers server_id of
        None \<Rightarrow> Err ''no such PBS server''
      | Some server \<Rightarrow>
          and_then (secret_get (pbs_secret_key server_id) kr) (\<lambda>s.
          case s of
            None \<Rightarrow> Err ''no saved secret for the PBS server''
          | Some secret \<Rightarrow>
              map_err pbs_error_text (and_then (repo_from_str (ps_repository server)) (\<lambda>repo.
                params_from_repository repo secret (ps_fingerprint server) backup_type grp backup_time))))"

definition sql_conn_and_password ::
  "SqlConnection json_store \<Rightarrow> keyring \<Rightarrow> string \<Rightarrow> string + SqlConnection \<times> string option" where
  "sql_conn_and_password conns kr connection_id =
     (case js_get sc_id conns connection_id of
        None \<Rightarrow> Err ''no such SQL connection''
      | Some conn \<Rightarrow>
          (case sc_auth conn of
             Integrated \<Rightarrow> Ok (conn, None)
           | _ \<Rightarrow> and_then (secret_get (sql_secret_key connection_id) kr) (\<lambda>p. Ok (conn, p))))"


section \<open>Files to a backup server\<close>

text \<open>The verdict of a backend: an error, or its summary, the statistics if something was
  written, and whether there were warnings.\<close>

type_synonym Outcome = "string \<times> BackupStats option \<times> bool"

definition skipped_summary :: "Skipped list \<Rightarrow> string" where
  "skipped_summary skipped =
     (let named = map (\<lambda>s. sk_path s @ '' ('' @ sk_reason s @ '')'') (take 3 skipped);
          more_count = length skipped - 3
      in ''skipped '' @ show_nat (length skipped) @ '' file(s) that could not be read: '' @ join_with ''; '' named
         @ (if 0 < more_count then ''; and '' @ show_nat more_count @ '' more (see the run log)'' else []))"

definition log_report :: "ArchiveReport \<Rightarrow> run_world \<Rightarrow> run_world" where
  "log_report r w =
     w \<lparr> rw_events := rw_events w
       @ map (\<lambda>x. LogLine (''warning: '' @ x)) (ar_warnings r)
       @ map (\<lambda>s. LogLine (''skipped '' @ sk_path s @ '': '' @ sk_reason s)) (take 100 (ar_skipped r))
       @ (if 100 < length (ar_skipped r)
          then [LogLine (''... and '' @ show_nat (length (ar_skipped r) - 100) @ '' more skipped'')] else []) \<rparr>"

text \<open>Network shares are not part of the snapshot. \<open>re_vss\<close> gives the mapping of paths into the
  snapshot, the warnings of its creation and the error of finishing it, if any.\<close>

definition unc_prefix :: string where
  "unc_prefix = [CHR 0x5C, CHR 0x5C]"

definition local_source :: "string \<Rightarrow> bool" where
  "local_source s = (\<not> starts_with unc_prefix s \<or> starts_with (unc_prefix @ [CHR ''?'', CHR 0x5C]) s)"

definition archive_sources :: "('a, 'p, 'b) run_env \<Rightarrow> string list \<Rightarrow> string list \<Rightarrow> string + ArchiveReport" where
  "archive_sources E sources excludes =
     (let locals = map (fe_path (re_files E)) (filter local_source sources);
          (read_root, before, after) =
            (if locals = [] then (\<lambda>_. None, [], [])
             else case re_vss E locals of
                    Inr (m, warnings, finish) \<Rightarrow>
                      (m, warnings,
                       case finish of None \<Rightarrow> [] | Some e \<Rightarrow> [''finishing the VSS snapshot: '' @ e])
                  | Inl e \<Rightarrow>
                      (\<lambda>_. None,
                       [''could not create a VSS snapshot, reading files live, so locked files are skipped: '' @ e],
                       []))
      in and_then (write_tar (re_files E) (re_tar E) (re_tar_close E) sources excludes read_root (re_tar_new E))
           (\<lambda>r. Ok (r \<lparr> ar_warnings := before @ after @ ar_warnings r \<rparr>)))"

definition catalog_of :: "ArchiveReport \<Rightarrow> FileInfo list" where
  "catalog_of r = map (\<lambda>e. \<lparr> fi_path = fst e, fi_size = snd e \<rparr>) (ar_entries r)"

definition backup_files_to_pbs ::
  "('a, 'p, 'b) run_env \<Rightarrow> Job \<Rightarrow> string list \<Rightarrow> string list \<Rightarrow> string \<Rightarrow> string \<Rightarrow> CryptConfig option \<Rightarrow> run_world
   \<Rightarrow> (string + BackupStats \<times> ArchiveReport) \<times> run_world" where
  "backup_files_to_pbs E job sources excludes server_id backup_id crypt w =
     (if sources = [] then (Err ''job has no sources'', w)
      else
        let n = show_nat (length sources);
            w1 = report_phase (j_id job) (''scanning '' @ n @ '' source(s)...'')
                   (log_line (''archiving '' @ n @ '' source(s)'') w);
            total = estimate_size (re_files E) sources excludes;
            (now, w2) = unix_now E w1
        in case pbs_session_params (re_servers E) (re_keyring E) server_id backup_id ''host'' now of
             Inl e \<Rightarrow> (Err e, w2)
           | Inr params \<Rightarrow>
               let w3 = (if filter local_source sources = [] then w2
                         else log_line ''creating a VSS snapshot of the source volumes'' w2);
                   w4 = report_phase (j_id job) (''archiving '' @ n @ '' source(s)...'') w3;
                   archived = archive_sources E sources excludes;
                   catalog = (case archived of Inr r \<Rightarrow> Some (catalog_of r) | Inl _ \<Rightarrow> None);
                   upload = re_upload E params total crypt (j_compress job) catalog
               in (case (archived, upload) of
                     (Inr report, Inr stats) \<Rightarrow> (Ok (stats, report), log_report report w4)
                   | (Inl a, Inl u) \<Rightarrow>
                       if re_broken_pipe E a then (Err u, w4)
                       else (Err (''archiving the sources failed: '' @ a), w4)
                   | (Inl a, Inr _) \<Rightarrow> (Err (''archiving the sources failed: '' @ a), w4)
                   | (Inr _, Inl u) \<Rightarrow> (Err u, w4)))"

definition files_summary :: "BackupStats \<Rightarrow> ArchiveReport \<Rightarrow> string" where
  "files_summary stats report =
     ''backed up '' @ human_bytes (st_bytes stats) @ '': '' @ show_nat (unat (st_chunks stats)) @ '' chunks, ''
       @ show_nat (unat (st_uploaded stats)) @ '' uploaded, '' @ show_nat (unat (st_reused stats)) @ '' reused''
       @ (if ar_skipped report = [] then [] else ''; '' @ skipped_summary (ar_skipped report))
       @ (if ar_warnings report = [] then []
          else ''; '' @ show_nat (length (ar_warnings report)) @ '' warning(s)'')"


section \<open>SQL databases to a backup server\<close>

record sql_acc =
  sa_stats :: BackupStats
  sa_backed_up :: u32
  sa_skipped :: "string list"
  sa_warned :: "string list"
  sa_failed :: "string list"
  sa_local_full :: bool

definition zero_stats :: BackupStats where
  "zero_stats =
     \<lparr> st_chunks = 0, st_reused = 0, st_uploaded = 0, st_bytes = 0, st_uploaded_bytes = 0,
       st_stored_bytes = 0, st_csum = 0 \<rparr>"

definition add_stats :: "BackupStats \<Rightarrow> BackupStats \<Rightarrow> BackupStats" where
  "add_stats a s =
     a \<lparr> st_chunks := st_chunks a + st_chunks s, st_uploaded := st_uploaded a + st_uploaded s,
         st_reused := st_reused a + st_reused s, st_bytes := st_bytes a + st_bytes s,
         st_uploaded_bytes := st_uploaded_bytes a + st_uploaded_bytes s,
         st_stored_bytes := st_stored_bytes a + st_stored_bytes s \<rparr>"

definition NO_CHAIN_ESCALATE_SECS :: i64 where
  "NO_CHAIN_ESCALATE_SECS = 3600"

definition run_is_log_but_full :: "SqlRun \<Rightarrow> SqlBackupType \<Rightarrow> bool" where
  "run_is_log_but_full run taken = (run = RunLog \<and> taken = Full)"

definition db_reason :: "string \<Rightarrow> string \<Rightarrow> string" where
  "db_reason db why = ''['' @ db @ '']: '' @ why"

definition fail_db :: "string \<Rightarrow> sql_acc \<times> run_world \<Rightarrow> sql_acc \<times> run_world" where
  "fail_db reason aw =
     ((fst aw) \<lparr> sa_failed := sa_failed (fst aw) @ [reason] \<rparr>, log_line (''backup FAILED for '' @ reason) (snd aw))"

definition skip_db :: "string \<Rightarrow> sql_acc \<times> run_world \<Rightarrow> sql_acc \<times> run_world" where
  "skip_db reason aw =
     ((fst aw) \<lparr> sa_skipped := sa_skipped (fst aw) @ [reason] \<rparr>, log_line (''skipping '' @ reason) (snd aw))"

definition warn_db :: "string \<Rightarrow> sql_acc \<times> run_world \<Rightarrow> sql_acc \<times> run_world" where
  "warn_db reason aw =
     ((fst aw) \<lparr> sa_warned := sa_warned (fst aw) @ [reason] \<rparr>,
      log_line (''warning: log backup not possible for '' @ reason) (snd aw))"

text \<open>A log backup that found no chain: a warning, and a failure once that has lasted an hour.\<close>

definition no_chain_db ::
  "('a, 'p, 'b) run_env \<Rightarrow> string \<Rightarrow> Role \<Rightarrow> string \<Rightarrow> sql_acc \<times> run_world \<Rightarrow> sql_acc \<times> run_world" where
  "no_chain_db E job_id role db aw =
     (let why = (if role = RoleSecondary then NO_CHAIN_ON_SECONDARY
                 else ''no full backup starts the log chain; the next run takes a full backup'');
          (t1, w1) = unix_now E (snd aw);
          (since, disk) = note_no_chain job_id db t1 (rw_sched w1);
          (t2, w2) = unix_now E (w1 \<lparr> rw_sched := disk \<rparr>)
      in if sint NO_CHAIN_ESCALATE_SECS \<le> sint (t2 - since)
         then fail_db (db_reason db (''log backups have found no full backup to start the log chain for over an hour. ''
                @ ''Check that pbsgui runs this job on the primary replica (see docs/ALWAYS-ON.md)'')) (fst aw, w2)
         else warn_db (db_reason db why) (fst aw, w2))"

definition done_db ::
  "('a, 'p, 'b) run_env \<Rightarrow> string \<Rightarrow> SqlRun \<Rightarrow> SqlBackupType \<Rightarrow> string \<Rightarrow> BackupStats \<Rightarrow> sql_acc \<times> run_world \<Rightarrow> sql_acc \<times> run_world" where
  "done_db E job_id run kind db stats aw =
     (let (a, w) = aw;
          w1 = w \<lparr> rw_sched := clear_no_chain job_id db (rw_sched w) \<rparr>;
          (a2, w2) =
            (if run_is_log_but_full run kind
             then (let (t, w') = unix_now E w1
                   in (a \<lparr> sa_local_full := True \<rparr>, w' \<lparr> rw_sched := record_full job_id t (rw_sched w') \<rparr>))
             else (a, w1))
      in (a2 \<lparr> sa_stats := add_stats (sa_stats a2) stats, sa_backed_up := sa_backed_up a2 + 1 \<rparr>, w2))"

record sql_ctx =
  sj_conn :: SqlConnection
  sj_password :: "string option"
  sj_plan :: PlanKind
  sj_run :: SqlRun
  sj_server_id :: string
  sj_backup_id :: string
  sj_crypt :: "CryptConfig option"
  sj_compress :: bool
  sj_job_id :: string

definition backup_db ::
  "('a, 'p, 'b) run_env \<Rightarrow> sql_ctx \<Rightarrow> string \<Rightarrow> DbState \<Rightarrow> SqlBackupType \<Rightarrow> bool \<Rightarrow> sql_acc \<times> run_world \<Rightarrow> sql_acc \<times> run_world" where
  "backup_db E J db state kind copy_only aw =
     (let (grp, archive) = sql_group_and_archive (sj_backup_id J) db kind;
          (now, w1) = unix_now E (snd aw)
      in case pbs_session_params (re_servers E) (re_keyring E) (sj_server_id J) grp ''host'' now of
           Inl e \<Rightarrow> fail_db (db_reason db e) (fst aw, w1)
         | Inr params \<Rightarrow>
             let w2 = report_phase (sj_job_id J) (''reading ['' @ db @ ''] from SQL Server...'')
                        (log_line (''backing up ['' @ db @ ''] to PBS (group '' @ grp @ '')'') w1)
             in case re_sql_backup E (sj_conn J) (sj_password J) db params archive (sj_crypt J) (sj_compress J)
                       kind copy_only of
                  Inr stats \<Rightarrow> done_db E (sj_job_id J) (sj_run J) kind db stats (fst aw, w2)
                | Inl message \<Rightarrow>
                    if kind = Log \<and> is_no_chain_error message
                    then no_chain_db E (sj_job_id J) (ds_role state) db (fst aw, w2)
                    else fail_db (db_reason db message) (fst aw, w2))"

definition sql_db :: "('a, 'p, 'b) run_env \<Rightarrow> sql_ctx \<Rightarrow> string \<Rightarrow> sql_acc \<times> run_world \<Rightarrow> sql_acc \<times> run_world" where
  "sql_db E J db aw =
     (case re_db_state E db of
        Inl e \<Rightarrow> fail_db (db_reason db e) aw
      | Inr state \<Rightarrow>
          (case decide (sj_plan J) (sj_run J) state (sa_local_full (fst aw)) of
             Skip why \<Rightarrow> skip_db (db_reason db why) aw
           | Backup kind copy_only note \<Rightarrow>
               let w1 = (case note of None \<Rightarrow> snd aw | Some n \<Rightarrow> log_line (db_reason db n) (snd aw));
                   w2 = (if copy_only \<and> ds_role state = RoleSecondary \<and> sj_plan J \<noteq> PlanSecondaryCopy
                         then log_line (''['' @ db @ ''] is an Always On secondary; using a copy-only full'') w1
                         else w1)
               in backup_db E J db state kind copy_only (fst aw, w2)))"

definition sql_outcome :: "sql_acc \<Rightarrow> string + Outcome" where
  "sql_outcome a =
     (if sa_failed a \<noteq> [] then
        Err ((if 0 < sa_backed_up a then ''backed up '' @ show_nat (unat (sa_backed_up a)) @ '', but '' else [])
          @ show_nat (length (sa_failed a)) @ '' database(s) failed: '' @ join_with ''; '' (sa_failed a))
      else if sa_backed_up a = 0 then
        (let reasons = sa_warned a @ sa_skipped a;
             reason = (if reasons = [] then ''no databases selected'' else join_with ''; '' reasons)
         in Ok (''skipped: '' @ reason, None, sa_warned a \<noteq> []))
      else
        let s = sa_stats a in
        Ok (''backed up '' @ show_nat (unat (sa_backed_up a)) @ '' database(s) to PBS: '' @ human_bytes (st_bytes s)
              @ '', '' @ show_nat (unat (st_chunks s)) @ '' chunks, '' @ show_nat (unat (st_uploaded s)) @ '' uploaded, ''
              @ show_nat (unat (st_reused s)) @ '' reused''
              @ (if 0 < st_stored_bytes s then '', '' @ human_bytes (st_stored_bytes s) @ '' stored'' else [])
              @ (if sa_warned a = [] then []
                 else ''; '' @ show_nat (length (sa_warned a)) @ '' warning(s): '' @ join_with ''; '' (sa_warned a))
              @ (if sa_skipped a = [] then []
                 else ''; skipped '' @ show_nat (length (sa_skipped a)) @ '': '' @ join_with '', '' (sa_skipped a)),
            Some s, sa_warned a \<noteq> []))"

definition sql_start :: "sched_disk \<Rightarrow> string \<Rightarrow> sql_acc" where
  "sql_start disk job_id =
     \<lparr> sa_stats = zero_stats, sa_backed_up = 0, sa_skipped = [], sa_warned = [], sa_failed = [],
       sa_local_full = (last_full disk job_id \<noteq> None) \<rparr>"

definition backup_sql_to_pbs ::
  "('a, 'p, 'b) run_env \<Rightarrow> string \<Rightarrow> string list \<Rightarrow> PlanKind \<Rightarrow> SqlRun \<Rightarrow> string \<Rightarrow> string \<Rightarrow> CryptConfig option \<Rightarrow> bool
   \<Rightarrow> string \<Rightarrow> run_world \<Rightarrow> (string + Outcome) \<times> run_world" where
  "backup_sql_to_pbs E connection_id databases plan run server_id backup_id crypt compress job_id w =
     (if databases = [] then (Err ''no databases selected'', w)
      else case sql_conn_and_password (re_conns E) (re_keyring E) connection_id of
             Inl e \<Rightarrow> (Err e, w)
           | Inr (conn, password) \<Rightarrow>
               let w1 = report_phase job_id ''connecting to SQL Server...'' w in
               case re_sql_connect E conn password of
                 Inl e \<Rightarrow>
                   if sc_failover_cluster conn then
                     (Ok (''skipped: the failover cluster instance is not active on this node'', None, False),
                      log_line (''the failover cluster instance is not active on this node; skipping ('' @ e @ '')'') w1)
                   else (Err e, w1)
               | Inr _ \<Rightarrow>
                   let J = \<lparr> sj_conn = conn, sj_password = password, sj_plan = plan, sj_run = run,
                             sj_server_id = server_id, sj_backup_id = backup_id, sj_crypt = crypt,
                             sj_compress = compress, sj_job_id = job_id \<rparr>;
                       (a, w2) = fold (sql_db E J) databases (sql_start (rw_sched w1) job_id, w1)
                   in (sql_outcome a, w2))"


section \<open>SQL databases to a folder\<close>

fun sql_files ::
  "('a, 'p, 'b) run_env \<Rightarrow> SqlConnection \<Rightarrow> string option \<Rightarrow> string \<Rightarrow> string list \<Rightarrow> u64 \<Rightarrow> run_world \<Rightarrow> (string + u64) \<times> run_world" where
  "sql_files E conn password folder [] written w = (Ok written, w)"
| "sql_files E conn password folder (db # dbs) written w =
     (let (now, w1) = unix_now E w;
          out = re_join E folder (sanitize db @ ''-'' @ show_int (sint now) @ ''.bak'');
          w2 = log_line (''backing up ['' @ db @ ''] to '' @ out) w1
      in case re_sql_file E conn password db out of
           Inl e \<Rightarrow> (Err e, w2)
         | Inr n \<Rightarrow> sql_files E conn password folder dbs (written + n) w2)"

definition backup_sql_to_folder ::
  "('a, 'p, 'b) run_env \<Rightarrow> string \<Rightarrow> string list \<Rightarrow> string \<Rightarrow> run_world \<Rightarrow> (string + Outcome) \<times> run_world" where
  "backup_sql_to_folder E connection_id databases folder w =
     (if databases = [] then (Err ''no databases selected'', w)
      else case sql_conn_and_password (re_conns E) (re_keyring E) connection_id of
             Inl e \<Rightarrow> (Err e, w)
           | Inr (conn, password) \<Rightarrow>
               (case sql_files E conn password folder databases 0 w of
                  (Inl e, w1) \<Rightarrow> (Err e, w1)
                | (Inr written, w1) \<Rightarrow>
                    (Ok (''backed up '' @ show_nat (length databases) @ '' database(s) to '' @ folder @ '': ''
                           @ human_bytes written, Some (zero_stats \<lparr> st_bytes := written \<rparr>), False), w1)))"

section \<open>A run\<close>

definition do_backup ::
  "('a, 'p, 'b) run_env \<Rightarrow> Job \<Rightarrow> SqlRun \<Rightarrow> run_world \<Rightarrow> (string + Outcome) \<times> run_world" where
  "do_backup E job run w =
     (case (j_source job, j_destination job) of
        (Files sources excludes _, Pbs server_id backup_id) \<Rightarrow>
          (case for_job (re_signer E) (re_libs E) job (re_keyring E) of
             Inl e \<Rightarrow> (Err e, w)
           | Inr crypt \<Rightarrow>
               (case backup_files_to_pbs E job sources excludes server_id backup_id crypt w of
                  (Inl e, w1) \<Rightarrow> (Err e, w1)
                | (Inr (stats, report), w1) \<Rightarrow>
                    (Ok (files_summary stats report, Some stats,
                         ar_skipped report \<noteq> [] \<or> ar_warnings report \<noteq> []), w1)))
      | (Sql connection_id databases protection, Pbs server_id backup_id) \<Rightarrow>
          (case for_job (re_signer E) (re_libs E) job (re_keyring E) of
             Inl e \<Rightarrow> (Err e, w)
           | Inr crypt \<Rightarrow>
               backup_sql_to_pbs E connection_id databases (plan_kind protection) run server_id backup_id crypt
                 (j_compress job) (j_id job) w)
      | (Sql connection_id databases _, Folder folder) \<Rightarrow>
          backup_sql_to_folder E connection_id databases folder w
      | (Files _ _ _, Folder _) \<Rightarrow> (Err ''backing up files to a folder is not supported yet'', w))"

definition source_fingerprint :: "('a, 'p, 'b) run_env \<Rightarrow> Job \<Rightarrow> string + arr32 option" where
  "source_fingerprint E job =
     (case j_source job of
        Files sources excludes True \<Rightarrow>
          and_then (fingerprint (re_libs E) (re_files E) sources excludes) (\<lambda>fp. Ok (Some fp))
      | _ \<Rightarrow> Ok None)"

definition run_inner ::
  "('a, 'p, 'b) run_env \<Rightarrow> Job \<Rightarrow> SqlRun \<Rightarrow> run_world \<Rightarrow> (string + Outcome) \<times> run_world" where
  "run_inner E job run w =
     (case source_fingerprint E job of
        Inl e \<Rightarrow> (Err e, w)
      | Inr fp \<Rightarrow>
          if fp \<noteq> None \<and> print_load (rw_prints w) (j_id job) = fp
          then (Ok (''no changes since last run; skipped'', None, False),
                log_line ''no source changes since last run; skipping backup'' w)
          else
            (case do_backup E job run w of
               (Inl e, w1) \<Rightarrow> (Err e, w1)
             | (Inr (summary, stats, warning), w1) \<Rightarrow>
                 let w2 = (case fp of
                       None \<Rightarrow> w1
                     | Some f \<Rightarrow> w1 \<lparr> rw_prints := print_save (re_prints_writable E) (j_id job) f (rw_prints w1) \<rparr>)
                 in (Ok (summary, stats, warning), log_line summary w2)))"

definition outcome_status :: "BackupStats option \<Rightarrow> bool \<Rightarrow> string" where
  "outcome_status stats warning =
     (if warning then ''warning'' else if stats \<noteq> None then ''ok'' else ''no-change'')"

definition job_outcome :: "Job \<Rightarrow> SqlRun \<Rightarrow> string + Outcome \<Rightarrow> JobOutcome" where
  "job_outcome job run outcome =
     (let (success, status, message, stats) =
            (case outcome of
               Inr (message, stats, warning) \<Rightarrow> (True, outcome_status stats warning, message, stats)
             | Inl e \<Rightarrow> (False, ''error'', e, None));
          (kind, databases) =
            (case j_source job of
               Sql _ databases _ \<Rightarrow>
                 ((case run of RunFull \<Rightarrow> ''full backup'' | RunLog \<Rightarrow> ''log backup''), databases)
             | Files _ _ _ \<Rightarrow> (''file backup'', []))
      in \<lparr> jo_job_name = j_name job, jo_kind = kind, jo_databases = databases, jo_success = success,
           jo_status = status, jo_message = message, jo_stats = stats \<rparr>)"

definition notify_outcome ::
  "('a, 'p, 'b) run_env \<Rightarrow> Job \<Rightarrow> SqlRun \<Rightarrow> string + Outcome \<Rightarrow> run_world \<Rightarrow> run_world" where
  "notify_outcome E job run outcome w =
     w \<lparr> rw_sent := rw_sent w
           @ job_finished (re_floats E) (re_channels E) (re_keyring E) (re_settings E) (job_outcome job run outcome) \<rparr>"

record RunReport =
  rr_message :: string
  rr_warning :: bool

definition report_status :: "RunReport \<Rightarrow> string" where
  "report_status r = (if rr_warning r then ''warning: '' @ rr_message r else ''ok'')"

definition is_sql :: "Job \<Rightarrow> bool" where
  "is_sql job = (case j_source job of Sql _ _ _ \<Rightarrow> True | Files _ _ _ \<Rightarrow> False)"

definition sql_timers :: "('a, 'p, 'b) run_env \<Rightarrow> Job \<Rightarrow> (i64 \<Rightarrow> sched_disk \<Rightarrow> sched_disk) \<Rightarrow> run_world \<Rightarrow> run_world" where
  "sql_timers E job upd w =
     (if is_sql job
      then let (now, w1) = unix_now E w in w1 \<lparr> rw_sched := upd now (rw_sched w1) \<rparr>
      else w)"

definition attempt_timer :: "string \<Rightarrow> SqlRun \<Rightarrow> i64 \<Rightarrow> sched_disk \<Rightarrow> sched_disk" where
  "attempt_timer job_id run =
     (case run of RunFull \<Rightarrow> record_full_attempt job_id | RunLog \<Rightarrow> record_log_attempt job_id)"

definition success_timer :: "string \<Rightarrow> SqlRun \<Rightarrow> i64 \<Rightarrow> sched_disk \<Rightarrow> sched_disk" where
  "success_timer job_id run = (case run of RunFull \<Rightarrow> record_full job_id | RunLog \<Rightarrow> record_log job_id)"

definition count_run ::
  "('a, 'p, 'b) run_env \<Rightarrow> string \<Rightarrow> RunResult \<Rightarrow> BackupStats option \<Rightarrow> run_world \<Rightarrow> run_world" where
  "count_run E job_id result stats w =
     (let (now, w1) = unix_now E w
      in w1 \<lparr> rw_metrics := metrics_record_run (re_floats E) job_id result (re_elapsed E) stats now (rw_metrics w1) \<rparr>)"

definition run_result :: "string + Outcome \<Rightarrow> RunResult" where
  "run_result outcome =
     (case outcome of
        Inr (_, Some _, _) \<Rightarrow> RunSuccess
      | Inr (_, None, _) \<Rightarrow> RunSkipped
      | Inl _ \<Rightarrow> RunFailure)"

definition outcome_stats :: "string + Outcome \<Rightarrow> BackupStats option" where
  "outcome_stats outcome = (case outcome of Inr (_, stats, _) \<Rightarrow> stats | Inl _ \<Rightarrow> None)"

text \<open>How the race between the run and a cancellation ends: the run completes (the flag says whether
  its token is cancelled by then), or it is dropped, leaving the world as it is at that point.\<close>

datatype run_end = Completed bool | Dropped run_world

definition release :: "string \<times> nat \<Rightarrow> run_world \<Rightarrow> run_world" where
  "release g w = w \<lparr> rw_registry := drop_status (fst g) (drop_running g (rw_registry w)) \<rparr>"

definition finish_run ::
  "('a, 'p, 'b) run_env \<Rightarrow> Job \<Rightarrow> SqlRun \<Rightarrow> bool \<Rightarrow> (string + Outcome) \<times> run_world \<Rightarrow> (string + RunReport) \<times> run_world" where
  "finish_run E job run cancelled ow =
     (let (outcome, w) = ow in
      if cancelled \<and> \<not> is_ok outcome
      then (Ok \<lparr> rr_message = ''cancelled'', rr_warning = False \<rparr>,
            count_run E (j_id job) RunFailure None
              (sql_timers E job (attempt_timer (j_id job) run) (log_line ''backup cancelled'' w)))
      else
        let w1 = sql_timers E job
              (if is_ok outcome then success_timer (j_id job) run else attempt_timer (j_id job) run) w;
            w2 = notify_outcome E job run outcome w1;
            w3 = count_run E (j_id job) (run_result outcome) (outcome_stats outcome) w2
        in (case outcome of
              Inl e \<Rightarrow> Err e
            | Inr (message, _, warning) \<Rightarrow> Ok \<lparr> rr_message = message, rr_warning = warning \<rparr>, w3))"

definition start_run :: "('a, 'p, 'b) run_env \<Rightarrow> Job \<Rightarrow> run_world \<Rightarrow> (nat \<times> run_world) option" where
  "start_run E job w =
     (let (now, w1) = unix_now E w in
      case try_claim_run (j_id job) now (rw_registry w1) of
        None \<Rightarrow> None
      | Some (token, reg) \<Rightarrow>
          Some (token, w1 \<lparr> rw_registry := reg,
                            rw_metrics := set_running (re_floats E) (j_id job) True (rw_metrics w1) \<rparr>))"

definition run_job_kind ::
  "('a, 'p, 'b) run_env \<Rightarrow> run_end \<Rightarrow> Job \<Rightarrow> SqlRun \<Rightarrow> run_world \<Rightarrow> (string + RunReport) \<times> run_world" where
  "run_job_kind E fin job run w =
     (case start_run E job w of
        None \<Rightarrow>
          (Ok \<lparr> rr_message = ''skipped: a run is already in progress'', rr_warning = False \<rparr>,
           log_line ''a run for this job is already in progress; skipping'' w)
      | Some (token, w1) \<Rightarrow>
          let (result, w2) =
                (case fin of
                   Completed cancelled \<Rightarrow> finish_run E job run cancelled (run_inner E job run w1)
                 | Dropped w' \<Rightarrow> finish_run E job run True (Err ''cancelled by request'', w'))
          in (result, release (j_id job, token) w2))"

definition run_job :: "('a, 'p, 'b) run_env \<Rightarrow> run_end \<Rightarrow> Job \<Rightarrow> run_world \<Rightarrow> (string + RunReport) \<times> run_world" where
  "run_job E fin job w = run_job_kind E fin job RunFull w"

end
