(* ===== verification/Streams.thy ===== *)
theory Streams
  imports Prelude
begin

text \<open>
  Byte streams between threads: the bounded channels that carry an archive or a database backup
  from its producer to the uploader.

  The writers are \<open>ChannelWriter\<close> of \<open>archive.rs\<close> and of the AD engine's \<open>stream.rs\<close>; the readers are
  \<open>ChannelReader\<close> of \<open>sql/vdi.rs\<close>, \<open>RelayRead\<close> of \<open>relay/server.rs\<close> and \<open>ChannelReader\<close> of
  \<open>stream.rs\<close>. The three readers share their code up to the error text, here \<open>channel_read\<close>. A
  channel is the list of the buffers its senders still send before they drop; the verdict channel
  is the list of the values sent on it, empty when its sender is dropped.

  The locale \<open>verdict_stream\<close> is the contract of the readers: they deliver the content in order and
  report the end only on a good verdict. \<open>piece_writer\<close> is the contract of the writers.
\<close>

datatype IoError =
  UnexpectedEof string
| BrokenPipe string
| InvalidInput string
| InvalidData string
| OtherIo string

section \<open>Readers\<close>

record byte_channel =
  ch_rx :: "bytes list"
  ch_done :: "bool list"
  ch_buf :: bytes
  ch_pos :: nat
  ch_verdict :: "bool option"

text \<open>The loop that pulls the next non-empty buffer; the flag says whether there was one.\<close>

fun ch_fill :: "bytes list \<Rightarrow> bytes \<Rightarrow> nat \<Rightarrow> bytes list \<times> bytes \<times> nat \<times> bool" where
  "ch_fill [] buf pos = ([], buf, pos, pos < length buf)"
| "ch_fill (next # rest) buf pos =
     (if pos < length buf then (next # rest, buf, pos, True) else ch_fill rest next 0)"

text \<open>The verdict of a closed stream: the cached one, else the next value of the verdict channel,
  and a dropped sender counts as a failure.\<close>

definition ch_decide :: "'a byte_channel_scheme \<Rightarrow> bool \<times> 'a byte_channel_scheme" where
  "ch_decide s =
     (case ch_verdict s of
        Some v \<Rightarrow> (v, s)
      | None \<Rightarrow>
          (case ch_done s of
             [] \<Rightarrow> (False, s \<lparr> ch_verdict := Some False \<rparr>)
           | v # vs \<Rightarrow> (v, s \<lparr> ch_done := vs, ch_verdict := Some v \<rparr>)))"

definition channel_read ::
  "string \<Rightarrow> nat \<Rightarrow> 'a byte_channel_scheme \<Rightarrow> (IoError + bytes) \<times> 'a byte_channel_scheme" where
  "channel_read failure len s =
     (let (rx, buf, pos, found) = ch_fill (ch_rx s) (ch_buf s) (ch_pos s);
          s1 = s \<lparr> ch_rx := rx, ch_buf := buf, ch_pos := pos \<rparr>
      in if found then
           let n = min (length buf - pos) len
           in (Ok (slice pos (pos + n) buf), s1 \<lparr> ch_pos := pos + n \<rparr>)
         else
           let (ok, s2) = ch_decide s1
           in (if ok then Ok [] else Err (UnexpectedEof failure), s2))"

record ChannelReader = byte_channel +
  cr_failure :: string

definition with_failure :: "bytes list \<Rightarrow> bool list \<Rightarrow> string \<Rightarrow> ChannelReader" where
  "with_failure rx dn failure =
     \<lparr> ch_rx = rx, ch_done = dn, ch_buf = [], ch_pos = 0, ch_verdict = None, cr_failure = failure \<rparr>"

definition reader_new :: "bytes list \<Rightarrow> bool list \<Rightarrow> ChannelReader" where
  "reader_new rx dn =
     with_failure rx dn
       ''the SQL Server BACKUP did not complete; refusing to upload a truncated backup''"

definition reader_read :: "nat \<Rightarrow> ChannelReader \<Rightarrow> (IoError + bytes) \<times> ChannelReader" where
  "reader_read len s = channel_read (cr_failure s) len s"

text \<open>The relay's reader and the AD engine's have the same fields without the error text.\<close>

type_synonym RelayRead = byte_channel

definition channel_open :: "bytes list \<Rightarrow> bool list \<Rightarrow> byte_channel" where
  "channel_open rx dn = \<lparr> ch_rx = rx, ch_done = dn, ch_buf = [], ch_pos = 0, ch_verdict = None \<rparr>"

definition RELAY_TRUNCATED :: string where
  "RELAY_TRUNCATED =
     ''the relay data stream did not complete; refusing to treat a truncated backup as whole''"

definition relay_read :: "nat \<Rightarrow> RelayRead \<Rightarrow> (IoError + bytes) \<times> RelayRead" where
  "relay_read len s = channel_read RELAY_TRUNCATED len s"

definition AD_TRUNCATED :: string where
  "AD_TRUNCATED =
     ''the archive stream ended before the producer confirmed success; refusing to upload a truncated backup''"

definition ad_reader_new :: "bytes list \<Rightarrow> bool list \<Rightarrow> byte_channel" where
  "ad_reader_new rx dn = channel_open rx dn"

definition ad_reader_read :: "nat \<Rightarrow> byte_channel \<Rightarrow> (IoError + bytes) \<times> byte_channel" where
  "ad_reader_read len s = channel_read AD_TRUNCATED len s"

section \<open>Writers\<close>

text \<open>The sending side: the pieces sent, how many more the receiver takes before it stops, and the
  bytes not sent yet.\<close>

record ChannelWriter =
  cw_sent :: "bytes list"
  cw_room :: nat
  cw_buf :: bytes

definition writer_new :: "nat \<Rightarrow> ChannelWriter" where
  "writer_new room = \<lparr> cw_sent = [], cw_room = room, cw_buf = [] \<rparr>"

definition tx_send :: "IoError \<Rightarrow> bytes \<Rightarrow> ChannelWriter \<Rightarrow> (IoError + unit) \<times> ChannelWriter" where
  "tx_send e piece w =
     (if cw_room w = 0 then (Err e, w)
      else (Ok (), w \<lparr> cw_sent := cw_sent w @ [piece], cw_room := cw_room w - 1 \<rparr>))"

definition PIECE :: nat where "PIECE = 2 ^ 20"

definition writer_send :: "ChannelWriter \<Rightarrow> (IoError + unit) \<times> ChannelWriter" where
  "writer_send w =
     (if cw_buf w = [] then (Ok (), w)
      else tx_send (BrokenPipe ''the PBS upload stopped'') (cw_buf w) (w \<lparr> cw_buf := [] \<rparr>))"

definition writer_write :: "bytes \<Rightarrow> ChannelWriter \<Rightarrow> (IoError + nat) \<times> ChannelWriter" where
  "writer_write data w =
     (let w1 = w \<lparr> cw_buf := cw_buf w @ data \<rparr>
      in if PIECE \<le> length (cw_buf w1) then
           let (r, w2) = writer_send w1 in (and_then r (\<lambda>_. Ok (length data)), w2)
         else (Ok (length data), w1))"

definition writer_flush :: "ChannelWriter \<Rightarrow> (IoError + unit) \<times> ChannelWriter" where
  "writer_flush w = writer_send w"

definition CHUNK :: nat where "CHUNK = 256 * 1024"

definition AD_CLOSED :: IoError where "AD_CLOSED = OtherIo ''the upload side closed''"

lemma CHUNK_pos [simp]: "0 < CHUNK"
  by (simp add: CHUNK_def)

function ad_send_chunks :: "ChannelWriter \<Rightarrow> (IoError + unit) \<times> ChannelWriter" where
  "ad_send_chunks w =
     (if CHUNK \<le> length (cw_buf w) then
        (case tx_send AD_CLOSED (take CHUNK (cw_buf w)) (w \<lparr> cw_buf := drop CHUNK (cw_buf w) \<rparr>) of
           (Inl e, w1) \<Rightarrow> (Err e, w1)
         | (Inr _, w1) \<Rightarrow> ad_send_chunks w1)
      else (Ok (), w))"
  by pat_completeness auto
termination
  by (relation "measure (\<lambda>w. length (cw_buf w))") (auto simp: tx_send_def CHUNK_def split: if_splits)

definition ad_writer_write :: "bytes \<Rightarrow> ChannelWriter \<Rightarrow> (IoError + nat) \<times> ChannelWriter" where
  "ad_writer_write data w =
     (let (r, w1) = ad_send_chunks (w \<lparr> cw_buf := cw_buf w @ data \<rparr>)
      in (and_then r (\<lambda>_. Ok (length data)), w1))"

definition ad_writer_flush :: "ChannelWriter \<Rightarrow> (IoError + unit) \<times> ChannelWriter" where
  "ad_writer_flush w =
     (if cw_buf w \<noteq> [] then tx_send AD_CLOSED (cw_buf w) (w \<lparr> cw_buf := [] \<rparr>) else (Ok (), w))"

section \<open>Using a reader and a writer\<close>

text \<open>Reading to the end with the given request sizes (\<open>None\<close>: the requests were used up first), and
  writing a sequence of buffers.\<close>

fun read_all :: "(nat \<Rightarrow> 's \<Rightarrow> ('e + bytes) \<times> 's) \<Rightarrow> nat list \<Rightarrow> bytes \<Rightarrow> 's \<Rightarrow> ('e + bytes) option" where
  "read_all rd [] acc s = None"
| "read_all rd (n # ns) acc s =
     (case rd n s of
        (Inl e, _) \<Rightarrow> Some (Err e)
      | (Inr bs, s') \<Rightarrow> if bs = [] then Some (Ok acc) else read_all rd ns (acc @ bs) s')"

fun write_pieces :: "(bytes \<Rightarrow> 'w \<Rightarrow> ('e + nat) \<times> 'w) \<Rightarrow> bytes list \<Rightarrow> 'w \<Rightarrow> ('e + unit) \<times> 'w" where
  "write_pieces wr [] w = (Ok (), w)"
| "write_pieces wr (d # ds) w =
     (case wr d w of (Inl e, w1) \<Rightarrow> (Err e, w1) | (Inr _, w1) \<Rightarrow> write_pieces wr ds w1)"

locale verdict_stream =
  fixes rd :: "nat \<Rightarrow> 's \<Rightarrow> (IoError + bytes) \<times> 's"
    and content :: "'s \<Rightarrow> bytes" and whole :: "'s \<Rightarrow> bool" and failure :: "'s \<Rightarrow> string"
  assumes data: "content s \<noteq> [] \<Longrightarrow> 0 < n \<Longrightarrow> rd n s = (r, s') \<Longrightarrow>
      (\<exists>bs. r = Ok bs \<and> bs \<noteq> [] \<and> content s = bs @ content s') \<and> whole s' = whole s \<and> failure s' = failure s"
    and ended: "content s = [] \<Longrightarrow> rd n s = (r, s') \<Longrightarrow>
      r = (if whole s then Ok [] else Err (UnexpectedEof (failure s))) \<and> content s' = [] \<and>
      whole s' = whole s \<and> failure s' = failure s"
begin

lemma read_all_outcome:
  "list_all ((<) 0) ns \<Longrightarrow> read_all rd ns acc s = Some r \<Longrightarrow>
   r = (if whole s then Ok (acc @ content s) else Err (UnexpectedEof (failure s)))"
proof (induction ns arbitrary: acc s)
  case (Cons n ns)
  obtain x s' where x: "rd n s = (x, s')"
    by fastforce
  show ?case
  proof (cases "content s = []")
    case True
    then show ?thesis
      using Cons.prems ended [OF True x] x by (auto split: if_splits)
  next
    case False
    then obtain bs where "x = Ok bs" "bs \<noteq> []" "content s = bs @ content s'" "whole s' = whole s"
      "failure s' = failure s"
      using data [OF False _ x] Cons.prems(1) by auto
    then show ?thesis
      using Cons.IH [of "acc @ bs" s'] Cons.prems x by simp
  qed
qed simp

lemma read_all_ends:
  "list_all ((<) 0) ns \<Longrightarrow> length (content s) < length ns \<Longrightarrow> \<exists>r. read_all rd ns acc s = Some r"
proof (induction ns arbitrary: acc s)
  case (Cons n ns)
  obtain x s' where x: "rd n s = (x, s')"
    by fastforce
  show ?case
  proof (cases "content s = []")
    case True
    then show ?thesis
      using ended [OF True x] x by (auto split: if_splits)
  next
    case False
    then obtain bs where bs: "x = Ok bs" "bs \<noteq> []" "content s = bs @ content s'"
      using data [OF False _ x] Cons.prems(1) by auto
    then have "length (content s') < length ns"
      using Cons.prems(2) by (cases bs) auto
    then show ?thesis
      using Cons.IH [of s' "acc @ bs"] Cons.prems(1) bs x by simp
  qed
qed simp

lemma read_to_end:
  assumes "list_all ((<) 0) ns" "length (content s) < length ns"
  shows "read_all rd ns [] s =
    Some (if whole s then Ok (content s) else Err (UnexpectedEof (failure s)))"
  using read_all_ends [OF assms, of "[]"] read_all_outcome [OF assms(1), of "[]" s] by auto

end

locale piece_writer =
  fixes wr :: "bytes \<Rightarrow> 'w \<Rightarrow> (IoError + nat) \<times> 'w" and fl :: "'w \<Rightarrow> (IoError + unit) \<times> 'w"
    and sent :: "'w \<Rightarrow> bytes" and pending :: "'w \<Rightarrow> bytes"
  assumes write_ok: "wr d w = (Ok n, w') \<Longrightarrow> n = length d \<and> sent w' @ pending w' = sent w @ pending w @ d"
    and flush_ok: "fl w = (Ok u, w') \<Longrightarrow> sent w' = sent w @ pending w \<and> pending w' = []"
begin

lemma write_pieces_ok:
  "write_pieces wr ds w = (Ok u, w') \<Longrightarrow> sent w' @ pending w' = sent w @ pending w @ concat ds"
proof (induction ds arbitrary: w)
  case (Cons d ds)
  obtain n w1 where "wr d w = (Ok n, w1)" "write_pieces wr ds w1 = (Ok u, w')"
    using Cons.prems by (auto split: prod.splits sum.splits)
  then show ?case
    using write_ok [of d w n w1] Cons.IH [of w1] by simp
qed auto

lemma flushed_ok:
  assumes "write_pieces wr ds w = (Ok u, w1)" "fl w1 = (Ok v, w2)" "sent w = []" "pending w = []"
  shows "sent w2 = concat ds"
  using write_pieces_ok [OF assms(1)] flush_ok [OF assms(2)] assms(3,4) by simp

end

section \<open>The readers keep the contract\<close>

definition ch_content :: "'a byte_channel_scheme \<Rightarrow> bytes" where
  "ch_content s = drop (ch_pos s) (ch_buf s) @ concat (ch_rx s)"

definition ch_whole :: "'a byte_channel_scheme \<Rightarrow> bool" where
  "ch_whole s = (case ch_verdict s of Some v \<Rightarrow> v | None \<Rightarrow> (case ch_done s of [] \<Rightarrow> False | v # _ \<Rightarrow> v))"

lemma ch_fill_content:
  "ch_fill rx buf pos = (rx', buf', pos', found) \<Longrightarrow>
   drop pos' buf' @ concat rx' = drop pos buf @ concat rx \<and>
   (if found then pos' < length buf' else drop pos buf @ concat rx = [])"
  by (induction rx buf pos rule: ch_fill.induct) (auto split: if_splits)

lemma ch_decide_whole:
  "ch_decide s = (ok, s') \<Longrightarrow> ok = ch_whole s \<and> ch_whole s' = ch_whole s \<and> ch_content s' = ch_content s \<and>
   byte_channel.more s' = byte_channel.more s"
  by (auto simp: ch_decide_def ch_whole_def ch_content_def split: option.splits list.splits)

lemma channel_read_data:
  assumes "ch_content s \<noteq> []" "0 < n" "channel_read failure n s = (r, s')"
  shows "\<exists>bs. r = Ok bs \<and> bs \<noteq> [] \<and> ch_content s = bs @ ch_content s'"
    and "ch_whole s' = ch_whole s" "byte_channel.more s' = byte_channel.more s"
proof -
  obtain rx buf pos found where f: "ch_fill (ch_rx s) (ch_buf s) (ch_pos s) = (rx, buf, pos, found)"
    by (metis prod_cases4)
  have c: "drop pos buf @ concat rx = ch_content s" "found" "pos < length buf"
    using ch_fill_content [OF f] assms(1) by (auto simp: ch_content_def split: if_splits)
  define m where "m = min (length buf - pos) n"
  have out: "r = Ok (slice pos (pos + m) buf)"
    "s' = s \<lparr> ch_rx := rx, ch_buf := buf, ch_pos := pos + m \<rparr>"
    using assms(3) f c(2) by (auto simp: channel_read_def m_def Let_def)
  have "slice pos (pos + m) buf @ drop (pos + m) buf = drop pos buf" "slice pos (pos + m) buf \<noteq> []"
    using c(3) assms(2) append_take_drop_id [of m "drop pos buf"]
    by (auto simp: slice_def m_def drop_take add.commute)
  then have "ch_content s = slice pos (pos + m) buf @ ch_content s'" "slice pos (pos + m) buf \<noteq> []"
    unfolding c(1) [symmetric] by (simp_all add: out(2) ch_content_def flip: append_assoc)
  then show "\<exists>bs. r = Ok bs \<and> bs \<noteq> [] \<and> ch_content s = bs @ ch_content s'"
    using out(1) by blast
  show "ch_whole s' = ch_whole s" "byte_channel.more s' = byte_channel.more s"
    using out by (simp_all add: ch_whole_def split: option.split)
qed

lemma channel_read_ended:
  assumes "ch_content s = []" "channel_read failure n s = (r, s')"
  shows "r = (if ch_whole s then Ok [] else Err (UnexpectedEof failure))" "ch_content s' = []"
    "ch_whole s' = ch_whole s" "byte_channel.more s' = byte_channel.more s"
proof -
  obtain rx buf pos found where f: "ch_fill (ch_rx s) (ch_buf s) (ch_pos s) = (rx, buf, pos, found)"
    by (metis prod_cases4)
  have c: "drop pos buf @ concat rx = []"
    using ch_fill_content [OF f] assms(1) unfolding ch_content_def by metis
  have "found \<Longrightarrow> drop pos buf \<noteq> []"
    using ch_fill_content [OF f] by simp
  with c have "\<not> found"
    by blast
  define s1 where "s1 = s \<lparr> ch_rx := rx, ch_buf := buf, ch_pos := pos \<rparr>"
  obtain ok s2 where d: "ch_decide s1 = (ok, s2)"
    by fastforce
  have out: "r = (if ok then Ok [] else Err (UnexpectedEof failure))" "s' = s2"
    using assms(2) f \<open>\<not> found\<close> d by (auto simp: channel_read_def s1_def)
  have s1: "ch_whole s1 = ch_whole s" "ch_content s1 = []" "byte_channel.more s1 = byte_channel.more s"
    using c by (auto simp: s1_def ch_whole_def ch_content_def split: option.split)
  then show "r = (if ch_whole s then Ok [] else Err (UnexpectedEof failure))" "ch_content s' = []"
    "ch_whole s' = ch_whole s" "byte_channel.more s' = byte_channel.more s"
    using ch_decide_whole [OF d] out by simp_all
qed

lemma cr_failure_more: "byte_channel.more s = byte_channel.more t \<Longrightarrow> cr_failure s = cr_failure t"
  for s t :: ChannelReader
  by (cases s; cases t) simp

interpretation vdi_reader: verdict_stream reader_read ch_content ch_whole cr_failure
proof
  fix s n r s'
  assume rd: "reader_read n s = (r, s')"
  then have rd': "channel_read (cr_failure s) n s = (r, s')"
    by (simp add: reader_read_def)
  show "(\<exists>bs. r = Ok bs \<and> bs \<noteq> [] \<and> ch_content s = bs @ ch_content s') \<and> ch_whole s' = ch_whole s \<and>
      cr_failure s' = cr_failure s" if "ch_content s \<noteq> []" "0 < n"
    using channel_read_data [OF that rd'] cr_failure_more [of s' s] by blast
  show "r = (if ch_whole s then Ok [] else Err (UnexpectedEof (cr_failure s))) \<and> ch_content s' = [] \<and>
      ch_whole s' = ch_whole s \<and> cr_failure s' = cr_failure s" if "ch_content s = []"
    using channel_read_ended [OF that rd'] cr_failure_more [of s' s] by blast
qed

lemma verdict_stream_channel_read:
  "verdict_stream (channel_read failure) ch_content ch_whole (\<lambda>_ :: byte_channel. failure)"
proof
  fix n :: nat and s :: byte_channel and r s'
  assume rd: "channel_read failure n s = (r, s')"
  show "(\<exists>bs. r = Ok bs \<and> bs \<noteq> [] \<and> ch_content s = bs @ ch_content s') \<and> ch_whole s' = ch_whole s \<and>
      failure = failure" if "ch_content s \<noteq> []" "0 < n"
    using channel_read_data [OF that rd] by blast
  show "r = (if ch_whole s then Ok [] else Err (UnexpectedEof failure)) \<and> ch_content s' = [] \<and>
      ch_whole s' = ch_whole s \<and> failure = failure" if "ch_content s = []"
    using channel_read_ended [OF that rd] by blast
qed

interpretation relay_reader: verdict_stream relay_read ch_content ch_whole "\<lambda>_. RELAY_TRUNCATED"
  unfolding relay_read_def by (rule verdict_stream_channel_read)

interpretation ad_reader: verdict_stream ad_reader_read ch_content ch_whole "\<lambda>_. AD_TRUNCATED"
  unfolding ad_reader_read_def by (rule verdict_stream_channel_read)

lemma opened_simps [simp]:
  "ch_content (with_failure rx dn f) = concat rx" "ch_content (channel_open rx dn) = concat rx"
  "ch_whole (with_failure rx dn f) = (dn \<noteq> [] \<and> hd dn)" "ch_whole (channel_open rx dn) = (dn \<noteq> [] \<and> hd dn)"
  "cr_failure (with_failure rx dn f) = f"
  by (simp_all add: with_failure_def channel_open_def ch_content_def ch_whole_def split: list.split)

section \<open>The writers keep the contract\<close>

lemma tx_send_ok:
  "tx_send e p w = (Ok u, w') \<Longrightarrow> concat (cw_sent w') = concat (cw_sent w) @ p \<and> cw_buf w' = cw_buf w"
  by (auto simp: tx_send_def split: if_splits)

lemma writer_send_ok:
  "writer_send w = (Ok u, w') \<Longrightarrow> concat (cw_sent w') = concat (cw_sent w) @ cw_buf w \<and> cw_buf w' = []"
  by (auto simp: writer_send_def dest: tx_send_ok split: if_splits)

declare ad_send_chunks.simps [simp del]

lemma ad_send_chunks_ok:
  "ad_send_chunks w = (Ok u, w') \<Longrightarrow>
   concat (cw_sent w') @ cw_buf w' = concat (cw_sent w) @ cw_buf w \<and> length (cw_buf w') < CHUNK"
proof (induction w rule: ad_send_chunks.induct)
  case (1 w)
  show ?case
  proof (cases "CHUNK \<le> length (cw_buf w)")
    case True
    define w0 where "w0 = w \<lparr> cw_buf := drop CHUNK (cw_buf w) \<rparr>"
    obtain v w1 where s: "tx_send AD_CLOSED (take CHUNK (cw_buf w)) w0 = (Ok v, w1)" "ad_send_chunks w1 = (Ok u, w')"
      using "1.prems" True unfolding ad_send_chunks.simps [of w] by (auto simp: w0_def split: prod.splits sum.splits)
    then show ?thesis
      using "1.IH" [OF True] tx_send_ok [OF s(1)] by (simp add: w0_def)
  next
    case False
    then show ?thesis
      using "1.prems" by (simp add: ad_send_chunks.simps [of w])
  qed
qed

interpretation archive_writer: piece_writer writer_write writer_flush "\<lambda>w. concat (cw_sent w)" cw_buf
proof
  fix d w n w'
  assume "writer_write d w = (Ok n, w')"
  then show "n = length d \<and> concat (cw_sent w') @ cw_buf w' = concat (cw_sent w) @ cw_buf w @ d"
    by (auto simp: writer_write_def Let_def dest!: writer_send_ok split: if_splits prod.splits)
qed (auto simp: writer_flush_def dest: writer_send_ok)

interpretation ad_writer: piece_writer ad_writer_write ad_writer_flush "\<lambda>w. concat (cw_sent w)" cw_buf
proof
  fix d w n w'
  assume "ad_writer_write d w = (Ok n, w')"
  then show "n = length d \<and> concat (cw_sent w') @ cw_buf w' = concat (cw_sent w) @ cw_buf w @ d"
    by (auto simp: ad_writer_write_def dest!: ad_send_chunks_ok split: prod.splits)
qed (auto simp: ad_writer_flush_def dest: tx_send_ok split: if_splits)

section \<open>Properties\<close>

text \<open>C11: Only a complete stream reads as complete. Reading any of the three channel readers to its end,
  with requests of any positive sizes, gives exactly the bytes of the buffers sent, in order, when
  the producer's verdict is success; with a failure verdict, or when the verdict's sender was
  dropped, it gives an error however the buffers were cut, and never an end of file, so that the
  uploader cannot mistake a truncated stream for a whole one.\<close>

theorem only_whole_streams_end:
  assumes "list_all ((<) 0) ns" "length (concat rx) < length ns"
  shows "read_all reader_read ns [] (with_failure rx dn f) =
      Some (if dn \<noteq> [] \<and> hd dn then Ok (concat rx) else Err (UnexpectedEof f)) \<and>
    read_all relay_read ns [] (channel_open rx dn) =
      Some (if dn \<noteq> [] \<and> hd dn then Ok (concat rx) else Err (UnexpectedEof RELAY_TRUNCATED)) \<and>
    read_all ad_reader_read ns [] (ad_reader_new rx dn) =
      Some (if dn \<noteq> [] \<and> hd dn then Ok (concat rx) else Err (UnexpectedEof AD_TRUNCATED))"
  using vdi_reader.read_to_end [OF assms(1), of "with_failure rx dn f"]
    relay_reader.read_to_end [OF assms(1), of "channel_open rx dn"]
    ad_reader.read_to_end [OF assms(1), of "channel_open rx dn"] assms(2)
  by (simp add: ad_reader_new_def)

theorem only_whole_streams_end_witness:
  "read_all reader_read [2, 2, 2, 2] [] (with_failure [[1, 2], [], [3]] [True] ''f'') = Some (Ok [1, 2, 3]) \<and>
   read_all relay_read [2, 2, 2, 2] [] (channel_open [[1, 2], [], [3]] []) = Some (Err (UnexpectedEof RELAY_TRUNCATED))"
  using only_whole_streams_end [of "[2, 2, 2, 2]" "[[1, 2], [], [3]]" "[True]" "''f''"]
    only_whole_streams_end [of "[2, 2, 2, 2]" "[[1, 2], [], [3]]" "[]" "''f''"]
  by simp

text \<open>What an archiver writes is what the uploader reads. Whatever the sizes of the writes and of
  the reads, when every write and the final flush succeed and the verdict is success, reading to the
  end gives the written bytes: the pieces of 1 MiB of the file archiver and the 256 KiB chunks of
  the AD engine neither lose, repeat nor reorder a byte.\<close>

theorem archive_stream_transparent:
  assumes "list_all ((<) 0) ns" "length (concat ds) < length ns"
  shows "(write_pieces writer_write ds (writer_new room) = (Ok u, w1) \<and> writer_flush w1 = (Ok v, w2) \<longrightarrow>
      read_all reader_read ns [] (with_failure (cw_sent w2) [True] f) = Some (Ok (concat ds))) \<and>
    (write_pieces ad_writer_write ds (writer_new room) = (Ok u, w1) \<and> ad_writer_flush w1 = (Ok v, w2) \<longrightarrow>
      read_all ad_reader_read ns [] (ad_reader_new (cw_sent w2) [True]) = Some (Ok (concat ds)))"
  using archive_writer.flushed_ok [of ds "writer_new room" u w1 v w2]
    ad_writer.flushed_ok [of ds "writer_new room" u w1 v w2]
    vdi_reader.read_to_end [OF assms(1), of "with_failure (cw_sent w2) [True] f"]
    ad_reader.read_to_end [OF assms(1), of "channel_open (cw_sent w2) [True]"] assms(2)
  by (simp add: writer_new_def ad_reader_new_def)

theorem archive_stream_transparent_witness:
  "read_all reader_read [5, 5, 5, 5] [] (with_failure [[1, 2, 3]] [True] ''f'') = Some (Ok [1, 2, 3])"
proof -
  define w1 w2 where "w1 = \<lparr> cw_sent = [], cw_room = 4, cw_buf = [1, 2, 3 :: byte] \<rparr>"
    and "w2 = \<lparr> cw_sent = [[1, 2, 3 :: byte]], cw_room = 3, cw_buf = [] \<rparr>"
  have "write_pieces writer_write [[1, 2], [3]] (writer_new 4) = (Ok (), w1)"
    by (simp add: writer_write_def writer_new_def PIECE_def w1_def)
  moreover have "writer_flush w1 = (Ok (), w2)"
    by (simp add: w1_def w2_def writer_flush_def writer_send_def tx_send_def)
  ultimately show ?thesis
    using archive_stream_transparent [of "[5, 5, 5, 5]" "[[1, 2], [3]]" 4 "()" w1 "()" w2 "''f''"]
    by (simp add: w2_def del: read_all.simps)
qed

end
