(* ===== verification/SqlStatements.thy ===== *)
theory SqlStatements
  imports SqlPlan Upload
begin

text \<open>
  The T-SQL the engine sends (\<open>pbsgui-engine/src/sql/vdi.rs\<close>): the \<open>BACKUP\<close> statement, the \<open>MOVE\<close>
  clauses that relocate the files of a restored database, the metadata queries, and how the two
  halves of a backup are combined into one result. Names reach the server inside \<open>[...]\<close> and
  \<open>N'...'\<close>; \<open>unquote\<close> is the server's reading of such a token, the reference against which the
  escaping is proved.

  An \<open>anyhow\<close> error is the chain of its messages, the outermost context first.
\<close>

type_synonym anyhow = "string list"

definition with_context :: "string \<Rightarrow> anyhow + 'a \<Rightarrow> anyhow + 'a" where
  "with_context c r = (case r of Inl e \<Rightarrow> Err (c # e) | Inr x \<Rightarrow> Ok x)"

definition alt_text :: "anyhow \<Rightarrow> string" where
  "alt_text e = join_with '': '' e"

section \<open>Quoting\<close>

text \<open>\<open>str::replace\<close> of a character by two of it.\<close>

definition double_char :: "char \<Rightarrow> string \<Rightarrow> string" where
  "double_char q s = concat (map (\<lambda>c. if c = q then [q, q] else [c]) s)"

definition esc_literal :: "string \<Rightarrow> string" where
  "esc_literal s = double_char (CHR 39) s"

definition esc_name :: "string \<Rightarrow> string" where
  "esc_name s = double_char (CHR '']'') s"

text \<open>Reading a delimited token after its opening delimiter: a doubled closing delimiter stands for
  itself, a single one ends the token.\<close>

fun unquote :: "char \<Rightarrow> string \<Rightarrow> (string \<times> string) option" where
  "unquote q [] = None"
| "unquote q [c] = (if c = q then Some ([], []) else None)"
| "unquote q (c # d # s) =
     (if c = q then
        if d = q then map_option (apfst (Cons q)) (unquote q s) else Some ([], d # s)
      else map_option (apfst (Cons c)) (unquote q (d # s)))"

lemma unquote_other: "c \<noteq> q \<Longrightarrow> unquote q (c # s) = map_option (apfst (Cons c)) (unquote q s)"
  by (cases s) auto

lemma unquote_end: "rest = [] \<or> hd rest \<noteq> q \<Longrightarrow> unquote q (q # rest) = Some ([], rest)"
  by (cases rest) auto

lemma unquote_double_char:
  "rest = [] \<or> hd rest \<noteq> q \<Longrightarrow> unquote q (double_char q s @ q # rest) = Some (s, rest)"
  by (induction s) (auto simp: double_char_def unquote_other unquote_end)

section \<open>Backup statements\<close>

definition instance_of :: "string \<Rightarrow> string option" where
  "instance_of server =
     (case split_once (CHR 92) server of
        None \<Rightarrow> None
      | Some (_, inst) \<Rightarrow>
          let i = trim inst in if i \<noteq> [] \<and> \<not> eq_ignore_case i ''MSSQLSERVER'' then Some i else None)"

definition backup_statement :: "string \<Rightarrow> string \<Rightarrow> SqlBackupType \<Rightarrow> bool \<Rightarrow> anyhow + string" where
  "backup_statement database set_name backup_type copy_only =
     (let db = esc_name database in
      case backup_type of
        Full \<Rightarrow> Ok (''BACKUP DATABASE ['' @ db @ ''] TO VIRTUAL_DEVICE = '' @ [CHR 39] @ set_name @ [CHR 39]
                    @ (if copy_only then '' WITH COPY_ONLY'' else ''''))
      | Log \<Rightarrow> Ok (''BACKUP LOG ['' @ db @ ''] TO VIRTUAL_DEVICE = '' @ [CHR 39] @ set_name @ [CHR 39])
      | Differential \<Rightarrow> Err [''differential SQL backups are not supported yet''])"

section \<open>Combining results\<close>

definition combine_pbs_result :: "anyhow + unit \<Rightarrow> anyhow + BackupStats \<Rightarrow> anyhow + BackupStats" where
  "combine_pbs_result backup upload =
     (case (backup, upload) of
        (Inr _, Inr stats) \<Rightarrow> Ok stats
      | (Inr _, Inl pbs) \<Rightarrow> Err (''PBS upload failed'' # pbs)
      | (Inl sql, Inr _) \<Rightarrow> Err (''BACKUP failed'' # sql)
      | (Inl sql, Inl pbs) \<Rightarrow>
          Err [''PBS upload failed: '' @ alt_text pbs @ ''; BACKUP also failed: '' @ alt_text sql])"

definition combine_file_result :: "anyhow + unit \<Rightarrow> anyhow + u64 \<Rightarrow> anyhow + u64" where
  "combine_file_result backup device =
     (case (backup, device) of
        (Inr _, Inr bytes) \<Rightarrow> Ok bytes
      | (Inl sql, _) \<Rightarrow> Err (''BACKUP failed'' # sql)
      | (Inr _, Inl dev) \<Rightarrow> Err dev)"

section \<open>Queries\<close>

text \<open>A row of a result set gives each column's text or number, or nothing for NULL.\<close>

record sql_row =
  row_text :: "string \<Rightarrow> string option"
  row_int :: "string \<Rightarrow> int option"

type_synonym 'q sql_client = "string \<Rightarrow> 'q \<Rightarrow> (anyhow + sql_row list list) \<times> 'q"

definition unwrap_or :: "'a \<Rightarrow> 'a option \<Rightarrow> 'a" where
  "unwrap_or d x = (case x of None \<Rightarrow> d | Some v \<Rightarrow> v)"

definition first_rows :: "sql_row list list \<Rightarrow> sql_row list" where
  "first_rows results = (case results of [] \<Rightarrow> [] | rows # _ \<Rightarrow> rows)"

definition into_row :: "sql_row list list \<Rightarrow> sql_row option" where
  "into_row results = (case first_rows results of [] \<Rightarrow> None | row # _ \<Rightarrow> Some row)"

definition literal :: "string \<Rightarrow> string" where
  "literal s = ''N'' @ [CHR 39] @ esc_literal s @ [CHR 39]"

definition issue_backup ::
  "'q sql_client \<Rightarrow> string \<Rightarrow> string \<Rightarrow> SqlBackupType \<Rightarrow> bool \<Rightarrow> 'q \<Rightarrow> (anyhow + unit) \<times> 'q" where
  "issue_backup client database set_name backup_type copy_only q =
     (case backup_statement database set_name backup_type copy_only of
        Inl e \<Rightarrow> (Err e, q)
      | Inr sql \<Rightarrow> let (r, q1) = client sql q in (and_then r (\<lambda>_. Ok ()), q1))"

definition db_files_query :: "string \<Rightarrow> string" where
  "db_files_query database =
     ''SELECT name, physical_name, type_desc FROM sys.master_files WHERE database_id = DB_ID(''
       @ literal database @ '')''"

definition db_file_of_row :: "sql_row \<Rightarrow> SqlBackupFile" where
  "db_file_of_row row =
     \<lparr> bf_logical = unwrap_or '''' (row_text row ''name''),
       bf_physical = unwrap_or '''' (row_text row ''physical_name''),
       bf_is_log = unwrap_or False (map_option (\<lambda>t. eq_ignore_case t ''LOG'') (row_text row ''type_desc'')) \<rparr>"

definition query_db_files :: "'q sql_client \<Rightarrow> string \<Rightarrow> 'q \<Rightarrow> (anyhow + SqlBackupFile list) \<times> 'q" where
  "query_db_files client database q =
     (let (r, q1) = client (db_files_query database) q
      in (and_then r (\<lambda>results. Ok (map db_file_of_row (first_rows results))), q1))"

definition backup_meta_query :: "string \<Rightarrow> string" where
  "backup_meta_query database =
     ''SELECT TOP 1 CONVERT(varchar(40), first_lsn) AS first_lsn, CONVERT(varchar(40), last_lsn) AS last_lsn, ''
       @ ''CONVERT(varchar(40), database_backup_lsn) AS db_backup_lsn, [type] AS btype, DATEDIFF_BIG(SECOND, ''
       @ [CHR 39] @ ''1970-01-01'' @ [CHR 39]
       @ '', backup_finish_date) - (DATEDIFF(MINUTE, GETUTCDATE(), GETDATE()) * 60) AS finish_unix ''
       @ ''FROM msdb.dbo.backupset WHERE database_name = '' @ literal database
       @ '' ORDER BY backup_set_id DESC''"

definition query_backup_meta :: "'q sql_client \<Rightarrow> string \<Rightarrow> 'q \<Rightarrow> (anyhow + SqlBackupMeta) \<times> 'q" where
  "query_backup_meta client database q =
     (let (r, q1) = client (backup_meta_query database) q in
      case r of
        Inl e \<Rightarrow> (Err e, q1)
      | Inr results \<Rightarrow>
          (case into_row results of
             None \<Rightarrow> (Err [''no msdb.dbo.backupset row for the database''], q1)
           | Some row \<Rightarrow>
               let (fs, q2) = query_db_files client database q1
               in (Ok \<lparr> bm_kind = (if eq_ignore_case (unwrap_or ''D'' (row_text row ''btype'')) ''L''
                                    then ''log'' else ''full''),
                        bm_backup_time = of_int (unwrap_or 0 (row_int row ''finish_unix'')),
                        bm_first_lsn = unwrap_or '''' (row_text row ''first_lsn''),
                        bm_last_lsn = unwrap_or '''' (row_text row ''last_lsn''),
                        bm_database_backup_lsn = unwrap_or '''' (row_text row ''db_backup_lsn''),
                        bm_files = (case fs of Inl _ \<Rightarrow> [] | Inr x \<Rightarrow> x) \<rparr>, q2)))"

section \<open>Relocating files\<close>

definition is_sep :: "char \<Rightarrow> bool" where
  "is_sep c = (c = CHR 92 \<or> c = CHR ''/'')"

definition base_of :: "string \<Rightarrow> string" where
  "base_of physical = rev (takeWhile (\<lambda>c. \<not> is_sep c) (rev physical))"

definition parent_dir :: "string \<Rightarrow> string" where
  "parent_dir physical =
     (case dropWhile (\<lambda>c. \<not> is_sep c) (rev physical) of [] \<Rightarrow> '''' | _ # r \<Rightarrow> rev r)"

definition ensure_trailing_sep :: "string \<Rightarrow> string" where
  "ensure_trailing_sep dir = (if dir = [] \<or> is_sep (List.last dir) then dir else dir @ [CHR 92])"

definition sanitize_file :: "string \<Rightarrow> string" where
  "sanitize_file value =
     map (\<lambda>c. if is_alnum c \<or> c = CHR ''.'' \<or> c = CHR ''_'' \<or> c = CHR ''-'' then c else CHR ''_'')
       (filter (\<lambda>c. \<not> utf8_continuation c) value)"

definition new_path :: "string \<Rightarrow> string \<Rightarrow> string \<Rightarrow> SqlBackupFile \<Rightarrow> string" where
  "new_path data_dir log_dir target f =
     (let chosen = (if bf_is_log f then log_dir else data_dir);
          dir = (if chosen = [] then parent_dir (bf_physical f) else chosen)
      in ensure_trailing_sep dir @ sanitize_file target @ ''_'' @ base_of (bf_physical f))"

definition move_clause :: "SqlBackupFile list \<Rightarrow> string \<Rightarrow> string \<Rightarrow> string \<Rightarrow> string" where
  "move_clause files data_dir log_dir target =
     concat (map (\<lambda>f. '', MOVE '' @ literal (bf_logical f) @ '' TO ''
                        @ literal (new_path data_dir log_dir target f)) files)"

definition default_dirs_query :: string where
  "default_dirs_query =
     ''SELECT CAST(SERVERPROPERTY('' @ [CHR 39] @ ''InstanceDefaultDataPath'' @ [CHR 39]
       @ '') AS nvarchar(260)), CAST(SERVERPROPERTY('' @ [CHR 39] @ ''InstanceDefaultLogPath'' @ [CHR 39]
       @ '') AS nvarchar(260))''"

definition default_dirs :: "'q sql_client \<Rightarrow> 'q \<Rightarrow> (anyhow + string \<times> string) \<times> 'q" where
  "default_dirs client q =
     (let (r, q1) = client default_dirs_query q in
      (and_then r (\<lambda>results.
         case into_row results of
           None \<Rightarrow> Err [''default-paths query returned no row'']
         | Some row \<Rightarrow> Ok (unwrap_or '''' (row_text row ''0''), unwrap_or '''' (row_text row ''1''))), q1))"

definition moves_from_files ::
  "'q sql_client \<Rightarrow> SqlBackupFile list \<Rightarrow> string \<Rightarrow> 'q \<Rightarrow> (anyhow + string) \<times> 'q" where
  "moves_from_files client files target q =
     (let (r, q1) = default_dirs client q
      in (and_then r (\<lambda>(data_dir, log_dir). Ok (move_clause files data_dir log_dir target)), q1))"

definition backup_file_of_row :: "sql_row \<Rightarrow> SqlBackupFile" where
  "backup_file_of_row row =
     \<lparr> bf_logical = unwrap_or '''' (row_text row ''LogicalName''),
       bf_physical = unwrap_or '''' (row_text row ''PhysicalName''),
       bf_is_log = eq_ignore_case (unwrap_or ''D'' (row_text row ''Type'')) ''L'' \<rparr>"

section \<open>Properties of the texts\<close>

text \<open>The server's reading of the \<open>MOVE\<close> clauses: a list of pairs of literals.\<close>

definition strip_text :: "string \<Rightarrow> string \<Rightarrow> string option" where
  "strip_text p s = (if take (length p) s = p then Some (drop (length p) s) else None)"

definition read_literal :: "string \<Rightarrow> (string \<times> string) option" where
  "read_literal s = Option.bind (strip_text (''N'' @ [CHR 39]) s) (unquote (CHR 39))"

fun read_moves :: "nat \<Rightarrow> string \<Rightarrow> (string \<times> string) list option" where
  "read_moves 0 s = (if s = [] then Some [] else None)"
| "read_moves (Suc n) s =
     Option.bind (strip_text '', MOVE '' s) (\<lambda>s1.
     Option.bind (read_literal s1) (\<lambda>(logical, s2).
     Option.bind (strip_text '' TO '' s2) (\<lambda>s3.
     Option.bind (read_literal s3) (\<lambda>(path, s4).
     map_option (Cons (logical, path)) (read_moves n s4)))))"

lemma strip_text_append [simp]: "strip_text p (p @ s) = Some s"
  by (simp add: strip_text_def)

lemma read_literal_literal:
  "rest = [] \<or> hd rest \<noteq> CHR 39 \<Longrightarrow> read_literal (literal s @ rest) = Some (s, rest)"
  using unquote_double_char [of rest "CHR 39" s]
  by (simp add: read_literal_def literal_def esc_literal_def strip_text_def)

lemma read_moves_clause:
  "read_moves (length files) (move_clause files d l target) =
   Some (map (\<lambda>f. (bf_logical f, new_path d l target f)) files)"
proof (induction files)
  case (Cons f fs)
  define rest where "rest = move_clause fs d l target"
  have rest: "rest = [] \<or> hd rest \<noteq> CHR 39"
    by (cases fs) (simp_all add: rest_def move_clause_def)
  have split: "move_clause (f # fs) d l target =
      '', MOVE '' @ literal (bf_logical f) @ '' TO '' @ literal (new_path d l target f) @ rest"
    by (simp add: move_clause_def rest_def)
  show ?case
    using Cons.IH read_literal_literal [OF rest, of "new_path d l target f"]
      read_literal_literal [of "'' TO '' @ literal (new_path d l target f) @ rest" "bf_logical f"]
    unfolding split read_moves.simps list.size strip_text_append bind.bind_lunit
    by (simp add: rest_def del: append_Cons append_Nil append_assoc)
qed (simp add: move_clause_def)

text \<open>What follows the database name in a backup statement.\<close>

definition device_tail :: "string \<Rightarrow> bool \<Rightarrow> string" where
  "device_tail set_name copy_only =
     '' TO VIRTUAL_DEVICE = '' @ [CHR 39] @ set_name @ [CHR 39] @ (if copy_only then '' WITH COPY_ONLY'' else '''')"


lemma sanitize_file_no_sep: "c \<in> set (sanitize_file s) \<Longrightarrow> \<not> is_sep c"
  by (auto simp: sanitize_file_def is_sep_def is_alnum_def is_alpha_def is_digit_def)

lemma base_of_no_sep: "c \<in> set (base_of p) \<Longrightarrow> \<not> is_sep c"
  by (auto simp: base_of_def dest: set_takeWhileD)

lemma base_of_append: "\<forall>c \<in> set b. \<not> is_sep c \<Longrightarrow> dir = [] \<or> is_sep (List.last dir) \<Longrightarrow> base_of (dir @ b) = b"
  by (cases dir rule: rev_cases) (auto simp: base_of_def takeWhile_append takeWhile_eq_all_conv [THEN iffD2])

lemma base_of_new_path:
  "base_of (new_path d l target f) = sanitize_file target @ ''_'' @ base_of (bf_physical f)"
proof -
  obtain dir where n: "new_path d l target f =
      ensure_trailing_sep dir @ (sanitize_file target @ ''_'' @ base_of (bf_physical f))"
    by (simp add: new_path_def Let_def)
  have "ensure_trailing_sep dir = [] \<or> is_sep (List.last (ensure_trailing_sep dir))"
    by (simp add: ensure_trailing_sep_def is_sep_def)
  moreover have "\<forall>c \<in> set (sanitize_file target @ ''_'' @ base_of (bf_physical f)). \<not> is_sep c"
    using sanitize_file_no_sep base_of_no_sep by (auto simp: is_sep_def)
  ultimately show ?thesis
    unfolding n by (simp only: base_of_append)
qed

text \<open>Where relocated files land. A file of a database restored under a new name never lands on the
  path it had when it was backed up; its name is the sanitised target, an underscore and its old
  name. But the old directory is dropped: two data files (or two log files) that lived in different
  directories under the same name get the same new path, and exactly those do, so such a database
  cannot be restored under a new name.\<close>

theorem relocation_collides_iff:
  assumes "(if bf_is_log f then log_dir else data_dir) \<noteq> []" "bf_is_log g = bf_is_log f"
  shows "new_path data_dir log_dir target f \<noteq> bf_physical f \<and>
    base_of (new_path data_dir log_dir target f) = sanitize_file target @ ''_'' @ base_of (bf_physical f) \<and>
    (new_path data_dir log_dir target f = new_path data_dir log_dir target g \<longleftrightarrow>
     base_of (bf_physical f) = base_of (bf_physical g))"
proof -
  have "base_of (new_path data_dir log_dir target f) \<noteq> base_of (bf_physical f)"
    unfolding base_of_new_path by (simp add: append_self_conv2)
  then have "new_path data_dir log_dir target f \<noteq> bf_physical f"
    by metis
  then show ?thesis
    using assms by (simp add: base_of_new_path) (simp add: new_path_def)
qed

theorem relocation_collides_iff_witness:
  "new_path ''S:/data'' ''S:/log'' ''copy'' \<lparr> bf_logical = ''a'', bf_physical = ''C:/one/f.ndf'', bf_is_log = False \<rparr> =
   new_path ''S:/data'' ''S:/log'' ''copy'' \<lparr> bf_logical = ''b'', bf_physical = ''D:/two/f.ndf'', bf_is_log = False \<rparr>"
  using relocation_collides_iff [of "\<lparr> bf_logical = ''a'', bf_physical = ''C:/one/f.ndf'', bf_is_log = False \<rparr>"
      "''S:/log''" "''S:/data''" "\<lparr> bf_logical = ''b'', bf_physical = ''D:/two/f.ndf'', bf_is_log = False \<rparr>" "''copy''"]
  by (simp add: base_of_def is_sep_def)

end
