(* ===== verification/VdiDevice.thy ===== *)
theory VdiDevice
  imports Streams SqlStatements
begin

text \<open>
  The virtual device loops (\<open>pbsgui-engine/src/sql/vdi.rs\<close>): draining a backup from SQL Server into a
  sink, and filling a restore from a source.

  SQL Server is a script of turns: what each \<open>GetCommand\<close> returns, whether the run is cancelled by
  then, and whether completing the command fails. A loop whose script runs out is still waiting:
  its result is \<open>None\<close>. The locale \<open>restore_source\<close> is the contract of the two restore sources,
  under which \<open>fill_device\<close> is verified once.
\<close>

section \<open>Commands\<close>

datatype hresult = VdOk | VD_E_TIMEOUT | VD_E_CLOSE | VdFail string

definition VDC_READ :: u32 where "VDC_READ = 1"
definition VDC_WRITE :: u32 where "VDC_WRITE = 2"
definition VDC_CLEAR_ERROR :: u32 where "VDC_CLEAR_ERROR = 3"
definition VDC_FLUSH :: u32 where "VDC_FLUSH = 12"

definition ERROR_SUCCESS :: u32 where "ERROR_SUCCESS = 0"
definition ERROR_HANDLE_EOF :: u32 where "ERROR_HANDLE_EOF = 38"
definition ERROR_NOT_SUPPORTED :: u32 where "ERROR_NOT_SUPPORTED = 50"
definition ERROR_WRITE_FAULT :: u32 where "ERROR_WRITE_FAULT = 29"

lemmas vdc_codes = VDC_READ_def VDC_WRITE_def VDC_CLEAR_ERROR_def VDC_FLUSH_def
  ERROR_SUCCESS_def ERROR_HANDLE_EOF_def ERROR_NOT_SUPPORTED_def ERROR_WRITE_FAULT_def

record VDCCommand =
  vc_code :: u32
  vc_size :: u32
  vc_buffer :: bytes

record turn =
  tn_cancelled :: bool
  tn_result :: hresult
  tn_cmd :: VDCCommand
  tn_complete :: "string option"

text \<open>A completed command: its code, and the number of bytes reported as transferred.\<close>

type_synonym completion = "u32 \<times> u32"

definition cmd_data :: "VDCCommand \<Rightarrow> bytes" where
  "cmd_data cmd = take (unat (vc_size cmd)) (vc_buffer cmd)"

section \<open>Sinks and draining\<close>

datatype SinkKind = SinkFile | SinkChannel | SinkRelay

record Sink =
  sk_kind :: SinkKind
  sk_written :: "bytes list"
  sk_room :: nat

definition sink_error :: "SinkKind \<Rightarrow> IoError" where
  "sink_error k =
     (case k of
        SinkFile \<Rightarrow> OtherIo ''write failed''
      | SinkChannel \<Rightarrow> BrokenPipe ''PBS upload stopped''
      | SinkRelay \<Rightarrow> BrokenPipe ''the relay proxy stopped consuming'')"

definition sink_write :: "bytes \<Rightarrow> Sink \<Rightarrow> (IoError + unit) \<times> Sink" where
  "sink_write data s =
     (if sk_room s = 0 then (Err (sink_error (sk_kind s)), s)
      else (Ok (), s \<lparr> sk_written := sk_written s @ [data], sk_room := sk_room s - 1 \<rparr>))"

record drain =
  dr_total :: u64
  dr_sink :: Sink
  dr_completed :: "completion list"
  dr_aborted :: bool

text \<open>One command: the completion code, the transferred count, and the new state.\<close>

definition drain_command :: "VDCCommand \<Rightarrow> drain \<Rightarrow> u32 \<times> u32 \<times> drain" where
  "drain_command cmd d =
     (if vc_code cmd = VDC_WRITE then
        (case sink_write (cmd_data cmd) (dr_sink d) of
           (Inr _, s) \<Rightarrow>
             (ERROR_SUCCESS, vc_size cmd, d \<lparr> dr_sink := s, dr_total := dr_total d + ucast (vc_size cmd) \<rparr>)
         | (Inl _, s) \<Rightarrow> (ERROR_WRITE_FAULT, 0, d \<lparr> dr_sink := s \<rparr>))
      else if vc_code cmd = VDC_FLUSH then (ERROR_SUCCESS, 0, d)
      else if vc_code cmd = VDC_CLEAR_ERROR then (ERROR_SUCCESS, 0, d)
      else (ERROR_NOT_SUPPORTED, 0, d))"

fun drain_loop :: "turn list \<Rightarrow> drain \<Rightarrow> (anyhow + u64) option \<times> drain" where
  "drain_loop [] d = (None, d)"
| "drain_loop (t # ts) d =
     (if tn_cancelled t then (Some (Err [''backup cancelled'']), d \<lparr> dr_aborted := True \<rparr>)
      else
        case tn_result t of
          VD_E_TIMEOUT \<Rightarrow> drain_loop ts d
        | VD_E_CLOSE \<Rightarrow> (Some (Ok (dr_total d)), d)
        | VdFail e \<Rightarrow> (Some (Err [''VDI GetCommand failed'', e]), d)
        | VdOk \<Rightarrow>
            let (code, n, d1) = drain_command (tn_cmd t) d in
            (case tn_complete t of
               Some e \<Rightarrow> (Some (Err [''VDI CompleteCommand failed'', e]), d1)
             | None \<Rightarrow>
                 let d2 = d1 \<lparr> dr_completed := dr_completed d1 @ [(code, n)] \<rparr>
                 in if code = ERROR_WRITE_FAULT then
                      (Some (Err [''failed writing backup data to the sink'']), d2)
                    else drain_loop ts d2))"

definition ATTACH_TIMEOUT :: string where
  "ATTACH_TIMEOUT =
     ''timed out waiting for SQL Server to attach to the virtual device (did the BACKUP/RESTORE start, ''
       @ ''and is the connection sysadmin?)''"

text \<open>What \<open>GetConfiguration\<close> and \<open>OpenDevice\<close> return.\<close>

definition open_device :: "hresult \<Rightarrow> hresult \<Rightarrow> anyhow + unit" where
  "open_device config opened =
     (if config = VD_E_TIMEOUT then Err [ATTACH_TIMEOUT]
      else if config \<noteq> VdOk then Err [''VDI GetConfiguration failed'']
      else if opened \<noteq> VdOk then Err [''VDI OpenDevice failed'']
      else Ok ())"

definition drain_device :: "hresult \<Rightarrow> hresult \<Rightarrow> turn list \<Rightarrow> Sink \<Rightarrow> (anyhow + u64) option \<times> drain" where
  "drain_device config opened turns sink =
     (let d = \<lparr> dr_total = 0, dr_sink = sink, dr_completed = [], dr_aborted = False \<rparr>
      in case open_device config opened of
           Inl e \<Rightarrow> (Some (Err e), d)
         | Inr _ \<Rightarrow> drain_loop turns d)"

section \<open>Restore sources\<close>

record ImageSource =
  im_data :: bytes
  im_pos :: nat

definition image_read_into :: "nat \<Rightarrow> ImageSource \<Rightarrow> bytes \<times> ImageSource" where
  "image_read_into len s =
     (let n = min (length (im_data s) - im_pos s) len
      in (slice (im_pos s) (im_pos s + n) (im_data s), s \<lparr> im_pos := im_pos s + n \<rparr>))"

record StreamReader =
  sr_rx :: "bytes list"
  sr_buf :: bytes
  sr_pos :: nat

definition stream_new :: "bytes list \<Rightarrow> StreamReader" where
  "stream_new rx = \<lparr> sr_rx = rx, sr_buf = [], sr_pos = 0 \<rparr>"

function stream_fill :: "nat \<Rightarrow> bytes \<Rightarrow> StreamReader \<Rightarrow> bytes \<times> StreamReader" where
  "stream_fill need acc s =
     (if 0 < need then
        if length (sr_buf s) \<le> sr_pos s then
          (case sr_rx s of
             [] \<Rightarrow> (acc, s)
           | next # rest \<Rightarrow> stream_fill need acc (s \<lparr> sr_rx := rest, sr_buf := next, sr_pos := 0 \<rparr>))
        else
          let n = min (length (sr_buf s) - sr_pos s) need
          in stream_fill (need - n) (acc @ slice (sr_pos s) (sr_pos s + n) (sr_buf s))
               (s \<lparr> sr_pos := sr_pos s + n \<rparr>)
      else (acc, s))"
  by pat_completeness auto
termination
  by (relation "inv_image (less_than <*lex*> less_than) (\<lambda>(need, acc, s). (need, length (sr_rx s)))") auto

definition stream_read_into :: "nat \<Rightarrow> StreamReader \<Rightarrow> bytes \<times> StreamReader" where
  "stream_read_into len s = stream_fill len [] s"

section \<open>Filling\<close>

record 's fill =
  fi_total :: u64
  fi_source :: 's
  fi_given :: bytes
  fi_completed :: "completion list"

definition fill_command :: "(nat \<Rightarrow> 's \<Rightarrow> bytes \<times> 's) \<Rightarrow> VDCCommand \<Rightarrow> 's fill \<Rightarrow> u32 \<times> u32 \<times> 's fill" where
  "fill_command read_into cmd f =
     (if vc_code cmd = VDC_READ then
        let (out, s) = read_into (unat (vc_size cmd)) (fi_source f); n = length out
        in (if of_nat n = vc_size cmd then ERROR_SUCCESS else ERROR_HANDLE_EOF, of_nat n,
            f \<lparr> fi_source := s, fi_total := fi_total f + of_nat n, fi_given := fi_given f @ out \<rparr>)
      else if vc_code cmd = VDC_FLUSH \<or> vc_code cmd = VDC_CLEAR_ERROR then (ERROR_SUCCESS, 0, f)
      else (ERROR_NOT_SUPPORTED, 0, f))"

fun fill_loop :: "(nat \<Rightarrow> 's \<Rightarrow> bytes \<times> 's) \<Rightarrow> turn list \<Rightarrow> 's fill \<Rightarrow> (anyhow + u64) option \<times> 's fill" where
  "fill_loop read_into [] f = (None, f)"
| "fill_loop read_into (t # ts) f =
     (case tn_result t of
        VD_E_CLOSE \<Rightarrow> (Some (Ok (fi_total f)), f)
      | VdOk \<Rightarrow>
          let (code, n, f1) = fill_command read_into (tn_cmd t) f in
          (case tn_complete t of
             Some e \<Rightarrow> (Some (Err [''VDI CompleteCommand failed'', e]), f1)
           | None \<Rightarrow> fill_loop read_into ts (f1 \<lparr> fi_completed := fi_completed f1 @ [(code, n)] \<rparr>))
      | VD_E_TIMEOUT \<Rightarrow> (Some (Err [''VDI GetCommand failed'', ''timeout'']), f)
      | VdFail e \<Rightarrow> (Some (Err [''VDI GetCommand failed'', e]), f))"

definition fill_device ::
  "(nat \<Rightarrow> 's \<Rightarrow> bytes \<times> 's) \<Rightarrow> hresult \<Rightarrow> hresult \<Rightarrow> turn list \<Rightarrow> 's \<Rightarrow> (anyhow + u64) option \<times> 's fill" where
  "fill_device read_into config opened turns s =
     (let f = \<lparr> fi_total = 0, fi_source = s, fi_given = [], fi_completed = [] \<rparr>
      in case open_device config opened of
           Inl e \<Rightarrow> (Some (Err e), f)
         | Inr _ \<Rightarrow> fill_loop read_into turns f)"

section \<open>The device session\<close>

text \<open>The lifecycle around a loop: what is signalled as ready (nothing when the sender is dropped) and
  the result. The three arguments are the outcomes of \<open>CoInitializeEx\<close>, \<open>CoCreateInstance\<close> and
  \<open>CreateEx\<close>; the body runs only on a created set.\<close>

definition run_device_session_inner ::
  "string + unit \<Rightarrow> string + unit \<Rightarrow> (anyhow + u64) option \<Rightarrow> (anyhow + unit) option \<times> (anyhow + u64) option" where
  "run_device_session_inner co_create create_ex body =
     (case co_create of
        Inl e \<Rightarrow> (None, Some (Err [''CoCreateInstance(SQLVDI) failed; is SQLVDI.dll registered?'', e]))
      | Inr _ \<Rightarrow>
          (case create_ex of
             Inl e \<Rightarrow> (Some (Err [''VDI CreateEx failed: '' @ e]), Some (Err [''VDI CreateEx failed: '' @ e]))
           | Inr _ \<Rightarrow> (Some (Ok ()), body)))"

definition run_device_session ::
  "string + unit \<Rightarrow> string + unit \<Rightarrow> string + unit \<Rightarrow> (anyhow + u64) option
     \<Rightarrow> (anyhow + unit) option \<times> (anyhow + u64) option" where
  "run_device_session co_init co_create create_ex body =
     (case co_init of
        Inl e \<Rightarrow> (None, Some (Err [''CoInitializeEx failed'', e]))
      | Inr _ \<Rightarrow> run_device_session_inner co_create create_ex body)"

text \<open>The caller's wait for readiness.\<close>

definition await_ready :: "(anyhow + unit) option \<Rightarrow> anyhow + unit" where
  "await_ready r =
     (case r of None \<Rightarrow> Err [''VDI thread exited before signaling readiness''] | Some x \<Rightarrow> x)"

section \<open>What draining delivers\<close>

definition turn_data :: "turn \<Rightarrow> bytes" where
  "turn_data t = (if tn_result t = VdOk \<and> vc_code (tn_cmd t) = VDC_WRITE then cmd_data (tn_cmd t) else [])"

definition wf_turn :: "turn \<Rightarrow> bool" where
  "wf_turn t = (unat (vc_size (tn_cmd t)) \<le> length (vc_buffer (tn_cmd t)))"

abbreviation sunk :: "drain \<Rightarrow> bytes" where
  "sunk d \<equiv> concat (sk_written (dr_sink d))"

abbreviation acknowledged :: "completion list \<Rightarrow> nat" where
  "acknowledged cs \<equiv> (\<Sum>(code, n) \<leftarrow> cs. unat n)"

lemma drain_command_effect:
  assumes "drain_command (tn_cmd t) d = (code, n, d1)" "wf_turn t" "tn_result t = VdOk"
  shows "dr_completed d1 = dr_completed d" "dr_aborted d1 = dr_aborted d"
    and "code \<noteq> ERROR_WRITE_FAULT \<Longrightarrow> sunk d1 = sunk d @ turn_data t \<and> unat n = length (turn_data t) \<and>
      dr_total d1 = dr_total d + of_nat (length (turn_data t))"
    and "code = ERROR_WRITE_FAULT \<Longrightarrow> sunk d1 = sunk d \<and> n = 0"
  using assms
  by (auto simp: drain_command_def turn_data_def wf_turn_def sink_write_def cmd_data_def vdc_codes min_absorb2
      split: if_splits)

lemma drain_loop_ok:
  assumes "drain_loop ts d = (Some (Ok sz), d')" "list_all wf_turn ts"
  shows "\<exists>pre t post. ts = pre @ t # post \<and> tn_result t = VD_E_CLOSE \<and> list_all (\<lambda>t. \<not> tn_cancelled t) pre \<and>
    sunk d' = sunk d @ concat (map turn_data pre) \<and> sz = dr_total d + of_nat (length (concat (map turn_data pre))) \<and>
    dr_aborted d' = dr_aborted d \<and>
    acknowledged (dr_completed d') = acknowledged (dr_completed d) + length (concat (map turn_data pre))"
  using assms
proof (induction ts arbitrary: d)
  case (Cons t ts)
  have live: "\<not> tn_cancelled t" and wf: "wf_turn t" "list_all wf_turn ts"
    using Cons.prems by (auto split: if_splits)
  have skip: ?case if h: "drain_loop ts d1 = (Some (Ok sz), d')" "sunk d1 = sunk d @ turn_data t"
    "dr_total d1 = dr_total d + of_nat (length (turn_data t))" "dr_aborted d1 = dr_aborted d"
    "acknowledged (dr_completed d1) = acknowledged (dr_completed d) + length (turn_data t)" for d1
  proof -
    obtain pre c post where "ts = pre @ c # post" "tn_result c = VD_E_CLOSE" "list_all (\<lambda>t. \<not> tn_cancelled t) pre"
      "sunk d' = sunk d1 @ concat (map turn_data pre)"
      "sz = dr_total d1 + of_nat (length (concat (map turn_data pre)))" "dr_aborted d' = dr_aborted d1"
      "acknowledged (dr_completed d') = acknowledged (dr_completed d1) + length (concat (map turn_data pre))"
      using Cons.IH [OF h(1) wf(2)] by blast
    then show ?case
      using h live by (intro exI [of _ "t # pre"] exI [of _ c] exI [of _ post]) simp
  qed
  show ?case
  proof (cases "tn_result t")
    case VdOk
    obtain code n d1 where c: "drain_command (tn_cmd t) d = (code, n, d1)"
      by (metis prod_cases3)
    note e = drain_command_effect [OF c wf(1) VdOk]
    have "tn_complete t = None" "code \<noteq> ERROR_WRITE_FAULT"
      "drain_loop ts (d1 \<lparr> dr_completed := dr_completed d1 @ [(code, n)] \<rparr>) = (Some (Ok sz), d')"
      using Cons.prems(1) live VdOk c by (auto simp: Let_def split: option.splits if_splits)
    then show ?thesis
      using e by (intro skip [of "d1 \<lparr> dr_completed := dr_completed d1 @ [(code, n)] \<rparr>"]) simp_all
  next
    case VD_E_TIMEOUT
    then show ?thesis
      using Cons.prems(1) live by (intro skip [of d]) (simp_all add: turn_data_def)
  next
    case VD_E_CLOSE
    then show ?thesis
      using Cons.prems(1) live by (intro exI [of _ "[]"] exI [of _ t] exI [of _ ts]) auto
  next
    case (VdFail e)
    then show ?thesis
      using Cons.prems(1) live by simp
  qed
qed simp

text \<open>Whatever the outcome, SQL Server is not told of more bytes than the sink took.\<close>

lemma drain_loop_acknowledged:
  "drain_loop ts d = (r, d') \<Longrightarrow> list_all wf_turn ts \<Longrightarrow> acknowledged (dr_completed d) \<le> length (sunk d) \<Longrightarrow>
   acknowledged (dr_completed d') \<le> length (sunk d')"
proof (induction ts arbitrary: d)
  case (Cons t ts)
  show ?case
  proof (cases "tn_result t = VdOk \<and> \<not> tn_cancelled t")
    case True
    obtain code n d1 where c: "drain_command (tn_cmd t) d = (code, n, d1)"
      by (metis prod_cases3)
    define d2 where "d2 = d1 \<lparr> dr_completed := dr_completed d1 @ [(code, n)] \<rparr>"
    have "wf_turn t"
      using Cons.prems(2) by simp
    note e = drain_command_effect [OF c this]
    have "acknowledged (dr_completed d1) \<le> length (sunk d1)" "acknowledged (dr_completed d2) \<le> length (sunk d2)"
      using e True Cons.prems(3) by (cases "code = ERROR_WRITE_FAULT"; simp add: d2_def)+
    then show ?thesis
      using Cons.IH [of d2] Cons.prems(1,2) True c by (auto simp: d2_def Let_def split: option.splits if_splits)
  next
    case False
    then show ?thesis
      using Cons.IH [of d] Cons.prems by (auto split: hresult.splits if_splits)
  qed
qed auto

section \<open>What filling delivers\<close>

definition requested :: "turn list \<Rightarrow> nat" where
  "requested ts = (\<Sum>t \<leftarrow> ts. if vc_code (tn_cmd t) = VDC_READ then unat (vc_size (tn_cmd t)) else 0)"

text \<open>The device gave SQL Server what it asked for of the content, up to the close, and reported the end
  only when all of it was given.\<close>

definition served_exactly :: "bytes \<Rightarrow> turn list \<Rightarrow> u64 \<Rightarrow> 's fill \<Rightarrow> bool" where
  "served_exactly content turns sz f \<longleftrightarrow>
     (\<exists>pre t post. turns = pre @ t # post \<and> tn_result t = VD_E_CLOSE \<and> fi_given f = take (requested pre) content) \<and>
     sz = of_nat (length (fi_given f)) \<and>
     (ERROR_HANDLE_EOF \<in> fst ` set (fi_completed f) \<longrightarrow> fi_given f = content)"

locale restore_source =
  fixes read_into :: "nat \<Rightarrow> 's \<Rightarrow> bytes \<times> 's" and content :: "'s \<Rightarrow> bytes"
  assumes read_law: "read_into n s = (out, s') \<Longrightarrow> out = take n (content s) \<and> content s' = drop n (content s)"
begin

lemma fill_command_effect:
  assumes "fill_command read_into (tn_cmd t) f = (code, n, f1)"
  shows "fi_given f1 = fi_given f @ take (requested [t]) (content (fi_source f)) \<and>
    content (fi_source f1) = drop (requested [t]) (content (fi_source f)) \<and>
    fi_total f1 = fi_total f + of_nat (length (take (requested [t]) (content (fi_source f)))) \<and>
    fi_completed f1 = fi_completed f \<and> (code = ERROR_HANDLE_EOF \<longrightarrow> content (fi_source f1) = [])"
proof (cases "vc_code (tn_cmd t) = VDC_READ")
  case True
  obtain out s where r: "read_into (unat (vc_size (tn_cmd t))) (fi_source f) = (out, s)"
    by fastforce
  note law = read_law [OF r]
  have f1: "f1 = f \<lparr> fi_source := s, fi_total := fi_total f + of_nat (length out), fi_given := fi_given f @ out \<rparr>"
    and code: "code = (if of_nat (length out) = vc_size (tn_cmd t) then ERROR_SUCCESS else ERROR_HANDLE_EOF)"
    using assms r True by (auto simp: fill_command_def Let_def)
  have "length (content (fi_source f)) \<le> unat (vc_size (tn_cmd t))" if "code = ERROR_HANDLE_EOF"
  proof -
    have "of_nat (length out) \<noteq> vc_size (tn_cmd t)"
      using that by (auto simp: code vdc_codes split: if_splits)
    then have "length out \<noteq> unat (vc_size (tn_cmd t))"
      by auto
    then show ?thesis
      by (simp add: law [THEN conjunct1] min_def split: if_splits)
  qed
  then show ?thesis
    using True law by (simp add: f1 requested_def)
next
  case False
  then have "f1 = f" "code \<noteq> ERROR_HANDLE_EOF"
    using assms by (auto simp: fill_command_def vdc_codes split: if_splits)
  then show ?thesis
    using False by (simp add: requested_def)
qed

lemma fill_loop_ok:
  assumes "fill_loop read_into ts f = (Some (Ok sz), f')" "fi_total f = of_nat (length (fi_given f))"
    and "ERROR_HANDLE_EOF \<in> fst ` set (fi_completed f) \<Longrightarrow> content (fi_source f) = []"
  shows "\<exists>pre t post. ts = pre @ t # post \<and> tn_result t = VD_E_CLOSE \<and>
    fi_given f' = fi_given f @ take (requested pre) (content (fi_source f)) \<and>
    sz = of_nat (length (fi_given f')) \<and>
    content (fi_source f') = drop (requested pre) (content (fi_source f)) \<and>
    (ERROR_HANDLE_EOF \<in> fst ` set (fi_completed f') \<longrightarrow> content (fi_source f') = [])"
  using assms
proof (induction ts arbitrary: f)
  case (Cons t ts)
  show ?case
  proof (cases "tn_result t")
    case VdOk
    obtain code n f1 where c: "fill_command read_into (tn_cmd t) f = (code, n, f1)"
      by (metis prod_cases3)
    note e = fill_command_effect [OF c]
    define f2 where "f2 = f1 \<lparr> fi_completed := fi_completed f1 @ [(code, n)] \<rparr>"
    have "fill_loop read_into ts f2 = (Some (Ok sz), f')"
      using Cons.prems(1) VdOk c by (auto simp: f2_def split: option.splits)
    moreover have "ERROR_HANDLE_EOF \<in> fst ` set (fi_completed f2) \<Longrightarrow> content (fi_source f2) = []"
      using e Cons.prems(3) by (auto simp: f2_def)
    moreover have "fi_total f2 = of_nat (length (fi_given f2))"
      using e Cons.prems(2) by (simp add: f2_def)
    ultimately obtain pre c post where ih: "ts = pre @ c # post" "tn_result c = VD_E_CLOSE"
      "fi_given f' = fi_given f2 @ take (requested pre) (content (fi_source f2))"
      "sz = of_nat (length (fi_given f'))"
      "content (fi_source f') = drop (requested pre) (content (fi_source f2))"
      "ERROR_HANDLE_EOF \<in> fst ` set (fi_completed f') \<longrightarrow> content (fi_source f') = []"
      using Cons.IH [of f2] by blast
    have req: "requested (t # pre) = requested [t] + requested pre"
      by (simp add: requested_def)
    have "fi_given f' = fi_given f @ take (requested (t # pre)) (content (fi_source f))"
      using ih(3) e unfolding req take_add f2_def by simp
    moreover have "content (fi_source f') = drop (requested (t # pre)) (content (fi_source f))"
      using ih(5) e unfolding req f2_def by (simp add: add.commute)
    moreover have "t # ts = (t # pre) @ c # post"
      by (simp add: ih(1))
    ultimately show ?thesis
      using ih(2,4,6) by blast
  next
    case VD_E_CLOSE
    then have "fi_total f = sz" "f = f'"
      using Cons.prems(1) by auto
    then have "t # ts = [] @ t # ts \<and> fi_given f' = fi_given f @ take (requested []) (content (fi_source f)) \<and>
      sz = of_nat (length (fi_given f')) \<and> content (fi_source f') = drop (requested []) (content (fi_source f))"
      using Cons.prems(2) by (simp add: requested_def)
    then show ?thesis
      using VD_E_CLOSE Cons.prems(3) \<open>f = f'\<close> by blast
  qed (use Cons.prems(1) in simp_all)
qed simp

lemma fill_device_served:
  assumes "fill_device read_into VdOk VdOk turns s = (Some (Ok sz), f)"
  shows "served_exactly (content s) turns sz f"
proof -
  define f0 where "f0 = \<lparr> fi_total = 0, fi_source = s, fi_given = [], fi_completed = [] \<rparr>"
  have "fill_loop read_into turns f0 = (Some (Ok sz), f)"
    using assms by (simp add: fill_device_def open_device_def f0_def)
  from fill_loop_ok [OF this] obtain pre t post where
    p: "turns = pre @ t # post" "tn_result t = VD_E_CLOSE" "fi_given f = take (requested pre) (content s)"
      "sz = of_nat (length (fi_given f))" "content (fi_source f) = drop (requested pre) (content s)"
      "ERROR_HANDLE_EOF \<in> fst ` set (fi_completed f) \<longrightarrow> content (fi_source f) = []"
    by (auto simp: f0_def)
  have "fi_given f @ content (fi_source f) = content s"
    by (simp add: p(3,5))
  then have "ERROR_HANDLE_EOF \<in> fst ` set (fi_completed f) \<longrightarrow> fi_given f = content s"
    using p(6) by (metis append_Nil2)
  then show ?thesis
    unfolding served_exactly_def using p(1-4) by blast
qed

end

definition image_content :: "ImageSource \<Rightarrow> bytes" where
  "image_content s = drop (im_pos s) (im_data s)"

definition stream_content :: "StreamReader \<Rightarrow> bytes" where
  "stream_content s = drop (sr_pos s) (sr_buf s) @ concat (sr_rx s)"

declare stream_fill.simps [simp del]

lemma slice_take_drop: "slice i (i + n) xs = take n (drop i xs)"
  by (simp add: slice_def drop_take)

lemma stream_fill_law:
  "stream_fill need acc s = (out, s') \<Longrightarrow>
   out = acc @ take need (stream_content s) \<and> stream_content s' = drop need (stream_content s)"
proof (induction need acc s rule: stream_fill.induct)
  case (1 need acc s)
  show ?case
  proof (cases "0 < need")
    case need: True
    show ?thesis
    proof (cases "length (sr_buf s) \<le> sr_pos s")
      case empty: True
      show ?thesis
      proof (cases "sr_rx s")
        case Nil
        then show ?thesis
          using "1.prems" need empty by (simp add: stream_fill.simps [of need] stream_content_def)
      next
        case (Cons piece rest)
        then show ?thesis
          using "1.prems" "1.IH"(1) [OF need empty Cons] need empty
          by (simp add: stream_fill.simps [of need acc s] stream_content_def)
      qed
    next
      case False
      define n where "n = min (length (sr_buf s) - sr_pos s) need"
      define s1 where "s1 = s \<lparr> sr_pos := sr_pos s + n \<rparr>"
      have step: "stream_fill (need - n) (acc @ slice (sr_pos s) (sr_pos s + n) (sr_buf s)) s1 = (out, s')"
        using "1.prems" need False by (simp add: stream_fill.simps [of need acc s] Let_def n_def s1_def)
      have "stream_content s = slice (sr_pos s) (sr_pos s + n) (sr_buf s) @ stream_content s1"
        using append_take_drop_id [of n "drop (sr_pos s) (sr_buf s)"]
        unfolding slice_take_drop by (simp add: stream_content_def s1_def add.commute flip: append_assoc)
      moreover have "length (slice (sr_pos s) (sr_pos s + n) (sr_buf s)) = n" "n \<le> need"
        by (simp_all add: slice_take_drop n_def)
      ultimately show ?thesis
        using "1.IH"(2) [OF need False n_def step [unfolded s1_def]] by (simp add: s1_def)
    qed
  next
    case False
    then show ?thesis
      using "1.prems" by (simp add: stream_fill.simps [of 0])
  qed
qed

interpretation image_source: restore_source image_read_into image_content
proof
  fix n s out s'
  assume "image_read_into n s = (out, s')"
  then have "out = take (min (length (im_data s) - im_pos s) n) (drop (im_pos s) (im_data s))"
    "s' = s \<lparr> im_pos := im_pos s + min (length (im_data s) - im_pos s) n \<rparr>"
    unfolding image_read_into_def Let_def slice_take_drop by simp_all
  then show "out = take n (image_content s) \<and> image_content s' = drop n (image_content s)"
    by (simp add: image_content_def min_def add.commute)
qed

interpretation stream_source: restore_source stream_read_into stream_content
  by unfold_locales (auto simp: stream_read_into_def dest: stream_fill_law)

section \<open>Properties\<close>

text \<open>C12: The backup device loses nothing and acknowledges nothing it did not deliver. Whatever commands
  SQL Server issues, and however the run ends, SQL Server is never told of more transferred bytes
  than the sink accepted. When the loop ends without an error, the device was closed, no turn before
  was cancelled, nothing was aborted, the sink holds exactly the bytes of all write commands in
  order, and the reported total and the acknowledged bytes are their number.\<close>

theorem drain_delivers_every_write:
  assumes "drain_device config opened turns sink = (r, d)" "list_all wf_turn turns" "sk_written sink = []"
  shows "acknowledged (dr_completed d) \<le> length (sunk d) \<and>
    (\<forall>sz. r = Some (Ok sz) \<longrightarrow> \<not> dr_aborted d \<and>
       (\<exists>pre t post. turns = pre @ t # post \<and> tn_result t = VD_E_CLOSE \<and> list_all (\<lambda>t. \<not> tn_cancelled t) pre \<and>
          sunk d = concat (map turn_data pre) \<and> sz = of_nat (length (sunk d)) \<and>
          acknowledged (dr_completed d) = length (sunk d)))"
proof -
  define d0 where "d0 = \<lparr> dr_total = 0, dr_sink = sink, dr_completed = [], dr_aborted = False \<rparr>"
  have start: "sunk d0 = []" "dr_completed d0 = []" "dr_total d0 = 0" "\<not> dr_aborted d0"
    using assms(3) by (simp_all add: d0_def)
  show ?thesis
  proof (cases "open_device config opened")
    case (Inl e)
    then show ?thesis
      using assms(1) by (auto simp: drain_device_def d0_def)
  next
    case (Inr u)
    then have l: "drain_loop turns d0 = (r, d)"
      using assms(1) by (simp add: drain_device_def d0_def)
    have "acknowledged (dr_completed d) \<le> length (sunk d)"
      using drain_loop_acknowledged [OF l assms(2)] start by simp
    moreover have "\<not> dr_aborted d \<and>
       (\<exists>pre t post. turns = pre @ t # post \<and> tn_result t = VD_E_CLOSE \<and> list_all (\<lambda>t. \<not> tn_cancelled t) pre \<and>
          sunk d = concat (map turn_data pre) \<and> sz = of_nat (length (sunk d)) \<and>
          acknowledged (dr_completed d) = length (sunk d))" if ok: "r = Some (Ok sz)" for sz
    proof -
      obtain pre t post where "turns = pre @ t # post" "tn_result t = VD_E_CLOSE" "list_all (\<lambda>t. \<not> tn_cancelled t) pre"
        "sunk d = concat (map turn_data pre)" "sz = of_nat (length (concat (map turn_data pre)))" "\<not> dr_aborted d"
        "acknowledged (dr_completed d) = length (concat (map turn_data pre))"
        using drain_loop_ok [OF l [unfolded ok] assms(2)] start by auto
      then show ?thesis
        by (intro conjI exI [of _ pre] exI [of _ t] exI [of _ post]) simp_all
    qed
    ultimately show ?thesis
      by blast
  qed
qed

definition demo_turn :: "hresult \<Rightarrow> u32 \<Rightarrow> bytes \<Rightarrow> turn" where
  "demo_turn r code data =
     \<lparr> tn_cancelled = False, tn_result = r,
       tn_cmd = \<lparr> vc_code = code, vc_size = of_nat (length data), vc_buffer = data \<rparr>, tn_complete = None \<rparr>"

definition demo_backup_turns :: "turn list" where
  "demo_backup_turns = [demo_turn VdOk VDC_WRITE [1, 2], demo_turn VD_E_TIMEOUT 0 [], demo_turn VdOk VDC_FLUSH [],
     demo_turn VdOk VDC_WRITE [3], demo_turn VD_E_CLOSE 0 []]"

theorem drain_delivers_every_write_witness:
  "\<exists>d. drain_device VdOk VdOk demo_backup_turns \<lparr> sk_kind = SinkChannel, sk_written = [], sk_room = 9 \<rparr> =
       (Some (Ok 3), d) \<and> sunk d = [1, 2, 3] \<and> acknowledged (dr_completed d) = 3"
proof -
  obtain d where d: "drain_device VdOk VdOk demo_backup_turns \<lparr> sk_kind = SinkChannel, sk_written = [], sk_room = 9 \<rparr> =
      (Some (Ok 3), d)" "sunk d = [1, 2, 3]"
    by (simp add: drain_device_def open_device_def demo_backup_turns_def demo_turn_def drain_command_def vdc_codes
        sink_write_def cmd_data_def)
  have "list_all wf_turn demo_backup_turns"
    by (simp add: demo_backup_turns_def demo_turn_def wf_turn_def)
  from drain_delivers_every_write [OF d(1) this] d show ?thesis
    by (intro exI [of _ d]) auto
qed

text \<open>C13: SQL Server restores exactly the image. While it reads a backup from the device, from a
  downloaded image or from a stream of chunks of any sizes, it receives the bytes of the image in
  order, as many as it asked for; it is told of the end only once it has all of them; and the
  reported total is the number of bytes it was given.\<close>

theorem device_serves_exact_image:
  "(fill_device stream_read_into VdOk VdOk turns (stream_new rx) = (Some (Ok sz), f) \<longrightarrow>
      served_exactly (concat rx) turns sz f) \<and>
   (fill_device image_read_into VdOk VdOk turns \<lparr> im_data = img, im_pos = 0 \<rparr> = (Some (Ok sz), g) \<longrightarrow>
      served_exactly img turns sz g)"
  using stream_source.fill_device_served [of turns "stream_new rx" sz f]
    image_source.fill_device_served [of turns "\<lparr> im_data = img, im_pos = 0 \<rparr>" sz g]
  by (simp add: stream_new_def stream_content_def image_content_def)

definition demo_restore_turns :: "turn list" where
  "demo_restore_turns = [demo_turn VdOk VDC_READ [0, 0], demo_turn VdOk VDC_READ [0, 0], demo_turn VD_E_CLOSE 0 []]"

theorem device_serves_exact_image_witness:
  "\<exists>f. fill_device stream_read_into VdOk VdOk demo_restore_turns (stream_new [[7], [], [8, 9]]) = (Some (Ok 3), f) \<and>
     served_exactly [7, 8, 9] demo_restore_turns 3 f \<and> fi_completed f = [(ERROR_SUCCESS, 2), (ERROR_HANDLE_EOF, 1)]"
proof -
  obtain f where f: "fill_device stream_read_into VdOk VdOk demo_restore_turns (stream_new [[7], [], [8, 9]]) =
      (Some (Ok 3), f)" "fi_completed f = [(ERROR_SUCCESS, 2), (ERROR_HANDLE_EOF, 1)]"
    by (simp add: fill_device_def open_device_def demo_restore_turns_def demo_turn_def fill_command_def vdc_codes
        stream_read_into_def stream_new_def stream_fill.simps slice_def)
  with device_serves_exact_image [of demo_restore_turns "[[7], [], [8, 9]]" 3 f] show ?thesis
    by (intro exI [of _ f]) simp
qed

end
