(* ===== verification/VdiRun.thy ===== *)
theory VdiRun
  imports VdiDevice
begin

text \<open>
  Backups and restores through virtual devices (\<open>pbsgui-engine/src/sql/vdi.rs\<close>): one backup of a
  database, one restore statement fed from an image or from PBS, and the restore of a chain to a
  point in time.

  The SQL Server behind the connection, the device sessions, the relay and the PBS download are
  parameters (\<open>vdi_env\<close>). The world records every statement sent, with the bytes its device was fed,
  so that the order of the statements can be stated.
\<close>

section \<open>Environment\<close>

record 'q vdi_env =
  ve_connect :: "anyhow + unit"
  ve_query :: "'q sql_client"
  ve_vdi_query :: "string \<Rightarrow> bytes \<Rightarrow> 'q \<Rightarrow> (anyhow + sql_row list list) \<times> 'q"
  ve_uuid :: "nat \<Rightarrow> string"
  ve_device :: "string option \<Rightarrow> string \<Rightarrow> (anyhow + unit) option"
  ve_device_join :: "string \<Rightarrow> string + (anyhow + u64)"
  ve_relay :: "(string \<Rightarrow> string option \<Rightarrow> string \<Rightarrow> anyhow + unit) option"
  ve_relay_join :: "string \<Rightarrow> string + unit"
  ve_download :: "SessionParams \<Rightarrow> string \<Rightarrow> CryptConfig option \<Rightarrow> bytes list \<times> (string + (anyhow + unit))"
  ve_format :: "int \<Rightarrow> string option"

record 'q sql_world =
  sw_server :: 'q
  sw_uuids :: nat
  sw_issued :: "(string \<times> bytes option) list"

definition fresh_set :: "'q vdi_env \<Rightarrow> 'q sql_world \<Rightarrow> string \<times> 'q sql_world" where
  "fresh_set E w = (''pbsgui-'' @ ve_uuid E (sw_uuids w), w \<lparr> sw_uuids := sw_uuids w + 1 \<rparr>)"

definition plain_query :: "'q vdi_env \<Rightarrow> 'q sql_world sql_client" where
  "plain_query E sql w =
     (let (r, q) = ve_query E sql (sw_server w)
      in (r, w \<lparr> sw_server := q, sw_issued := sw_issued w @ [(sql, None)] \<rparr>))"

definition device_query ::
  "'q vdi_env \<Rightarrow> string \<Rightarrow> bytes \<Rightarrow> 'q sql_world \<Rightarrow> (anyhow + sql_row list list) \<times> 'q sql_world" where
  "device_query E sql content w =
     (let (r, q) = ve_vdi_query E sql content (sw_server w)
      in (r, w \<lparr> sw_server := q, sw_issued := sw_issued w @ [(sql, Some content)] \<rparr>))"

section \<open>Restore statements\<close>

definition from_device :: "string \<Rightarrow> string" where
  "from_device set_name = '' FROM VIRTUAL_DEVICE = '' @ [CHR 39] @ set_name @ [CHR 39]"

definition restore_stmt :: "string \<Rightarrow> string \<Rightarrow> string \<Rightarrow> string" where
  "restore_stmt target moves set_name =
     ''RESTORE DATABASE ['' @ esc_name target @ '']'' @ from_device set_name @ '' WITH REPLACE, RECOVERY'' @ moves"

definition chain_stmt :: "string \<Rightarrow> string \<Rightarrow> string \<Rightarrow> nat \<Rightarrow> string \<Rightarrow> string" where
  "chain_stmt target moves stopat i set_name =
     (if i = 0 then
        ''RESTORE DATABASE ['' @ esc_name target @ '']'' @ from_device set_name @ '' WITH REPLACE, NORECOVERY'' @ moves
      else
        ''RESTORE LOG ['' @ esc_name target @ '']'' @ from_device set_name @ '' WITH STOPAT = N'' @ [CHR 39] @ stopat
          @ [CHR 39] @ '', NORECOVERY'')"

definition recover_stmt :: "string \<Rightarrow> string" where
  "recover_stmt target = ''RESTORE DATABASE ['' @ esc_name target @ ''] WITH RECOVERY''"

definition FILELIST :: "string \<Rightarrow> string" where
  "FILELIST set_name = ''RESTORE FILELISTONLY'' @ from_device set_name"

definition OFFSET_QUERY :: string where
  "OFFSET_QUERY = ''SELECT DATEDIFF(MINUTE, GETUTCDATE(), GETDATE())''"

text \<open>The server's offset from UTC in minutes, as the first column; NULL and no row count as none.\<close>

definition server_offset :: "'q vdi_env \<Rightarrow> 'q sql_world \<Rightarrow> (anyhow + int) \<times> 'q sql_world" where
  "server_offset E w =
     (let (r, w1) = plain_query E OFFSET_QUERY w
      in (and_then r (\<lambda>results. Ok (unwrap_or 0 (Option.bind (into_row results) (\<lambda>row. row_int row ''0'')))), w1))"

definition stopat_text :: "'q vdi_env \<Rightarrow> i64 \<Rightarrow> int \<Rightarrow> string" where
  "stopat_text E target_unix offset_min =
     unwrap_or '''' (ve_format E (sint (target_unix + of_int offset_min * 60)))"

section \<open>From an image\<close>

definition run_vdi_read_stmt ::
  "'q vdi_env \<Rightarrow> string option \<Rightarrow> bytes \<Rightarrow> (string \<Rightarrow> string) \<Rightarrow> 'q sql_world
     \<Rightarrow> (anyhow + sql_row list list) \<times> 'q sql_world" where
  "run_vdi_read_stmt E inst img make_sql w =
     (let (set_name, w1) = fresh_set E w in
      case await_ready (ve_device E inst set_name) of
        Inl e \<Rightarrow> (Err e, w1)
      | Inr _ \<Rightarrow>
          let (stmt, w2) = device_query E (make_sql set_name) img w1
          in (case ve_device_join E set_name of
                Inl p \<Rightarrow> (Err [''VDI thread panicked: '' @ p], w2)
              | Inr _ \<Rightarrow> (with_context ''the RESTORE statement failed'' stmt, w2)))"

definition backup_filelist ::
  "'q vdi_env \<Rightarrow> string option \<Rightarrow> bytes \<Rightarrow> 'q sql_world \<Rightarrow> (anyhow + SqlBackupFile list) \<times> 'q sql_world" where
  "backup_filelist E inst img w =
     (let (r, w1) = run_vdi_read_stmt E inst img FILELIST w
      in (and_then r (\<lambda>results.
            let fs = map backup_file_of_row (first_rows results)
            in if fs = [] then Err [''the backup file list was empty''] else Ok fs), w1))"

definition image_moves ::
  "'q vdi_env \<Rightarrow> string option \<Rightarrow> bytes \<Rightarrow> string \<Rightarrow> 'q sql_world \<Rightarrow> (anyhow + string) \<times> 'q sql_world" where
  "image_moves E inst img target w =
     (let (r, w1) = backup_filelist E inst img w in
      case r of
        Inl e \<Rightarrow> (Err e, w1)
      | Inr fs \<Rightarrow> moves_from_files (plain_query E) fs target w1)"

definition restore_database_from_image ::
  "'q vdi_env \<Rightarrow> string \<Rightarrow> string \<Rightarrow> string \<Rightarrow> bytes \<Rightarrow> bool \<Rightarrow> 'q sql_world \<Rightarrow> (anyhow + unit) \<times> 'q sql_world" where
  "restore_database_from_image E server source_db target img force_relocate w =
     (case ve_connect E of
        Inl e \<Rightarrow> (Err e, w)
      | Inr _ \<Rightarrow>
          let inst = instance_of server;
              finish = (\<lambda>moves w. let (r, w1) = run_vdi_read_stmt E inst img (restore_stmt target moves) w
                                  in (and_then r (\<lambda>_. Ok ()), w1))
          in if \<not> force_relocate \<and> eq_ignore_case source_db target then finish '''' w
             else
               let (m, w1) = image_moves E inst img target w
               in (case m of Inl e \<Rightarrow> (Err e, w1) | Inr moves \<Rightarrow> finish moves w1))"

text \<open>Running the steps of a chain in order; the first failure ends the restore.\<close>

fun run_steps ::
  "(nat \<Rightarrow> 'x \<Rightarrow> 'w \<Rightarrow> (anyhow + unit) \<times> 'w) \<Rightarrow> nat \<Rightarrow> 'x list \<Rightarrow> 'w \<Rightarrow> (anyhow + unit) \<times> 'w" where
  "run_steps f i [] w = (Ok (), w)"
| "run_steps f i (x # xs) w =
     (case f i x w of (Inl e, w1) \<Rightarrow> (Err e, w1) | (Inr _, w1) \<Rightarrow> run_steps f (i + 1) xs w1)"

text \<open>What both chain restores share: the offset query, the \<open>MOVE\<close> clauses for a new name, the steps,
  and the final recovery.\<close>

definition restore_steps ::
  "'q vdi_env \<Rightarrow> string \<Rightarrow> string \<Rightarrow> i64 \<Rightarrow> bool
     \<Rightarrow> ('q sql_world \<Rightarrow> (anyhow + string) \<times> 'q sql_world)
     \<Rightarrow> ((string \<Rightarrow> string) \<Rightarrow> 'x \<Rightarrow> 'q sql_world \<Rightarrow> (anyhow + unit) \<times> 'q sql_world)
     \<Rightarrow> 'x list \<Rightarrow> 'q sql_world \<Rightarrow> (anyhow + unit) \<times> 'q sql_world" where
  "restore_steps E source_db target target_unix force_relocate find_moves run_one steps w =
     (if steps = [] then (Err [''empty restore chain''], w)
      else case ve_connect E of
        Inl e \<Rightarrow> (Err e, w)
      | Inr _ \<Rightarrow>
          let new_name = (force_relocate \<or> \<not> eq_ignore_case source_db target); (off, w1) = server_offset E w in
          (case off of
             Inl e \<Rightarrow> (Err e, w1)
           | Inr offset_min \<Rightarrow>
               let stopat = stopat_text E target_unix offset_min;
                   (m, w2) = (if new_name then find_moves w1 else (Ok '''', w1)) in
               (case m of
                  Inl e \<Rightarrow> (Err e, w2)
                | Inr moves \<Rightarrow>
                    let (r, w3) = run_steps (\<lambda>i. run_one (chain_stmt target moves stopat i)) 0 steps w2 in
                    (case r of
                       Inl e \<Rightarrow> (Err e, w3)
                     | Inr _ \<Rightarrow>
                         let (fin, w4) = plain_query E (recover_stmt target) w3
                         in (and_then fin (\<lambda>_. Ok ()), w4)))))"

definition restore_chain ::
  "'q vdi_env \<Rightarrow> string \<Rightarrow> string \<Rightarrow> string \<Rightarrow> (bool \<times> bytes) list \<Rightarrow> i64 \<Rightarrow> bool \<Rightarrow> 'q sql_world
     \<Rightarrow> (anyhow + unit) \<times> 'q sql_world" where
  "restore_chain E server source_db target steps target_unix force_relocate w =
     (let inst = instance_of server
      in restore_steps E source_db target target_unix force_relocate
           (image_moves E inst (snd (hd steps)) target)
           (\<lambda>make_sql (_, img) w. let (r, w1) = run_vdi_read_stmt E inst img make_sql w in (and_then r (\<lambda>_. Ok ()), w1))
           steps w)"

section \<open>Streamed from PBS\<close>

text \<open>Creating the device, on this machine or through a relay agent.\<close>

definition open_restore_device :: "'q vdi_env \<Rightarrow> string option \<Rightarrow> string option \<Rightarrow> string \<Rightarrow> anyhow + unit" where
  "open_restore_device E inst relay_agent set_name =
     (case relay_agent of
        None \<Rightarrow> await_ready (ve_device E inst set_name)
      | Some agent \<Rightarrow>
          (case ve_relay E of
             None \<Rightarrow> Err [''this machine has no relay listener configured'']
           | Some start \<Rightarrow>
               with_context (''starting the relay restore session on agent '' @ [CHR 39] @ agent @ [CHR 39])
                 (start agent inst set_name)))"

definition device_done :: "'q vdi_env \<Rightarrow> string option \<Rightarrow> string \<Rightarrow> anyhow + unit" where
  "device_done E relay_agent set_name =
     (case relay_agent of
        None \<Rightarrow>
          (case ve_device_join E set_name of
             Inl p \<Rightarrow> Err [''VDI thread panicked: '' @ p]
           | Inr (Inl e) \<Rightarrow> Err (''the VDI device loop failed'' # e)
           | Inr (Inr _) \<Rightarrow> Ok ())
      | Some _ \<Rightarrow>
          (case ve_relay_join E set_name of
             Inl p \<Rightarrow> Err [''relay restore writer panicked: '' @ p]
           | Inr _ \<Rightarrow> Ok ()))"

definition restore_one_streamed ::
  "'q vdi_env \<Rightarrow> string option \<Rightarrow> string option \<Rightarrow> CryptConfig option \<Rightarrow> (string \<Rightarrow> string)
     \<Rightarrow> SessionParams \<times> string \<Rightarrow> 'q sql_world \<Rightarrow> (anyhow + unit) \<times> 'q sql_world" where
  "restore_one_streamed E inst relay_agent crypt make_sql step w =
     (let (set_name, w1) = fresh_set E w in
      case open_restore_device E inst relay_agent set_name of
        Inl e \<Rightarrow> (Err e, w1)
      | Inr _ \<Rightarrow>
          let (pushed, downloaded) = ve_download E (fst step) (snd step) crypt;
              (stmt, w2) = device_query E (make_sql set_name) (concat pushed) w1
          in (case stmt of
                Inl e \<Rightarrow> (Err (''the RESTORE statement failed'' # e), w2)
              | Inr _ \<Rightarrow>
                  (case downloaded of
                     Inl p \<Rightarrow> (Err [''PBS download task panicked: '' @ p], w2)
                   | Inr (Inl e) \<Rightarrow> (Err (''streaming the backup from PBS failed'' # e), w2)
                   | Inr (Inr _) \<Rightarrow> (device_done E relay_agent set_name, w2))))"

definition restore_database_streamed ::
  "'q vdi_env \<Rightarrow> string \<Rightarrow> string \<Rightarrow> string \<Rightarrow> string option \<Rightarrow> SessionParams \<Rightarrow> string \<Rightarrow> CryptConfig option
     \<Rightarrow> SqlBackupFile list \<Rightarrow> bool \<Rightarrow> 'q sql_world \<Rightarrow> (anyhow + unit) \<times> 'q sql_world" where
  "restore_database_streamed E server source_db target relay_agent pbs archive crypt fs force_relocate w =
     (case ve_connect E of
        Inl e \<Rightarrow> (Err e, w)
      | Inr _ \<Rightarrow>
          let (m, w1) = (if \<not> force_relocate \<and> eq_ignore_case source_db target then (Ok '''', w)
                         else moves_from_files (plain_query E) fs target w)
          in (case m of
                Inl e \<Rightarrow> (Err e, w1)
              | Inr moves \<Rightarrow>
                  restore_one_streamed E (instance_of server) relay_agent crypt (restore_stmt target moves)
                    (pbs, archive) w1))"

definition restore_chain_streamed ::
  "'q vdi_env \<Rightarrow> string \<Rightarrow> string \<Rightarrow> string \<Rightarrow> string option \<Rightarrow> (bool \<times> SessionParams \<times> string) list
     \<Rightarrow> CryptConfig option \<Rightarrow> SqlBackupFile list \<Rightarrow> i64 \<Rightarrow> bool \<Rightarrow> 'q sql_world \<Rightarrow> (anyhow + unit) \<times> 'q sql_world" where
  "restore_chain_streamed E server source_db target relay_agent steps crypt fs target_unix force_relocate w =
     restore_steps E source_db target target_unix force_relocate
       (moves_from_files (plain_query E) fs target)
       (\<lambda>make_sql (_, step). restore_one_streamed E (instance_of server) relay_agent crypt make_sql step)
       steps w"

section \<open>Backups\<close>

text \<open>A backup to PBS: the pieces are what the device loop hands to the channel while the statement
  runs; the uploader reads them through the reader, whose verdict is the statement's outcome.\<close>

definition backup_database_to_pbs ::
  "'q vdi_env \<Rightarrow> (SqlBackupMeta \<Rightarrow> bytes) \<Rightarrow> (ChannelReader \<Rightarrow> (string \<times> bytes) option \<Rightarrow> anyhow + BackupStats)
     \<Rightarrow> bytes list \<Rightarrow> string \<Rightarrow> string \<Rightarrow> SqlBackupType \<Rightarrow> bool \<Rightarrow> 'q sql_world
     \<Rightarrow> (anyhow + BackupStats) \<times> 'q sql_world" where
  "backup_database_to_pbs E to_json upload pieces server database backup_type copy_only w =
     (case ve_connect E of
        Inl e \<Rightarrow> (Err e, w)
      | Inr _ \<Rightarrow>
          let (set_name, w1) = fresh_set E w in
          case await_ready (ve_device E (instance_of server) set_name) of
            Inl e \<Rightarrow> (Err e, w1)
          | Inr _ \<Rightarrow>
              let (result, w2) = issue_backup (plain_query E) database set_name backup_type copy_only w1;
                  (meta, w3) = (if is_ok result then
                                  let (m, w3) = query_backup_meta (plain_query E) database w2
                                  in (case m of Inl _ \<Rightarrow> None | Inr m \<Rightarrow> Some (META_BLOB_NAME, to_json m), w3)
                                else (None, w2));
                  uploaded = upload (reader_new pieces [is_ok result]) meta
              in (case ve_device_join E set_name of
                    Inl p \<Rightarrow> (Err [''VDI thread panicked: '' @ p], w3)
                  | Inr _ \<Rightarrow> (combine_pbs_result result uploaded, w3)))"

definition backup_database_to_file ::
  "'q vdi_env \<Rightarrow> (string \<Rightarrow> string + unit) \<Rightarrow> string \<Rightarrow> string \<Rightarrow> string \<Rightarrow> 'q sql_world \<Rightarrow> (anyhow + u64) \<times> 'q sql_world" where
  "backup_database_to_file E create_file server database output_path w =
     (case ve_connect E of
        Inl e \<Rightarrow> (Err e, w)
      | Inr _ \<Rightarrow>
          let (set_name, w1) = fresh_set E w in
          (case create_file output_path of
             Inl e \<Rightarrow> (Err [''creating backup file '' @ output_path, e], w1)
           | Inr _ \<Rightarrow>
               (case await_ready (ve_device E (instance_of server) set_name) of
                  Inl e \<Rightarrow> (Err e, w1)
                | Inr _ \<Rightarrow>
                    let (backup, w2) = issue_backup (plain_query E) database set_name Full True w1
                    in (case ve_device_join E set_name of
                          Inl p \<Rightarrow> (Err [''VDI thread panicked: '' @ p], w2)
                        | Inr device \<Rightarrow> (combine_file_result backup device, w2)))))"

section \<open>Order of the statements\<close>

text \<open>The statements of the steps with the content each is fed, for device sets numbered from \<open>n\<close>.\<close>

fun step_stmts ::
  "'q vdi_env \<Rightarrow> CryptConfig option \<Rightarrow> (nat \<Rightarrow> string \<Rightarrow> string) \<Rightarrow> nat \<Rightarrow> nat \<Rightarrow> (bool \<times> SessionParams \<times> string) list
     \<Rightarrow> (string \<times> bytes option) list" where
  "step_stmts E crypt mk i n [] = []"
| "step_stmts E crypt mk i n ((_, pbs, archive) # xs) =
     (mk i (''pbsgui-'' @ ve_uuid E n), Some (concat (fst (ve_download E pbs archive crypt))))
       # step_stmts E crypt mk (i + 1) (n + 1) xs"

definition downloaded :: "'q vdi_env \<Rightarrow> CryptConfig option \<Rightarrow> (bool \<times> SessionParams \<times> string) \<Rightarrow> bool" where
  "downloaded E crypt = (\<lambda>(_, pbs, archive). snd (ve_download E pbs archive crypt) = Inr (Ok ()))"

lemma step_stmts_length [simp]: "length (step_stmts E crypt mk i n xs) = length xs"
  by (induction E crypt mk i n xs rule: step_stmts.induct) auto

lemma plain_query_issued:
  "plain_query E sql w = (r, w') \<Longrightarrow> sw_issued w' = sw_issued w @ [(sql, None)] \<and> sw_uuids w' = sw_uuids w"
  by (auto simp: plain_query_def split: prod.splits)

lemma restore_one_streamed_issued:
  assumes "restore_one_streamed E inst relay crypt mk (pbs, archive) w = (r, w')"
  shows "sw_uuids w' = sw_uuids w + 1" (is ?u)
    and "(sw_issued w' = sw_issued w \<and> \<not> is_ok r) \<or>
      (sw_issued w' = sw_issued w @ step_stmts E crypt (\<lambda>_. mk) 0 (sw_uuids w) [(l, pbs, archive)] \<and>
       (is_ok r \<longrightarrow> downloaded E crypt (l, pbs, archive)))" (is ?i)
proof -
  define set_name where "set_name = ''pbsgui-'' @ ve_uuid E (sw_uuids w)"
  have "?u \<and> ?i"
  proof (cases "open_restore_device E inst relay set_name")
    case (Inl e)
    then have "r = Err e" "w' = w \<lparr> sw_uuids := sw_uuids w + 1 \<rparr>"
      using assms by (simp_all add: restore_one_streamed_def fresh_set_def set_name_def)
    then show ?thesis
      by simp
  next
    case (Inr u)
    then show ?thesis
      using assms
      by (auto simp: restore_one_streamed_def fresh_set_def device_query_def downloaded_def set_name_def
          split: sum.splits prod.splits)
  qed
  then show ?u ?i
    by blast+
qed

lemma run_steps_issued:
  assumes "run_steps (\<lambda>i mk_step. case mk_step of (_, step) \<Rightarrow> restore_one_streamed E inst relay crypt (mk i) step)
      i steps w = (r, w')"
  shows "\<exists>k \<le> length steps. sw_issued w' = sw_issued w @ take k (step_stmts E crypt mk i (sw_uuids w) steps) \<and>
    (is_ok r \<longrightarrow> k = length steps \<and> list_all (downloaded E crypt) steps)"
  using assms
proof (induction steps arbitrary: i w)
  case (Cons x xs)
  obtain l pbs archive where x: "x = (l, pbs, archive)"
    by (metis prod_cases3)
  obtain r1 w1 where one: "restore_one_streamed E inst relay crypt (mk i) (pbs, archive) w = (r1, w1)"
    by fastforce
  note eff = restore_one_streamed_issued(1) [OF one] restore_one_streamed_issued(2) [OF one, of l]
  show ?case
  proof (cases r1)
    case (Inl e)
    then have "r = Err e" "w' = w1"
      using Cons.prems x one by auto
    then consider "sw_issued w' = sw_issued w"
      | "sw_issued w' = sw_issued w @ take 1 (step_stmts E crypt mk i (sw_uuids w) (x # xs))"
      using eff(2) Inl x by auto
    then show ?thesis
      using \<open>r = Err e\<close> by cases (force intro: exI [of _ 0] exI [of _ 1])+
  next
    case (Inr u)
    then have "run_steps (\<lambda>i (_, step). restore_one_streamed E inst relay crypt (mk i) step) (i + 1) xs w1 = (r, w')"
      using Cons.prems x one by simp
    from Cons.IH [OF this] obtain k where "k \<le> length xs"
      "sw_issued w' = sw_issued w1 @ take k (step_stmts E crypt mk (i + 1) (sw_uuids w1) xs)"
      "is_ok r \<longrightarrow> k = length xs \<and> list_all (downloaded E crypt) xs"
      by blast
    then show ?thesis
      using eff Inr x by (intro exI [of _ "Suc k"]) simp
  qed
qed auto

lemma moves_from_files_issued:
  "moves_from_files (plain_query E) fs target w = (m, w') \<Longrightarrow>
   sw_issued w' = sw_issued w @ [(default_dirs_query, None)] \<and> sw_uuids w' = sw_uuids w"
  by (auto simp: moves_from_files_def default_dirs_def dest: plain_query_issued split: prod.splits)

lemma server_offset_issued:
  "server_offset E w = (m, w') \<Longrightarrow> sw_issued w' = sw_issued w @ [(OFFSET_QUERY, None)] \<and> sw_uuids w' = sw_uuids w"
  by (auto simp: server_offset_def dest: plain_query_issued split: prod.splits)

lemma restore_chain_issued:
  assumes "restore_chain_streamed E server source_db target relay steps crypt fs target_unix force w = (r, w')"
  shows "\<exists>queries moves off k tail.
    sw_issued w' = sw_issued w @ queries
      @ take k (step_stmts E crypt (chain_stmt target moves (stopat_text E target_unix off)) 0 (sw_uuids w) steps) @ tail \<and>
    set queries \<subseteq> {(OFFSET_QUERY, None), (default_dirs_query, None)} \<and> tail \<in> {[], [(recover_stmt target, None)]} \<and>
    (tail \<noteq> [] \<longrightarrow> k = length steps \<and> list_all (downloaded E crypt) steps) \<and> (is_ok r \<longrightarrow> tail \<noteq> [])"
    (is "\<exists>queries moves off k tail. ?P queries moves off k tail")
proof -
  have early: ?thesis if "sw_issued w' = sw_issued w @ queries" "\<not> is_ok r"
    "set queries \<subseteq> {(OFFSET_QUERY, None), (default_dirs_query, None)}" for queries
    using that by (intro exI [of _ queries] exI [of _ "''''"] exI [of _ 0] exI [of _ 0] exI [of _ "[]"]) simp
  obtain off w1 where off: "server_offset E w = (off, w1)"
    by fastforce
  define new_name where "new_name = (force \<or> \<not> eq_ignore_case source_db target)"
  obtain m w2 where m: "(if new_name then moves_from_files (plain_query E) fs target w1 else (Ok '''', w1)) = (m, w2)"
    by fastforce
  obtain qs where qs: "sw_issued w2 = sw_issued w @ qs" "set qs \<subseteq> {(OFFSET_QUERY, None), (default_dirs_query, None)}"
    and uuids: "sw_uuids w2 = sw_uuids w"
    using server_offset_issued [OF off] m moves_from_files_issued [of E fs target w1 m w2] by (auto split: if_splits)
  note run = assms [unfolded restore_chain_streamed_def restore_steps_def off, folded new_name_def]
  show ?thesis
  proof (cases "steps = [] \<or> \<not> is_ok (ve_connect E) \<or> \<not> is_ok off \<or> \<not> is_ok m")
    case True
    then consider (empty) "steps = []" | (conn) e where "steps \<noteq> []" "ve_connect E = Err e"
      | (off) e where "steps \<noteq> []" "ve_connect E = Ok ()" "off = Err e"
      | (moves) e x where "steps \<noteq> []" "ve_connect E = Ok ()" "off = Ok x" "m = Err e"
      by (cases "ve_connect E"; cases off; cases m) auto
    then show ?thesis
    proof cases
      case empty
      then show ?thesis
        using run by (intro early [of "[]"]) auto
    next
      case conn
      then have "r = Err e" "w' = w"
        using run by simp_all
      then show ?thesis
        by (intro early [of "[]"]) auto
    next
      case off
      then show ?thesis
        using run server_offset_issued [OF \<open>server_offset E w = (off, w1)\<close>]
        by (intro early [of "[(OFFSET_QUERY, None)]"]) auto
    next
      case moves
      then show ?thesis
        using run m qs by (intro early [of qs]) (auto simp: Let_def)
    qed
  next
    case False
    then obtain offset moves where v: "steps \<noteq> []" "is_ok (ve_connect E)" "off = Ok offset" "m = Ok moves"
      by (auto simp: is_ok_iff)
    define mk where "mk = chain_stmt target moves (stopat_text E target_unix offset)"
    obtain rs w3 where steps: "run_steps (\<lambda>i (_, step). restore_one_streamed E (instance_of server) relay crypt (mk i) step)
        0 steps w2 = (rs, w3)"
      by fastforce
    from run_steps_issued [OF this] obtain k where k: "k \<le> length steps"
      "sw_issued w3 = sw_issued w2 @ take k (step_stmts E crypt mk 0 (sw_uuids w) steps)"
      "is_ok rs \<longrightarrow> k = length steps \<and> list_all (downloaded E crypt) steps"
      unfolding uuids by blast
    have "?P qs moves offset k (if is_ok rs then [(recover_stmt target, None)] else [])"
      using run v m steps k qs plain_query_issued [of E "recover_stmt target" w3]
      by (cases rs) (auto simp: is_ok_iff mk_def Let_def split: prod.splits)
    then show ?thesis
      by blast
  qed
qed


definition demo_vdi_env :: "unit vdi_env" where
  "demo_vdi_env =
     \<lparr> ve_connect = Ok (), ve_query = (\<lambda>_ q. (Ok [], q)), ve_vdi_query = (\<lambda>_ _ q. (Ok [], q)),
       ve_uuid = show_nat, ve_device = (\<lambda>_ _. Some (Ok ())), ve_device_join = (\<lambda>_. Inr (Ok 0)),
       ve_relay = None, ve_relay_join = (\<lambda>_. Inr ()), ve_download = (\<lambda>_ a _. ([bytes_of a], Inr (Ok ()))),
       ve_format = (\<lambda>_. Some ''2026-01-02T03:04:05'') \<rparr>"

definition demo_steps :: "(bool \<times> SessionParams \<times> string) list" where
  "demo_steps = [(False, demo_params, ''f''), (True, demo_params, ''g'')]"

definition demo_chain_run :: "(anyhow + unit) \<times> unit sql_world" where
  "demo_chain_run =
     restore_chain_streamed demo_vdi_env ''host'' ''db'' ''DB'' None demo_steps None [] 0 False
       \<lparr> sw_server = (), sw_uuids = 0, sw_issued = [] \<rparr>"

lemma demo_chain_ok: "is_ok (fst demo_chain_run)"
  by code_simp


section \<open>The verdict of a backup\<close>

text \<open>A backup succeeds only when both halves do, and a failed statement makes the stream fail. The
  backup of a database to PBS reports success only if the \<open>BACKUP\<close> statement succeeded and the
  upload succeeded, and the upload then read the stream with a good verdict. Whenever the statement
  fails, the reader handed to the uploader ends in an error, whatever the device had delivered by
  then.\<close>

lemma backup_needs_statement_and_upload:
  assumes "backup_database_to_pbs E to_json upload pieces server database ty copy_only w = (Ok stats, w')"
  shows "(\<exists>meta. upload (reader_new pieces [True]) meta = Ok stats) \<and>
    (\<exists>set_name w1 w2. issue_backup (plain_query E) database set_name ty copy_only w1 = (Ok (), w2)) \<and>
    ty \<noteq> Differential \<and>
    (\<forall>ns r. list_all ((<) 0) ns \<longrightarrow> read_all reader_read ns [] (reader_new pieces [False]) = Some r \<longrightarrow> \<not> is_ok r)"
proof -
  define set_name where "set_name = ''pbsgui-'' @ ve_uuid E (sw_uuids w)"
  define w1 where "w1 = w \<lparr> sw_uuids := sw_uuids w + 1 \<rparr>"
  have fresh: "fresh_set E w = (set_name, w1)"
    by (simp add: fresh_set_def set_name_def w1_def)
  obtain result w2 where i: "issue_backup (plain_query E) database set_name ty copy_only w1 = (result, w2)"
    by fastforce
  obtain meta w3 where m: "(if is_ok result then
       let (m, w3) = query_backup_meta (plain_query E) database w2
       in (case m of Inl _ \<Rightarrow> None | Inr m \<Rightarrow> Some (META_BLOB_NAME, to_json m), w3)
     else (None, w2)) = (meta, w3)"
    by (metis surj_pair)
  have "combine_pbs_result result (upload (reader_new pieces [is_ok result]) meta) = Ok stats"
    using assms m by (auto simp: backup_database_to_pbs_def fresh i split: sum.splits)
  then have ok: "result = Ok ()" "upload (reader_new pieces [True]) meta = Ok stats"
    by (auto simp: combine_pbs_result_def split: sum.splits)
  have "ty \<noteq> Differential"
    using i ok(1) by (auto simp: issue_backup_def backup_statement_def)
  moreover have "\<not> is_ok r" if "list_all ((<) 0) ns" "read_all reader_read ns [] (reader_new pieces [False]) = Some r"
    for ns r
    using vdi_reader.read_all_outcome [OF that] by (simp add: reader_new_def)
  ultimately show ?thesis
    using i ok by blast
qed

end
