(* ===== verification/SqlRestore.thy ===== *)
theory SqlRestore
  imports RunJob VdiRun
begin

text \<open>
  Restoring and watching SQL Server backups (\<open>pbsgui-engine/src/handler.rs\<close>, and the health check of
  \<open>scheduler.rs\<close>): resolving a job, the restore window, restores to a full backup or a point in time,
  the export of backups to files, and the alerts for stalled chains.

  Reading from PBS (listing, blobs, archives), chrono's formatting and the file system calls are
  parameters (\<open>pbs_env\<close>); the SQL Server side is the \<open>vdi_env\<close> of the virtual devices. The replies a
  handler streams are collected in a list.
\<close>

section \<open>Environment\<close>

definition lift_err :: "string + 'x \<Rightarrow> anyhow + 'x" where
  "lift_err r = map_err (\<lambda>e. [e]) r"

definition lift_pbs :: "PbsError + 'x \<Rightarrow> anyhow + 'x" where
  "lift_pbs r = map_err (\<lambda>e. [pbs_error_text e]) r"

record 'a stores_env =
  se_signer :: "'a signer"
  se_libs :: libs
  se_jobs :: "Job json_store"
  se_conns :: "SqlConnection json_store"
  se_servers :: "PbsServer json_store"
  se_keyring :: keyring

record pbs_env =
  pe_list :: "ApiClient \<Rightarrow> string \<Rightarrow> string option \<Rightarrow> string \<Rightarrow> string \<Rightarrow> anyhow + Snapshot list"
  pe_connect :: "SessionParams \<Rightarrow> anyhow + unit"
  pe_blob :: "SessionParams \<Rightarrow> string \<Rightarrow> CryptConfig option \<Rightarrow> anyhow + bytes"
  pe_archive :: "SessionParams \<Rightarrow> string \<Rightarrow> CryptConfig option \<Rightarrow> anyhow + bytes"
  pe_streamed :: "SessionParams \<Rightarrow> string \<Rightarrow> CryptConfig option \<Rightarrow> bytes \<times> (anyhow + u64)"
  pe_parse_meta :: "bytes \<Rightarrow> string + SqlBackupMeta"
  pe_utc :: "string \<Rightarrow> i64 \<Rightarrow> string option"

definition SQL_BACKUP_TYPE :: string where "SQL_BACKUP_TYPE = ''host''"

section \<open>The job's connection and server\<close>

record SqlJobPbs =
  sp_conn :: SqlConnection
  sp_password :: "string option"
  sp_repo :: Repository
  sp_pbs_secret :: string
  sp_server_fp :: string
  sp_id :: string
  sp_crypt :: "CryptConfig option"

definition sql_job_pbs :: "'a stores_env \<Rightarrow> string \<Rightarrow> anyhow + SqlJobPbs" where
  "sql_job_pbs S job_id =
     (case get_job (se_jobs S) job_id of
        None \<Rightarrow> Err [''no such job: '' @ job_id]
      | Some job \<Rightarrow>
          and_then (lift_err (load_config (se_signer S) (se_libs S) (j_id job) (se_keyring S))) (\<lambda>crypt.
          case j_source job of
            Files _ _ _ \<Rightarrow> Err [''not a SQL Server backup job'']
          | Sql connection_id _ _ \<Rightarrow>
              (case j_destination job of
                 Folder _ \<Rightarrow> Err [''this job backs up to a folder, not PBS'']
               | Pbs server_id backup_id \<Rightarrow>
                   (case js_get sc_id (se_conns S) connection_id of
                      None \<Rightarrow> Err [''the job'' @ [CHR 39] @ ''s SQL connection no longer exists'']
                    | Some conn \<Rightarrow>
                        and_then (if sc_auth conn = Integrated then Ok None
                                  else lift_err (secret_get (sql_secret_key connection_id) (se_keyring S))) (\<lambda>password.
                        case js_get ps_id (se_servers S) server_id of
                          None \<Rightarrow> Err [''the job'' @ [CHR 39] @ ''s PBS server no longer exists'']
                        | Some server \<Rightarrow>
                            and_then (lift_err (secret_get (pbs_secret_key server_id) (se_keyring S))) (\<lambda>stored.
                            case stored of
                              None \<Rightarrow> Err [''no saved secret for the PBS server'']
                            | Some secret \<Rightarrow>
                                and_then (lift_pbs (repo_from_str (ps_repository server))) (\<lambda>repo.
                                Ok \<lparr> sp_conn = conn, sp_password = password, sp_repo = repo, sp_pbs_secret = secret,
                                     sp_server_fp = ps_fingerprint server, sp_id = backup_id, sp_crypt = crypt \<rparr>)))))))"

definition ctx_params :: "SqlJobPbs \<Rightarrow> string \<Rightarrow> i64 \<Rightarrow> anyhow + SessionParams" where
  "ctx_params ctx grp backup_time =
     lift_pbs (params_from_repository (sp_repo ctx) (sp_pbs_secret ctx) (sp_server_fp ctx) SQL_BACKUP_TYPE grp backup_time)"

definition ctx_list :: "pbs_env \<Rightarrow> SqlJobPbs \<Rightarrow> ApiClient \<Rightarrow> string \<Rightarrow> anyhow + Snapshot list" where
  "ctx_list P ctx api grp = pe_list P api (datastore (sp_repo ctx)) (namespace (sp_repo ctx)) SQL_BACKUP_TYPE grp"

definition ctx_api :: "SqlJobPbs \<Rightarrow> anyhow + ApiClient" where
  "ctx_api ctx = lift_pbs (api_from_repository (sp_repo ctx) (sp_pbs_secret ctx) (sp_server_fp ctx))"

definition full_group :: "SqlJobPbs \<Rightarrow> string \<Rightarrow> string" where
  "full_group ctx database = fst (sql_group_and_archive (sp_id ctx) database Full)"

definition log_group :: "SqlJobPbs \<Rightarrow> string \<Rightarrow> string" where
  "log_group ctx database = fst (sql_group_and_archive (sp_id ctx) database Log)"

definition sql_archive :: "SqlJobPbs \<Rightarrow> string \<Rightarrow> string" where
  "sql_archive ctx database = snd (sql_group_and_archive (sp_id ctx) database Full)"

definition list_sql_snapshots :: "'a stores_env \<Rightarrow> pbs_env \<Rightarrow> string \<Rightarrow> string \<Rightarrow> anyhow + SnapshotInfo list" where
  "list_sql_snapshots S P job_id database =
     and_then (sql_job_pbs S job_id) (\<lambda>ctx.
     and_then (ctx_api ctx) (\<lambda>api.
     and_then (ctx_list P ctx api (full_group ctx database)) (\<lambda>snapshots.
     Ok (map (\<lambda>s. \<lparr> si_backup_time = sn_backup_time s, si_size = sn_size s \<rparr>) snapshots))))"

section \<open>The restore window\<close>

text \<open>\<open>Iterator::min\<close> and \<open>max\<close> of signed times.\<close>

definition time_min :: "i64 list \<Rightarrow> i64 option" where
  "time_min ts = (if ts = [] then None else Some (of_int (Min (sint ` set ts))))"

definition time_max :: "i64 list \<Rightarrow> i64 option" where
  "time_max ts = (if ts = [] then None else Some (of_int (Max (sint ` set ts))))"

text \<open>The total of the log sizes, unknown when one of them is.\<close>

fun sum_sizes :: "u64 \<Rightarrow> u64 option list \<Rightarrow> u64 option" where
  "sum_sizes acc [] = Some acc"
| "sum_sizes acc (s # ss) = (case s of None \<Rightarrow> None | Some v \<Rightarrow> sum_sizes (acc + v) ss)"

definition restore_window :: "Snapshot list \<Rightarrow> Snapshot list \<Rightarrow> SqlRestoreWindow" where
  "restore_window fulls logs =
     (let sorted_fulls = sort_key (\<lambda>s. - sint (sn_backup_time s)) fulls;
          pit = (logs \<noteq> [] \<and> fulls \<noteq> [])
      in \<lparr> rw_full_points = map (\<lambda>s. \<lparr> fp_backup_time = sn_backup_time s, fp_size = sn_size s \<rparr>) sorted_fulls,
           rw_pit_earliest = (if pit then time_min (map sn_backup_time sorted_fulls) else None),
           rw_pit_latest = (if pit then time_max (map sn_backup_time (sorted_fulls @ logs)) else None),
           rw_log_count = of_nat (length logs),
           rw_log_total_size = sum_sizes 0 (map sn_size logs) \<rparr>)"

definition get_sql_restore_window :: "'a stores_env \<Rightarrow> pbs_env \<Rightarrow> string \<Rightarrow> string \<Rightarrow> anyhow + SqlRestoreWindow" where
  "get_sql_restore_window S P job_id database =
     and_then (sql_job_pbs S job_id) (\<lambda>ctx.
     and_then (ctx_api ctx) (\<lambda>api.
     and_then (ctx_list P ctx api (full_group ctx database)) (\<lambda>fulls.
     let logs = (case ctx_list P ctx api (log_group ctx database) of Inl _ \<Rightarrow> [] | Inr l \<Rightarrow> l)
     in Ok (restore_window fulls logs))))"

section \<open>The chain\<close>

definition download_sql_meta :: "pbs_env \<Rightarrow> SqlJobPbs \<Rightarrow> string \<Rightarrow> i64 \<Rightarrow> anyhow + SqlBackupMeta" where
  "download_sql_meta P ctx grp backup_time =
     and_then (ctx_params ctx grp backup_time) (\<lambda>params.
     and_then (pe_connect P params) (\<lambda>_.
     and_then (pe_blob P params META_BLOB_NAME (sp_crypt ctx)) (\<lambda>bs.
     lift_err (pe_parse_meta P bs))))"

definition has_meta :: "Snapshot \<Rightarrow> bool" where
  "has_meta s = list_ex (\<lambda>f. sf_filename f = META_BLOB_NAME) (sn_files s)"

fun group_items :: "pbs_env \<Rightarrow> SqlJobPbs \<Rightarrow> string \<Rightarrow> Snapshot list \<Rightarrow> anyhow + ChainItem list" where
  "group_items P ctx grp [] = Ok []"
| "group_items P ctx grp (s # ss) =
     (if has_meta s then
        and_then (with_context (''reading backup metadata for the snapshot at '' @ show_int (sint (sn_backup_time s)))
                    (download_sql_meta P ctx grp (sn_backup_time s))) (\<lambda>meta.
        and_then (group_items P ctx grp ss) (\<lambda>items.
        Ok (\<lparr> ci_snapshot_time = sn_backup_time s, ci_meta = meta \<rparr> # items)))
      else group_items P ctx grp ss)"

fun groups_items :: "pbs_env \<Rightarrow> SqlJobPbs \<Rightarrow> ApiClient \<Rightarrow> string list \<Rightarrow> anyhow + ChainItem list" where
  "groups_items P ctx api [] = Ok []"
| "groups_items P ctx api (g # gs) =
     and_then (with_context (''listing snapshots in '' @ g) (ctx_list P ctx api g)) (\<lambda>snaps.
     and_then (group_items P ctx g snaps) (\<lambda>items.
     and_then (groups_items P ctx api gs) (\<lambda>rest. Ok (items @ rest))))"

definition read_chain_items :: "pbs_env \<Rightarrow> SqlJobPbs \<Rightarrow> string list \<Rightarrow> anyhow + ChainItem list" where
  "read_chain_items P ctx grps = and_then (ctx_api ctx) (\<lambda>api. groups_items P ctx api grps)"

definition fmt_unix :: "pbs_env \<Rightarrow> i64 \<Rightarrow> string" where
  "fmt_unix P t = (case pe_utc P ''%Y-%m-%d %H:%M:%S UTC'' t of Some s \<Rightarrow> s | None \<Rightarrow> show_int (sint t))"

definition ensure_chain_reaches :: "pbs_env \<Rightarrow> ChainItem list \<Rightarrow> i64 \<Rightarrow> anyhow + unit" where
  "ensure_chain_reaches P chain target =
     (if chain_covers chain target then Ok ()
      else
        let reached = (if chain = [] then target else bm_backup_time (ci_meta (List.last chain)))
        in Err [''the backup chain only reaches '' @ fmt_unix P reached @ '', short of the chosen point ''
                  @ fmt_unix P target @ ''; the log backups needed to reach it are missing or could not be read''])"

text \<open>What both point-in-time paths do first: read the chain, select it, and refuse one that is empty or
  too short.\<close>

definition usable_chain :: "pbs_env \<Rightarrow> SqlJobPbs \<Rightarrow> string \<Rightarrow> i64 \<Rightarrow> anyhow + ChainItem list" where
  "usable_chain P ctx database target =
     and_then (read_chain_items P ctx [full_group ctx database, log_group ctx database]) (\<lambda>items.
     let chain = select_chain items target
     in if chain = [] then Err [''no full backup covers that time; pick a later restore point'']
        else and_then (ensure_chain_reaches P chain target) (\<lambda>_. Ok chain))"


section \<open>Restoring into SQL Server\<close>

fun try_map :: "('a \<Rightarrow> 'e + 'b) \<Rightarrow> 'a list \<Rightarrow> 'e + 'b list" where
  "try_map f [] = Ok []"
| "try_map f (x # xs) = and_then (f x) (\<lambda>y. and_then (try_map f xs) (\<lambda>ys. Ok (y # ys)))"

definition SYSADMIN_QUERY :: string where
  "SYSADMIN_QUERY = ''SELECT IS_SRVROLEMEMBER('' @ [CHR 39] @ ''sysadmin'' @ [CHR 39] @ '')''"

definition preflight_restore_target ::
  "'q vdi_env \<Rightarrow> SqlConnection \<Rightarrow> 'q sql_world \<Rightarrow> (anyhow + unit) \<times> 'q sql_world" where
  "preflight_restore_target E conn w =
     (case with_context (''cannot reach the target SQL Server '' @ sc_server conn) (ve_connect E) of
        Inl e \<Rightarrow> (Err e, w)
      | Inr _ \<Rightarrow>
          let (r, w1) = plain_query E SYSADMIN_QUERY w
          in (and_then r (\<lambda>results.
                if Option.bind (into_row results) (\<lambda>row. row_int row ''0'') = Some 1 then Ok ()
                else Err [''the target connection to '' @ sc_server conn @ '' is not a sysadmin, which VDI restore requires'']),
              w1))"

definition download_sql_image :: "pbs_env \<Rightarrow> SqlJobPbs \<Rightarrow> string \<Rightarrow> string \<Rightarrow> i64 \<Rightarrow> anyhow + bytes" where
  "download_sql_image P ctx grp archive backup_time =
     and_then (ctx_params ctx grp backup_time) (\<lambda>params.
     and_then (pe_connect P params) (\<lambda>_. pe_archive P params archive (sp_crypt ctx)))"

definition STREAMING :: Reply where "STREAMING = LogLine ''streaming the restore from PBS into SQL Server''"
definition BUFFERED :: Reply where
  "BUFFERED = LogLine ''older backup without a stored file list; using a buffered restore''"

definition NO_FILE_LIST :: "string \<Rightarrow> string \<Rightarrow> string" where
  "NO_FILE_LIST what how =
     ''this '' @ what @ '' predates the stored file list, so a renamed or cross-instance '' @ how
       @ ''restore over the relay is not possible; restore it under its original name, or run the restore from pbsgui installed on the SQL host''"

definition run_restore_full ::
  "pbs_env \<Rightarrow> 'q vdi_env \<Rightarrow> SqlJobPbs \<Rightarrow> string \<Rightarrow> string \<Rightarrow> i64 \<Rightarrow> bool \<Rightarrow> 'q sql_world
     \<Rightarrow> (anyhow + string) \<times> Reply list \<times> 'q sql_world" where
  "run_restore_full P E ctx database target backup_time foreign w =
     (let grp = full_group ctx database; archive = sql_archive ctx database;
          relocate = (\<not> eq_ignore_case database target \<or> foreign);
          files = (if relocate
                   then (case download_sql_meta P ctx grp backup_time of Inl _ \<Rightarrow> [] | Inr m \<Rightarrow> bm_files m)
                   else []);
          server = sc_server (sp_conn ctx); relay = sc_relay_agent (sp_conn ctx);
          start = LogLine (''restoring as ['' @ target @ ''] (overwrites it if it exists)'');
          done = (\<lambda>_. Ok (''restored '' @ database @ '' as '' @ target))
      in if \<not> relocate \<or> files \<noteq> [] then
           (case ctx_params ctx grp backup_time of
              Inl e \<Rightarrow> (Err e, [start, STREAMING], w)
            | Inr pbs \<Rightarrow>
                let (r, w1) = restore_database_streamed E server database target relay pbs archive (sp_crypt ctx) files foreign w
                in (and_then r done, [start, STREAMING], w1))
         else if relay \<noteq> None then (Err [NO_FILE_LIST ''snapshot'' ''''], [start], w)
         else
           (case download_sql_image P ctx grp archive backup_time of
              Inl e \<Rightarrow> (Err e, [start, BUFFERED], w)
            | Inr img \<Rightarrow>
                let (r, w1) = restore_database_from_image E server database target img foreign w
                in (and_then r done, [start, BUFFERED], w1)))"

text \<open>The group a backup of the chain lies in.\<close>

definition item_group :: "SqlJobPbs \<Rightarrow> string \<Rightarrow> ChainItem \<Rightarrow> string" where
  "item_group ctx database item =
     (if meta_is_log (ci_meta item) then log_group ctx database else full_group ctx database)"

definition stream_step :: "SqlJobPbs \<Rightarrow> string \<Rightarrow> ChainItem \<Rightarrow> anyhow + bool \<times> SessionParams \<times> string" where
  "stream_step ctx database item =
     and_then (ctx_params ctx (item_group ctx database item) (ci_snapshot_time item)) (\<lambda>pbs.
     Ok (meta_is_log (ci_meta item), pbs, sql_archive ctx database))"

definition image_step :: "pbs_env \<Rightarrow> SqlJobPbs \<Rightarrow> string \<Rightarrow> ChainItem \<Rightarrow> anyhow + bool \<times> bytes" where
  "image_step P ctx database item =
     and_then (download_sql_image P ctx (item_group ctx database item) (sql_archive ctx database) (ci_snapshot_time item))
       (\<lambda>img. Ok (meta_is_log (ci_meta item), img))"

definition chain_files :: "ChainItem list \<Rightarrow> SqlBackupFile list" where
  "chain_files chain =
     (case find (\<lambda>c. \<not> meta_is_log (ci_meta c)) chain of None \<Rightarrow> [] | Some c \<Rightarrow> bm_files (ci_meta c))"

definition READING_CHAIN :: Reply where "READING_CHAIN = LogLine ''reading the backup chain''"

definition run_restore_pit ::
  "pbs_env \<Rightarrow> 'q vdi_env \<Rightarrow> SqlJobPbs \<Rightarrow> string \<Rightarrow> string \<Rightarrow> i64 \<Rightarrow> bool \<Rightarrow> 'q sql_world
     \<Rightarrow> (anyhow + string) \<times> Reply list \<times> 'q sql_world" where
  "run_restore_pit P E ctx database target target_unix foreign w =
     (case usable_chain P ctx database target_unix of
        Inl e \<Rightarrow> (Err e, [READING_CHAIN], w)
      | Inr chain \<Rightarrow>
          let logs = [READING_CHAIN,
                LogLine (''restoring 1 full + '' @ show_nat (length chain - 1) @ '' log backup(s) to the chosen point'')];
              relocate = (\<not> eq_ignore_case database target \<or> foreign);
              files = chain_files chain;
              server = sc_server (sp_conn ctx); relay = sc_relay_agent (sp_conn ctx);
              done = (\<lambda>_. Ok (''restored '' @ database @ '' as '' @ target @ '' to the chosen point in time''))
          in if \<not> relocate \<or> files \<noteq> [] then
               (case try_map (stream_step ctx database) chain of
                  Inl e \<Rightarrow> (Err e, logs @ [STREAMING], w)
                | Inr steps \<Rightarrow>
                    let (r, w1) = restore_chain_streamed E server database target relay steps (sp_crypt ctx) files
                                    target_unix foreign w
                    in (and_then r done, logs @ [STREAMING], w1))
             else if relay \<noteq> None then (Err [NO_FILE_LIST ''chain'' ''point-in-time ''], logs, w)
             else
               (case try_map (image_step P ctx database) chain of
                  Inl e \<Rightarrow> (Err e, logs @ [BUFFERED], w)
                | Inr steps \<Rightarrow>
                    let (r, w1) = restore_chain E server database target steps target_unix foreign w
                    in (and_then r done, logs @ [BUFFERED], w1)))"

text \<open>The target instance: the job's own, or a saved connection; another server or port makes it a
  different instance, which is checked first.\<close>

definition cross_instance :: "SqlConnection \<Rightarrow> SqlConnection \<Rightarrow> bool" where
  "cross_instance target conn =
     (\<not> eq_ignore_case (sc_server target) (sc_server conn) \<or> sc_port target \<noteq> sc_port conn)"

definition choose_target ::
  "'a stores_env \<Rightarrow> (SqlConnection \<Rightarrow> string option \<Rightarrow> 'q vdi_env) \<Rightarrow> string option \<Rightarrow> SqlJobPbs \<Rightarrow> 'q sql_world
     \<Rightarrow> (anyhow + SqlJobPbs \<times> bool) \<times> Reply list \<times> 'q sql_world" where
  "choose_target S V target_connection ctx w =
     (case target_connection of
        None \<Rightarrow> (Ok (ctx, False), [], w)
      | Some tid \<Rightarrow>
          (case js_get sc_id (se_conns S) tid of
             None \<Rightarrow> (Err [''no such target SQL connection: '' @ tid], [], w)
           | Some target \<Rightarrow>
               (case lift_err (secret_get (sql_secret_key tid) (se_keyring S)) of
                  Inl e \<Rightarrow> (Err e, [], w)
                | Inr password \<Rightarrow>
                    let ctx1 = ctx \<lparr> sp_conn := target, sp_password := password \<rparr> in
                    if cross_instance target (sp_conn ctx) then
                      (case preflight_restore_target (V target password) target w of
                         (Inl e, w1) \<Rightarrow> (Err e, [], w1)
                       | (Inr _, w1) \<Rightarrow>
                           (Ok (ctx1, True), [LogLine (''restoring into '' @ sc_server target @ '' (a different instance)'')], w1))
                    else (Ok (ctx1, False), [], w))))"

definition run_restore_sql ::
  "'a stores_env \<Rightarrow> pbs_env \<Rightarrow> (SqlConnection \<Rightarrow> string option \<Rightarrow> 'q vdi_env) \<Rightarrow> string \<Rightarrow> string \<Rightarrow> string
     \<Rightarrow> SqlRestorePoint \<Rightarrow> string option \<Rightarrow> 'q sql_world \<Rightarrow> (anyhow + string) \<times> Reply list \<times> 'q sql_world" where
  "run_restore_sql S P V job_id database target point target_connection w =
     (case sql_job_pbs S job_id of
        Inl e \<Rightarrow> (Err e, [], w)
      | Inr ctx \<Rightarrow>
          (case choose_target S V target_connection ctx w of
             (Inl e, logs, w1) \<Rightarrow> (Err e, logs, w1)
           | (Inr (ctx1, foreign), logs, w1) \<Rightarrow>
               let E = V (sp_conn ctx1) (sp_password ctx1);
                   (r, more_logs, w2) =
                     (case point of
                        PointFull backup_time \<Rightarrow> run_restore_full P E ctx1 database target backup_time foreign w1
                      | PointTime unix_time \<Rightarrow> run_restore_pit P E ctx1 database target unix_time foreign w1)
               in (r, logs @ more_logs, w2)))"

text \<open>Every streamed request ends with its outcome.\<close>

definition finished_reply :: "anyhow + string \<Rightarrow> Reply" where
  "finished_reply r = (case r of Inl e \<Rightarrow> Finished False (alt_text e) | Inr msg \<Rightarrow> Finished True msg)"

definition restore_sql ::
  "'a stores_env \<Rightarrow> pbs_env \<Rightarrow> (SqlConnection \<Rightarrow> string option \<Rightarrow> 'q vdi_env) \<Rightarrow> string \<Rightarrow> string \<Rightarrow> string
     \<Rightarrow> SqlRestorePoint \<Rightarrow> string option \<Rightarrow> 'q sql_world \<Rightarrow> Reply list \<times> 'q sql_world" where
  "restore_sql S P V job_id database target point target_connection w =
     (let (r, logs, w1) = run_restore_sql S P V job_id database target point target_connection w
      in (Accepted database # logs @ [finished_reply r], w1))"

section \<open>What a chain is made of\<close>

lemma with_context_Ok [simp]: "with_context c r = Inr x \<longleftrightarrow> r = Inr x"
  by (cases r) (simp_all add: with_context_def)

lemma lift_Ok [simp]: "lift_err r = Inr x \<longleftrightarrow> r = Inr x" "lift_pbs q = Inr y \<longleftrightarrow> q = Inr y"
  by (auto simp: lift_err_def lift_pbs_def map_err_def split: sum.splits)

lemma ctx_params_fields: "ctx_params ctx grp t = Ok p \<Longrightarrow> sp_backup_id p = grp \<and> sp_backup_time p = t"
  by (auto simp: ctx_params_def params_from_repository_def split: option.splits if_splits)

lemma group_items_times:
  "group_items P ctx grp snaps = Ok items \<Longrightarrow>
   map ci_snapshot_time items = map sn_backup_time (filter has_meta snaps)"
  by (induction snaps arbitrary: items) (auto split: if_splits)

lemma group_items_meta:
  "group_items P ctx grp snaps = Ok items \<Longrightarrow> i \<in> set items \<Longrightarrow>
   \<exists>s \<in> set snaps. ci_snapshot_time i = sn_backup_time s \<and> download_sql_meta P ctx grp (sn_backup_time s) = Ok (ci_meta i)"
  by (induction snaps arbitrary: items) (auto split: if_splits)

lemma usable_chain_Ok:
  assumes "usable_chain P ctx database t = Ok chain"
  obtains api fulls logs fs ls where "ctx_api ctx = Ok api"
    "ctx_list P ctx api (full_group ctx database) = Ok fulls" "ctx_list P ctx api (log_group ctx database) = Ok logs"
    "group_items P ctx (full_group ctx database) fulls = Ok fs" "group_items P ctx (log_group ctx database) logs = Ok ls"
    "chain = select_chain (fs @ ls) t" "chain \<noteq> []" "chain_covers chain t"
  using assms
  by (auto simp: usable_chain_def read_chain_items_def ensure_chain_reaches_def Let_def split: if_splits)

lemma select_chain_head:
  "select_chain items t = full # logs \<Longrightarrow>
   full \<in> set items \<and> \<not> item_is_log full \<and> item_time full \<le> sint t \<and>
   (\<forall>i \<in> set items. \<not> item_is_log i \<longrightarrow> item_time i \<le> sint t \<longrightarrow> item_time i \<le> item_time full) \<and>
   set logs \<subseteq> {i \<in> set items. item_is_log i \<and> item_last full < item_last i}"
proof -
  assume "select_chain items t = full # logs"
  then have full: "max_by_key item_time (filter (\<lambda>i. \<not> item_is_log i \<and> item_time i \<le> sint t) items) = Some full"
    and logs: "logs = extend_chain (sint t) (select_logs items (item_last full))"
    by (auto simp: select_chain_def select_full_def split: option.splits)
  obtain rest where "select_logs items (item_last full) = logs @ rest"
    using extend_chain_prefix logs by blast
  then have "set logs \<subseteq> set (select_logs items (item_last full))"
    by simp
  then show ?thesis
    using max_by_key_Some [OF full] by (auto simp: select_logs_set)
qed

lemma restore_chain_success:
  assumes "restore_chain_streamed E server source_db target relay steps crypt fs target_unix force w = (r, w')" "is_ok r"
  obtains queries moves off where "list_all (downloaded E crypt) steps"
    "sw_issued w' = sw_issued w @ queries
      @ step_stmts E crypt (chain_stmt target moves (stopat_text E target_unix off)) 0 (sw_uuids w) steps
      @ [(recover_stmt target, None)]"
    "set queries \<subseteq> {(OFFSET_QUERY, None), (default_dirs_query, None)}"
proof -
  obtain queries moves off k tail where
    i: "sw_issued w' = sw_issued w @ queries
      @ take k (step_stmts E crypt (chain_stmt target moves (stopat_text E target_unix off)) 0 (sw_uuids w) steps) @ tail"
    and q: "set queries \<subseteq> {(OFFSET_QUERY, None), (default_dirs_query, None)}"
    and t: "tail \<in> {[], [(recover_stmt target, None)]}"
      "tail \<noteq> [] \<longrightarrow> k = length steps \<and> list_all (downloaded E crypt) steps" "is_ok r \<longrightarrow> tail \<noteq> []"
    using restore_chain_issued [OF assms(1)] by blast
  then have "tail = [(recover_stmt target, None)]" "k = length steps" "list_all (downloaded E crypt) steps"
    using assms(2) by auto
  then show ?thesis
    using that [of queries moves off] i q by (simp add: step_stmts_length)
qed

section \<open>Properties\<close>


text \<open>A server with a full backup started at 100 and a log backup at 150, each finished five seconds
  later.\<close>

definition demo_snapshot :: "i64 \<Rightarrow> Snapshot" where
  "demo_snapshot t =
     \<lparr> sn_backup_time = t, sn_backup_id = ''host-db'', sn_backup_type = ''host'', sn_size = Some 10,
       sn_files = [\<lparr> sf_filename = META_BLOB_NAME, sf_size = None \<rparr>], sn_owner = None \<rparr>"

definition demo_meta :: "bytes \<Rightarrow> string + SqlBackupMeta" where
  "demo_meta bs =
     (case bs of
        [k, t] \<Rightarrow>
          Ok \<lparr> bm_kind = (if k = 1 then ''log'' else ''full''), bm_backup_time = ucast t + 5,
               bm_first_lsn = show_nat (unat t), bm_last_lsn = show_nat (unat t + 60), bm_database_backup_lsn = [],
               bm_files = [] \<rparr>
      | _ \<Rightarrow> Err ''bad metadata'')"

definition demo_pbs_env :: pbs_env where
  "demo_pbs_env =
     \<lparr> pe_list = (\<lambda>_ _ _ _ grp. Ok (if grp = ''host-db'' then [demo_snapshot 100] else [demo_snapshot 150])),
       pe_connect = (\<lambda>_. Ok ()),
       pe_blob = (\<lambda>p _ _. Ok [if sp_backup_id p = ''host-db'' then 0 else 1, ucast (sp_backup_time p)]),
       pe_archive = (\<lambda>_ _ _. Ok [1, 2, 3]), pe_streamed = (\<lambda>_ _ _. ([1, 2, 3], Ok 3)), pe_parse_meta = demo_meta,
       pe_utc = (\<lambda>_ _. None) \<rparr>"

definition demo_sql_ctx :: SqlJobPbs where
  "demo_sql_ctx =
     \<lparr> sp_conn = \<lparr> sc_id = ''c'', sc_name = ''c'', sc_server = ''srv'', sc_port = None, sc_auth = Integrated,
                   sc_failover_cluster = False, sc_relay_agent = None \<rparr>,
       sp_password = None,
       sp_repo = \<lparr> auth_id = Some ''u@pbs'', host = Some ''h'', port = None, datastore = ''d'', namespace = None \<rparr>,
       sp_pbs_secret = ''s'', sp_server_fp = ''fp'', sp_id = ''host'', sp_crypt = None \<rparr>"

definition demo_pit_run :: "(anyhow + string) \<times> Reply list \<times> unit sql_world" where
  "demo_pit_run =
     run_restore_pit demo_pbs_env demo_vdi_env demo_sql_ctx ''db'' ''DB'' 120 False
       \<lparr> sw_server = (), sw_uuids = 0, sw_issued = [] \<rparr>"

lemma demo_pit_evaluates:
  "map_sum length (map (sint \<circ> ci_snapshot_time)) (usable_chain demo_pbs_env demo_sql_ctx ''db'' 120) = Inr [100, 150]"
  "is_ok (fst demo_pit_run)" "eq_ignore_case ''db'' ''DB''"
  by code_simp+


lemma time_min_le:
  assumes "time_min ts = Some e" "t \<in> set ts"
  shows "sint e \<le> sint t"
proof -
  have "Min (sint ` set ts) \<in> sint ` set ts"
    using assms(2) by (intro Min_in) auto
  then obtain u where u: "u \<in> set ts" "Min (sint ` set ts) = sint u"
    by auto
  then have "sint e = Min (sint ` set ts)"
    using assms(1) by (auto simp: time_min_def split: if_splits)
  then show ?thesis
    using assms(2) by simp
qed

text \<open>The earliest point the restore window offers cannot be restored. The window begins at the
  start of the oldest full backup, but a chain needs a full backup that has finished by the chosen
  time; so when the full backups finish after they start, and the log group holds log backups,
  choosing the offered start of the window is always refused.\<close>

theorem window_start_unreachable:
  assumes "sql_job_pbs S job_id = Ok ctx" "get_sql_restore_window S P job_id database = Ok win"
    and "rw_pit_earliest win = Some e"
    and "\<And>t m. t \<in> fp_backup_time ` set (rw_full_points win) \<Longrightarrow>
           download_sql_meta P ctx (full_group ctx database) t = Ok m \<Longrightarrow> sint t < sint (bm_backup_time m)"
    and "\<And>t m. download_sql_meta P ctx (log_group ctx database) t = Ok m \<Longrightarrow> meta_is_log m"
  shows "\<not> is_ok (usable_chain P ctx database e)"
proof
  assume "is_ok (usable_chain P ctx database e)"
  then obtain api fulls logs fs ls full rest where
    c: "ctx_api ctx = Ok api" "ctx_list P ctx api (full_group ctx database) = Ok fulls"
      "group_items P ctx (full_group ctx database) fulls = Ok fs" "group_items P ctx (log_group ctx database) logs = Ok ls"
    and "select_chain (fs @ ls) e = full # rest"
    by (auto simp: is_ok_iff neq_Nil_conv elim!: usable_chain_Ok)
  then have full: "full \<in> set fs \<or> full \<in> set ls" "\<not> item_is_log full" "item_time full \<le> sint e"
    using select_chain_head by force+
  have "full \<in> set fs"
    using full(1,2) group_items_meta [OF c(4)] assms(5) by auto
  then obtain s where s: "s \<in> set fulls" "download_sql_meta P ctx (full_group ctx database) (sn_backup_time s) = Ok (ci_meta full)"
    using group_items_meta [OF c(3)] by blast
  obtain lg where win: "win = restore_window fulls lg"
    using assms(1,2) c(1,2) by (auto simp: get_sql_restore_window_def Let_def)
  then have "sn_backup_time s \<in> fp_backup_time ` set (rw_full_points win)"
    using s(1) by (force simp: restore_window_def Let_def)
  then have "sint (sn_backup_time s) < item_time full"
    using assms(4) s(2) by simp
  moreover have "sint e \<le> sint (sn_backup_time s)"
    using assms(3) s(1) by (intro time_min_le [of "map sn_backup_time (sort_key (\<lambda>s. - sint (sn_backup_time s)) fulls)"])
      (auto simp: win restore_window_def Let_def split: if_splits)
  ultimately show False
    using full(3) by simp
qed

definition demo_jobs :: "Job json_store" where
  "demo_jobs =
     \<lparr> js_items = [\<lparr> j_id = ''j'', j_name = ''nightly'', j_source = Sql ''c'' [''db''] (PointInTime Manual 15),
           j_destination = Pbs ''p'' ''host'', j_schedule = Manual, j_last_run = None, j_last_status = None,
           j_encrypted = False, j_compress = True \<rparr>],
       js_load_error = None, js_file = NotFound \<rparr>"

definition demo_stores :: "bool list stores_env" where
  "demo_stores =
     \<lparr> se_signer = demo_signer, se_libs = demo_libs, se_jobs = demo_jobs,
       se_conns = \<lparr> js_items = [sp_conn demo_sql_ctx], js_load_error = None, js_file = NotFound \<rparr>,
       se_servers = \<lparr> js_items = [\<lparr> ps_id = ''p'', ps_name = ''p'', ps_repository = ''u@pbs@h:d'', ps_fingerprint = ''fp'' \<rparr>],
         js_load_error = None, js_file = NotFound \<rparr>,
       se_keyring = \<lparr> kr_secrets = [pbs_secret_key ''p'' \<mapsto> ''s''], kr_error = None \<rparr> \<rparr>"

lemma demo_job_resolves: "sql_job_pbs demo_stores ''j'' = Ok demo_sql_ctx"
proof -
  have "repo_from_str ''u@pbs@h:d'' = Ok (sp_repo demo_sql_ctx)"
    by code_simp
  then show ?thesis
    by (simp add: sql_job_pbs_def demo_stores_def demo_jobs_def get_job_def js_get_def load_config_def secret_get_def lift_err_def
          lift_pbs_def map_err_def enc_secret_key_def pbs_secret_key_def demo_sql_ctx_def)
qed

lemma demo_window_evaluates:
  "map_sum length (\<lambda>win. (rw_pit_earliest win, map fp_backup_time (rw_full_points win)))
     (get_sql_restore_window demo_stores demo_pbs_env ''j'' ''db'') = Inr (Some 100, [100])"
  unfolding get_sql_restore_window_def demo_job_resolves and_then.simps
  by code_simp

lemma demo_full_meta:
  "map_sum length (sint \<circ> bm_backup_time)
     (download_sql_meta demo_pbs_env demo_sql_ctx (full_group demo_sql_ctx ''db'') 100) = Inr 105"
  by code_simp

lemma demo_log_meta:
  assumes "download_sql_meta demo_pbs_env demo_sql_ctx (log_group demo_sql_ctx ''db'') t = Ok m"
  shows "meta_is_log m"
proof -
  obtain p where "ctx_params demo_sql_ctx (log_group demo_sql_ctx ''db'') t = Ok p" "demo_meta [if sp_backup_id p = ''host-db'' then 0 else 1, ucast (sp_backup_time p)] = Ok m"
    using assms by (auto simp: download_sql_meta_def demo_pbs_env_def)
  moreover have "log_group demo_sql_ctx ''db'' = ''host-db-log''" "eq_ignore_case ''log'' ''log''"
    by code_simp+
  ultimately show ?thesis
    using ctx_params_fields by (auto simp: demo_meta_def meta_is_log_def)
qed

theorem window_start_unreachable_witness:
  "\<exists>win. get_sql_restore_window demo_stores demo_pbs_env ''j'' ''db'' = Ok win \<and> rw_pit_earliest win = Some 100 \<and>
     \<not> is_ok (usable_chain demo_pbs_env demo_sql_ctx ''db'' 100)"
proof -
  obtain win where win: "get_sql_restore_window demo_stores demo_pbs_env ''j'' ''db'' = Ok win"
    "rw_pit_earliest win = Some 100" "map fp_backup_time (rw_full_points win) = [100]"
    using demo_window_evaluates by (cases "get_sql_restore_window demo_stores demo_pbs_env ''j'' ''db''") auto
  have "\<not> is_ok (usable_chain demo_pbs_env demo_sql_ctx ''db'' 100)"
  proof (rule window_start_unreachable [OF demo_job_resolves win(1,2) _ demo_log_meta])
    fix t m
    assume "t \<in> fp_backup_time ` set (rw_full_points win)"
      "download_sql_meta demo_pbs_env demo_sql_ctx (full_group demo_sql_ctx ''db'') t = Ok m"
    moreover from this(1) have "t = 100"
      using arg_cong [OF win(3), of set] by simp
    ultimately show "sint t < sint (bm_backup_time m)"
      using demo_full_meta by simp
  qed
  with win show ?thesis
    by blast
qed

end
