(* ===== verification/SqlExport.thy ===== *)
theory SqlExport
  imports SqlRestore
begin

text \<open>
  Saving SQL Server backups to a folder (\<open>pbsgui-engine/src/handler.rs\<close>) and network destinations
  (\<open>pbsgui-engine/src/netdest.rs\<close>).

  The file system is a map from paths to contents; \<open>export_env\<close> holds the outcomes of the system
  calls, the errors being \<open>Some\<close> text. The world also holds the open connections to network shares.
  Paths are joined as on Windows; the names joined here are plain file names.
\<close>

section \<open>Destinations\<close>

record export_env =
  xe_mkdir :: "string \<Rightarrow> string option"
  xe_create :: "string \<Rightarrow> string option"
  xe_flush :: "string \<Rightarrow> string option"
  xe_remove :: "string \<Rightarrow> bool"
  xe_rename :: "string \<Rightarrow> string \<Rightarrow> string option"
  xe_exists :: string
  xe_write :: "string \<Rightarrow> (nat \<times> string) option"
  xe_net :: "string \<Rightarrow> string \<Rightarrow> string \<Rightarrow> nat"
  xe_pid :: nat

record export_world =
  xw_files :: "string \<rightharpoonup> bytes"
  xw_shares :: "string list"

definition BACKSLASH :: char where "BACKSLASH = CHR 92"

definition join_prefix :: "string \<Rightarrow> string" where
  "join_prefix dir =
     (if dir = [] \<or> is_sep (last dir) \<or> length dir = 2 \<and> last dir = CHR '':'' then dir else dir @ [BACKSLASH])"

definition path_join :: "string \<Rightarrow> string \<Rightarrow> string" where
  "path_join dir name = join_prefix dir @ name"

definition unc_share_root :: "string \<Rightarrow> string option" where
  "unc_share_root path =
     (let p = map (\<lambda>c. if c = CHR ''/'' then BACKSLASH else c) path in
      case p of
        a # b # rest \<Rightarrow>
          if a = BACKSLASH \<and> b = BACKSLASH then
            (case filter (\<lambda>s. s \<noteq> []) (split_on BACKSLASH rest) of
               server # share # _ \<Rightarrow> Some ([BACKSLASH, BACKSLASH] @ server @ [BACKSLASH] @ share)
             | _ \<Rightarrow> None)
          else None
      | _ \<Rightarrow> None)"

definition NO_ERROR :: nat where "NO_ERROR = 0"
definition ERROR_ACCESS_DENIED :: nat where "ERROR_ACCESS_DENIED = 5"
definition ERROR_BAD_NETPATH :: nat where "ERROR_BAD_NETPATH = 53"
definition ERROR_BAD_NET_NAME :: nat where "ERROR_BAD_NET_NAME = 67"
definition ERROR_ALREADY_ASSIGNED :: nat where "ERROR_ALREADY_ASSIGNED = 85"
definition ERROR_SESSION_CREDENTIAL_CONFLICT :: nat where "ERROR_SESSION_CREDENTIAL_CONFLICT = 1219"
definition ERROR_LOGON_FAILURE :: nat where "ERROR_LOGON_FAILURE = 1326"

definition connect_share :: "export_env \<Rightarrow> string \<Rightarrow> DestCredentials \<Rightarrow> export_world \<Rightarrow> (anyhow + string) \<times> export_world" where
  "connect_share X root c w =
     (let err = xe_net X root (dc_username c) (dc_password c) in
      if err = NO_ERROR then (Ok root, w \<lparr> xw_shares := root # xw_shares w \<rparr>)
      else
        (Err [if err = ERROR_LOGON_FAILURE \<or> err = ERROR_ACCESS_DENIED then
                ''access to '' @ root @ '' was denied: the username or password was rejected, or that account lacks permission on the share''
              else if err = ERROR_BAD_NETPATH \<or> err = ERROR_BAD_NET_NAME then
                ''network path '' @ root @ '' was not found (check the server and share name)''
              else if err = ERROR_SESSION_CREDENTIAL_CONFLICT \<or> err = ERROR_ALREADY_ASSIGNED then
                root @ '' is already connected on this host with different credentials; disconnect it first (net use ''
                  @ root @ '' /delete)''
              else ''could not connect to '' @ root @ '' (Windows error '' @ show_nat err @ '')''], w))"

text \<open>Dropping the guard disconnects.\<close>

definition drop_connection :: "string option \<Rightarrow> export_world \<Rightarrow> export_world" where
  "drop_connection conn w = (case conn of None \<Rightarrow> w | Some root \<Rightarrow> w \<lparr> xw_shares := remove1 root (xw_shares w) \<rparr>)"

definition probe_path :: "export_env \<Rightarrow> string \<Rightarrow> string" where
  "probe_path X dir = path_join dir (''.pbsgui-write-test-'' @ show_nat (xe_pid X))"

definition remove_file :: "export_env \<Rightarrow> string \<Rightarrow> export_world \<Rightarrow> export_world" where
  "remove_file X p w = (if xe_remove X p then w \<lparr> xw_files := (xw_files w)(p := None) \<rparr> else w)"

definition validate_writable_dir :: "export_env \<Rightarrow> string \<Rightarrow> export_world \<Rightarrow> (anyhow + unit) \<times> export_world" where
  "validate_writable_dir X dir w =
     (case xe_mkdir X dir of
        Some e \<Rightarrow>
          (Err [''cannot create or reach the destination folder '' @ dir @ '': '' @ e
                  @ '' (if it is a network path, provide credentials with access, or check the service account''
                  @ [CHR 39] @ ''s rights on the share)''], w)
      | None \<Rightarrow>
          let probe = probe_path X dir in
          (case xe_create X probe of
             Some e \<Rightarrow>
               (Err [''cannot write to the destination folder '' @ dir @ '': '' @ e
                       @ '' (check the credentials or the account'' @ [CHR 39] @ ''s permissions)''], w)
           | None \<Rightarrow> (Ok (), remove_file X probe (w \<lparr> xw_files := (xw_files w)(probe \<mapsto> []) \<rparr>))))"

definition prepare_destination ::
  "export_env \<Rightarrow> string \<Rightarrow> DestCredentials option \<Rightarrow> export_world \<Rightarrow> (anyhow + string option) \<times> export_world" where
  "prepare_destination X destination creds w =
     (let (conn, w1) =
            (case creds of
               None \<Rightarrow> (Ok None, w)
             | Some c \<Rightarrow>
                 (case unc_share_root destination of
                    None \<Rightarrow>
                      (Err [''destination credentials only apply to a network path like '' @ [BACKSLASH, BACKSLASH] @ ''server''
                              @ [BACKSLASH] @ ''share'' @ [BACKSLASH] @ ''folder; '' @ [CHR 39] @ destination @ [CHR 39]
                              @ '' is not one''], w)
                  | Some root \<Rightarrow> apfst (\<lambda>r. and_then r (\<lambda>g. Ok (Some g))) (connect_share X root c w)))
      in case conn of
           Inl e \<Rightarrow> (Err e, w1)
         | Inr g \<Rightarrow>
             (case validate_writable_dir X destination w1 of
                (Inl e, w2) \<Rightarrow> (Err e, drop_connection g w2)
              | (Inr _, w2) \<Rightarrow> (Ok g, w2)))"

section \<open>Names and texts\<close>

definition sanitize_filename :: "string \<Rightarrow> string" where
  "sanitize_filename value =
     (let s = map (\<lambda>c. if is_alnum c \<or> c = CHR ''.'' \<or> c = CHR ''_'' \<or> c = CHR ''-'' then c else CHR ''_'')
                (filter (\<lambda>c. \<not> utf8_continuation c) value)
      in if s = [] then ''database'' else s)"

definition file_stamp :: "pbs_env \<Rightarrow> i64 \<Rightarrow> string" where
  "file_stamp P t = (case pe_utc P ''%Y%m%dT%H%M%SZ'' t of Some s \<Rightarrow> s | None \<Rightarrow> show_int (sint t))"

definition human_size :: "u64 \<Rightarrow> string" where
  "human_size n =
     (let r = to_f64 (unat n); u = unit_loop r 0 in
      if u = 0 then show_nat (unat n) @ '' B''
      else let h = div_half_even (10 * r) (1024 ^ u) in
           show_nat (h div 10) @ ''.'' @ show_nat (h mod 10) @ '' '' @ [''B'', ''KiB'', ''MiB'', ''GiB'', ''TiB''] ! u)"

definition full_name :: "pbs_env \<Rightarrow> string \<Rightarrow> i64 \<Rightarrow> string" where
  "full_name P database t = sanitize_filename database @ ''-'' @ file_stamp P t @ ''.bak''"

definition chain_name :: "pbs_env \<Rightarrow> string \<Rightarrow> nat \<Rightarrow> ChainItem \<Rightarrow> string" where
  "chain_name P database i item =
     (let is_log = meta_is_log (ci_meta item) in
      sanitize_filename database @ ''-'' @ pad2 (i + 1) @ ''-'' @ (if is_log then ''LOG'' else ''FULL'') @ ''-''
        @ file_stamp P (ci_snapshot_time item) @ ''.'' @ (if is_log then ''trn'' else ''bak''))"

definition steps_name :: "string \<Rightarrow> string" where
  "steps_name database = sanitize_filename database @ ''-RESTORE-STEPS.txt''"

definition CRLF :: string where "CRLF = [CHR 13, CHR 10]"

definition from_disk :: "string \<Rightarrow> nat \<Rightarrow> string \<Rightarrow> string" where
  "from_disk what n name = show_nat n @ '') RESTORE '' @ what @ '' [RestoredDB] FROM DISK = N'' @ [CHR 39] @ name @ [CHR 39]"

text \<open>The statements for the logs, numbered from \<open>n\<close>; the last one stops at the target and recovers.\<close>

fun log_steps :: "string \<Rightarrow> nat \<Rightarrow> string list \<Rightarrow> string list" where
  "log_steps target n [] = []"
| "log_steps target n (log # logs) =
     [from_disk ''LOG'' n log,
      if logs = [] then ''       WITH STOPAT = N'' @ [CHR 39] @ target @ [CHR 39] @ '', RECOVERY;''
      else ''       WITH NORECOVERY;''] @ log_steps target (n + 1) logs"

definition build_restore_steps :: "pbs_env \<Rightarrow> string \<Rightarrow> (string \<times> bool) list \<Rightarrow> i64 \<Rightarrow> string" where
  "build_restore_steps P database files target_unix =
     (let target = (case pe_utc P ''%Y-%m-%d %H:%M:%S'' target_unix of Some s \<Rightarrow> s | None \<Rightarrow> show_int (sint target_unix));
          full = (case find (\<lambda>f. \<not> snd f) files of None \<Rightarrow> ''<full>.bak'' | Some f \<Rightarrow> fst f);
          logs = map fst (filter snd files)
      in join_with CRLF
           ([''SQL Server restore steps for '' @ [CHR 34] @ database @ [CHR 34],
             ''Exported from Proxmox Backup Server by pbsgui. These are native SQL Server'',
             ''backup files; restore them on any SQL Server with the statements below, run'',
             ''in order (SQL Server Management Studio or sqlcmd).'', '''', ''Before running:'',
             ''  - Change [RestoredDB] to the database name you want.'',
             ''  - Prefix each file name with the full path to this folder.'']
            @ (if logs = [] then []
               else [''  - Recovering to '' @ target @ '' (UTC). STOPAT below uses the SERVER'' @ [CHR 39] @ ''s local'',
                     ''    time, so adjust it to your server'' @ [CHR 39] @ ''s timezone.''])
            @ [''''] @ [from_disk ''DATABASE'' 1 full]
            @ (if logs = [] then [''       WITH REPLACE, RECOVERY;''] else [''       WITH REPLACE, NORECOVERY;''])
            @ log_steps target 2 logs @ ['''']))"

section \<open>Export\<close>

definition download_sql_image_to_file ::
  "pbs_env \<Rightarrow> export_env \<Rightarrow> SqlJobPbs \<Rightarrow> string \<Rightarrow> string \<Rightarrow> i64 \<Rightarrow> string \<Rightarrow> export_world \<Rightarrow> (anyhow + u64) \<times> export_world" where
  "download_sql_image_to_file P X ctx grp archive backup_time final w =
     (if xw_files w final \<noteq> None then (Err [final @ '' already exists''], w)
      else
        case and_then (ctx_params ctx grp backup_time) (\<lambda>params. and_then (pe_connect P params) (\<lambda>_. Ok params)) of
          Inl e \<Rightarrow> (Err e, w)
        | Inr params \<Rightarrow>
            let tmp = final @ ''.partial'' in
            (case xe_create X tmp of
               Some e \<Rightarrow> (Err [''creating '' @ tmp @ '': '' @ e], w)
             | None \<Rightarrow>
                 let (content, streamed) = pe_streamed P params archive (sp_crypt ctx);
                     w1 = w \<lparr> xw_files := (xw_files w)(tmp \<mapsto> content) \<rparr>
                 in (case (streamed, xe_flush X tmp) of
                       (Inl e, _) \<Rightarrow> (Err e, remove_file X tmp w1)
                     | (Inr _, Some e) \<Rightarrow> (Err [''writing '' @ tmp @ '': '' @ e], remove_file X tmp w1)
                     | (Inr n, None) \<Rightarrow>
                         (case xe_rename X tmp final of
                            Some e \<Rightarrow> (Err [''finalising '' @ final @ '': '' @ e], w1)
                          | None \<Rightarrow> (Ok n, w1 \<lparr> xw_files := (xw_files w1)(final \<mapsto> content, tmp := None) \<rparr>)))))"

definition write_export_file :: "export_env \<Rightarrow> string \<Rightarrow> bytes \<Rightarrow> export_world \<Rightarrow> (anyhow + unit) \<times> export_world" where
  "write_export_file X path content w =
     (if xw_files w path \<noteq> None then (Err [''creating '' @ path @ '': '' @ xe_exists X], w)
      else
        case xe_create X path of
          Some e \<Rightarrow> (Err [''creating '' @ path @ '': '' @ e], w)
        | None \<Rightarrow>
            (case xe_write X path of
               Some (n, e) \<Rightarrow>
                 (Err [''writing '' @ path @ '': '' @ e], w \<lparr> xw_files := (xw_files w)(path \<mapsto> take n content) \<rparr>)
             | None \<Rightarrow> (Ok (), w \<lparr> xw_files := (xw_files w)(path \<mapsto> content) \<rparr>)))"

definition export_sql_full ::
  "pbs_env \<Rightarrow> export_env \<Rightarrow> SqlJobPbs \<Rightarrow> string \<Rightarrow> i64 \<Rightarrow> string \<Rightarrow> export_world
     \<Rightarrow> (anyhow + string) \<times> Reply list \<times> export_world" where
  "export_sql_full P X ctx database backup_time dir w =
     (let name = full_name P database backup_time; path = path_join dir name;
          start = LogLine (''downloading the full backup from PBS to '' @ name);
          (r, w1) = download_sql_image_to_file P X ctx (full_group ctx database) (sql_archive ctx database) backup_time path w
      in case r of
           Inl e \<Rightarrow> (Err e, [start], w1)
         | Inr n \<Rightarrow>
             (Ok (''saved '' @ database @ '' to '' @ path), [start, LogLine (''wrote '' @ name @ '' ('' @ human_size n @ '')'')], w1))"

text \<open>The files of a chain, in order; the first failure ends the export.\<close>

fun export_items ::
  "pbs_env \<Rightarrow> export_env \<Rightarrow> SqlJobPbs \<Rightarrow> string \<Rightarrow> string \<Rightarrow> nat \<Rightarrow> ChainItem list \<Rightarrow> export_world
     \<Rightarrow> (anyhow + (string \<times> bool) list) \<times> Reply list \<times> export_world" where
  "export_items P X ctx database dir i [] w = (Ok [], [], w)"
| "export_items P X ctx database dir i (item # items) w =
     (let name = chain_name P database i item;
          (r, w1) = download_sql_image_to_file P X ctx (item_group ctx database item) (sql_archive ctx database)
                      (ci_snapshot_time item) (path_join dir name) w
      in case r of
           Inl e \<Rightarrow> (Err e, [], w1)
         | Inr n \<Rightarrow>
             let (rest, logs, w2) = export_items P X ctx database dir (i + 1) items w1
             in (and_then rest (\<lambda>fs. Ok ((name, meta_is_log (ci_meta item)) # fs)),
                 LogLine (''wrote '' @ name @ '' ('' @ human_size n @ '')'') # logs, w2))"

definition export_sql_chain ::
  "pbs_env \<Rightarrow> export_env \<Rightarrow> SqlJobPbs \<Rightarrow> string \<Rightarrow> i64 \<Rightarrow> string \<Rightarrow> export_world
     \<Rightarrow> (anyhow + string) \<times> Reply list \<times> export_world" where
  "export_sql_chain P X ctx database target_unix dir w =
     (case usable_chain P ctx database target_unix of
        Inl e \<Rightarrow> (Err e, [READING_CHAIN], w)
      | Inr chain \<Rightarrow>
          let start = [READING_CHAIN,
                LogLine (''saving 1 full + '' @ show_nat (length chain - 1) @ '' log backup(s) to the chosen point'')];
              (r, logs, w1) = export_items P X ctx database dir 0 chain w
          in (case r of
                Inl e \<Rightarrow> (Err e, start @ logs, w1)
              | Inr files \<Rightarrow>
                  let name = steps_name database;
                      (r2, w2) = write_export_file X (path_join dir name)
                                   (bytes_of (build_restore_steps P database files target_unix)) w1
                  in (case r2 of
                        Inl e \<Rightarrow> (Err e, start @ logs, w2)
                      | Inr _ \<Rightarrow>
                          (Ok (''saved '' @ show_nat (length files + 1) @ '' file(s) for '' @ database @ '' to '' @ dir),
                           start @ logs @ [LogLine (''wrote '' @ name)], w2))))"

definition run_restore_sql_to_file ::
  "'a stores_env \<Rightarrow> pbs_env \<Rightarrow> export_env \<Rightarrow> string \<Rightarrow> string \<Rightarrow> SqlRestorePoint \<Rightarrow> string \<Rightarrow> DestCredentials option
     \<Rightarrow> export_world \<Rightarrow> (anyhow + string) \<times> Reply list \<times> export_world" where
  "run_restore_sql_to_file S P X job_id database point destination creds w =
     (case sql_job_pbs S job_id of
        Inl e \<Rightarrow> (Err e, [], w)
      | Inr ctx \<Rightarrow>
          (case prepare_destination X destination creds w of
             (Inl e, w1) \<Rightarrow> (Err e, [], w1)
           | (Inr conn, w1) \<Rightarrow>
               let (r, logs, w2) =
                     (case point of
                        PointFull backup_time \<Rightarrow> export_sql_full P X ctx database backup_time destination w1
                      | PointTime unix_time \<Rightarrow> export_sql_chain P X ctx database unix_time destination w1)
               in (r, logs, drop_connection conn w2)))"

definition restore_sql_to_file ::
  "'a stores_env \<Rightarrow> pbs_env \<Rightarrow> export_env \<Rightarrow> string \<Rightarrow> string \<Rightarrow> SqlRestorePoint \<Rightarrow> string \<Rightarrow> DestCredentials option
     \<Rightarrow> export_world \<Rightarrow> Reply list \<times> export_world" where
  "restore_sql_to_file S P X job_id database point destination creds w =
     (let (r, logs, w1) = run_restore_sql_to_file S P X job_id database point destination creds w
      in (Accepted database # logs @ [finished_reply r], w1))"

section \<open>What an export may do to the folder\<close>

definition scratch :: "string \<Rightarrow> bool" where
  "scratch p \<longleftrightarrow> (\<exists>q. p = q @ ''.partial'')"

text \<open>Apart from the partial files: existing files stay, and a new file holds a complete download.\<close>

definition whole_files :: "pbs_env \<Rightarrow> CryptConfig option \<Rightarrow> export_world \<Rightarrow> export_world \<Rightarrow> bool" where
  "whole_files P crypt w w' \<longleftrightarrow> xw_shares w' = xw_shares w \<and>
     (\<forall>p. \<not> scratch p \<longrightarrow> xw_files w' p = xw_files w p \<or>
        xw_files w p = None \<and> (\<exists>params archive c n. pe_streamed P params archive crypt = (c, Ok n) \<and> xw_files w' p = Some c))"

lemma whole_files_refl [simp]: "whole_files P crypt w w"
  by (simp add: whole_files_def)

lemma whole_files_trans: "whole_files P crypt w w1 \<Longrightarrow> whole_files P crypt w1 w2 \<Longrightarrow> whole_files P crypt w w2"
  unfolding whole_files_def by (metis option.distinct(1))

lemma whole_files_keeps: "whole_files P crypt w w' \<Longrightarrow> \<not> scratch p \<Longrightarrow> xw_files w p = Some c \<Longrightarrow> xw_files w' p = Some c"
  by (metis option.distinct(1) whole_files_def)

lemma scratch_partial [simp]: "scratch (p @ ''.partial'')"
  by (simp add: scratch_def)

lemma scratch_last: "scratch p \<Longrightarrow> last p = CHR ''l''"
  by (auto simp: scratch_def)

definition stored_whole ::
  "pbs_env \<Rightarrow> SqlJobPbs \<Rightarrow> string \<Rightarrow> i64 \<Rightarrow> string \<Rightarrow> string \<Rightarrow> export_world \<Rightarrow> bool" where
  "stored_whole P ctx grp t archive p w \<longleftrightarrow>
     (\<exists>params c n. ctx_params ctx grp t = Ok params \<and> pe_streamed P params archive (sp_crypt ctx) = (c, Ok n) \<and>
        xw_files w p = Some c)"

lemma download_whole:
  assumes "download_sql_image_to_file P X ctx grp archive t final w = (r, w')"
  shows "whole_files P (sp_crypt ctx) w w'" "is_ok r \<Longrightarrow> stored_whole P ctx grp t archive final w'"
proof -
  have "whole_files P (sp_crypt ctx) w w' \<and> (is_ok r \<longrightarrow> stored_whole P ctx grp t archive final w')"
    using assms
    by (auto simp: download_sql_image_to_file_def whole_files_def stored_whole_def remove_file_def Let_def
          split: if_splits sum.splits option.splits prod.splits) blast
  then show "whole_files P (sp_crypt ctx) w w'" "is_ok r \<Longrightarrow> stored_whole P ctx grp t archive final w'"
    by blast+
qed

lemma stored_whole_stays:
  "stored_whole P ctx grp t archive p w \<Longrightarrow> whole_files P' crypt w w' \<Longrightarrow> \<not> scratch p \<Longrightarrow> stored_whole P ctx grp t archive p w'"
  unfolding stored_whole_def using whole_files_keeps by blast

lemma chain_name_last: "last (path_join dir (chain_name P database i item)) \<in> {CHR ''k'', CHR ''n''}"
  by (simp add: path_join_def chain_name_def Let_def)

lemma chain_name_not_scratch [simp]: "\<not> scratch (path_join dir (chain_name P database i item))"
  using scratch_last chain_name_last [of dir P database i item] by auto

lemma export_items_whole:
  "export_items P X ctx database dir i items w = (r, logs, w') \<Longrightarrow> whole_files P (sp_crypt ctx) w w' \<and>
   (\<forall>files. r = Ok files \<longrightarrow>
      files = map (\<lambda>j. (chain_name P database (i + j) (items ! j), meta_is_log (ci_meta (items ! j)))) [0..<length items] \<and>
      (\<forall>j < length items. stored_whole P ctx (item_group ctx database (items ! j)) (ci_snapshot_time (items ! j))
         (sql_archive ctx database) (path_join dir (chain_name P database (i + j) (items ! j))) w'))"
proof (induction items arbitrary: i w r logs w')
  case (Cons item items)
  obtain r1 w1 where one: "download_sql_image_to_file P X ctx (item_group ctx database item) (sql_archive ctx database)
      (ci_snapshot_time item) (path_join dir (chain_name P database i item)) w = (r1, w1)"
    by fastforce
  obtain r2 logs2 w2 where rest: "export_items P X ctx database dir (i + 1) items w1 = (r2, logs2, w2)"
    by (metis prod_cases3)
  note d = download_whole [OF one] and ih = Cons.IH [OF rest]
  show ?case
  proof (cases r1)
    case (Inl e)
    then show ?thesis
      using Cons.prems one d(1) by (auto simp: Let_def)
  next
    case (Inr n)
    then have w': "w' = w2" "r = and_then r2 (\<lambda>fs. Ok ((chain_name P database i item, meta_is_log (ci_meta item)) # fs))"
      using Cons.prems one rest by (auto simp: Let_def)
    have head: "stored_whole P ctx (item_group ctx database item) (ci_snapshot_time item) (sql_archive ctx database)
        (path_join dir (chain_name P database i item)) w2"
      using d(2) ih Inr by (auto intro: stored_whole_stays)
    show ?thesis
      using whole_files_trans [OF d(1)] ih head unfolding w'
      by (auto simp: All_less_Suc2 upt_conv_Cons map_Suc_upt [symmetric] simp del: upt_Suc)
  qed
qed simp

lemma write_export_file_whole:
  assumes "write_export_file X p content w = (r, w')"
  shows "xw_shares w' = xw_shares w" "\<And>q. q \<noteq> p \<Longrightarrow> xw_files w' q = xw_files w q"
    "xw_files w p = Some c \<Longrightarrow> xw_files w' p = Some c" "is_ok r \<Longrightarrow> xw_files w p = None \<and> xw_files w' p = Some content"
  using assms by (auto simp: write_export_file_def split: if_splits option.splits prod.splits)

text \<open>The effect of the check of the folder: only the probe file, and the connection it opened.\<close>

lemma prepare_destination_effect:
  assumes "prepare_destination X destination creds w = (r, w')"
  shows "\<And>p. p \<noteq> probe_path X destination \<Longrightarrow> xw_files w' p = xw_files w p"
    "\<And>conn. r = Ok conn \<Longrightarrow> xw_shares (drop_connection conn w') = xw_shares w" "\<not> is_ok r \<Longrightarrow> xw_shares w' = xw_shares w"
  using assms
  by (auto simp: prepare_destination_def validate_writable_dir_def connect_share_def drop_connection_def remove_file_def Let_def
        split: if_splits option.splits sum.splits prod.splits)

definition sound_export :: "pbs_env \<Rightarrow> string \<Rightarrow> export_world \<Rightarrow> export_world \<Rightarrow> bool" where
  "sound_export P steps w w' \<longleftrightarrow> xw_shares w' = xw_shares w \<and>
     (\<forall>p. \<not> scratch p \<longrightarrow> xw_files w' p = xw_files w p \<or> xw_files w p = None \<and>
        (p = steps \<or> (\<exists>params archive crypt c n. pe_streamed P params archive crypt = (c, Ok n) \<and> xw_files w' p = Some c)))"

lemma whole_files_sound: "whole_files P crypt w w' \<Longrightarrow> sound_export P steps w w'"
  unfolding whole_files_def sound_export_def by blast

lemma export_sql_full_sound:
  assumes "export_sql_full P X ctx database t dir w = (r, logs, w')"
  shows "sound_export P steps w w'" "is_ok r \<Longrightarrow>
    stored_whole P ctx (full_group ctx database) t (sql_archive ctx database) (path_join dir (full_name P database t)) w'"
proof -
  obtain r1 where d: "download_sql_image_to_file P X ctx (full_group ctx database) (sql_archive ctx database) t
      (path_join dir (full_name P database t)) w = (r1, w')" and "is_ok r \<longleftrightarrow> is_ok r1"
    using assms by (auto simp: export_sql_full_def Let_def split: prod.splits sum.splits)
  then show "sound_export P steps w w'" "is_ok r \<Longrightarrow>
    stored_whole P ctx (full_group ctx database) t (sql_archive ctx database) (path_join dir (full_name P database t)) w'"
    using whole_files_sound [OF download_whole(1) [OF d]] download_whole(2) [OF d] by blast+
qed

definition chain_files_named :: "pbs_env \<Rightarrow> string \<Rightarrow> ChainItem list \<Rightarrow> (string \<times> bool) list" where
  "chain_files_named P database chain =
     map (\<lambda>i. (chain_name P database i (chain ! i), meta_is_log (ci_meta (chain ! i)))) [0..<length chain]"

definition chain_saved :: "pbs_env \<Rightarrow> SqlJobPbs \<Rightarrow> string \<Rightarrow> i64 \<Rightarrow> string \<Rightarrow> ChainItem list \<Rightarrow> export_world \<Rightarrow> bool" where
  "chain_saved P ctx database t dir chain w \<longleftrightarrow>
     (\<forall>i < length chain. stored_whole P ctx (item_group ctx database (chain ! i)) (ci_snapshot_time (chain ! i))
        (sql_archive ctx database) (path_join dir (chain_name P database i (chain ! i))) w) \<and>
     xw_files w (path_join dir (steps_name database)) =
       Some (bytes_of (build_restore_steps P database (chain_files_named P database chain) t))"

lemma export_sql_chain_sound:
  assumes "export_sql_chain P X ctx database t dir w = (r, logs, w')"
  shows "sound_export P (path_join dir (steps_name database)) w w'"
    "is_ok r \<Longrightarrow> \<exists>chain. usable_chain P ctx database t = Ok chain \<and> chain_saved P ctx database t dir chain w'"
proof -
  let ?steps = "path_join dir (steps_name database)"
  have "sound_export P ?steps w w' \<and>
    (is_ok r \<longrightarrow> (\<exists>chain. usable_chain P ctx database t = Ok chain \<and> chain_saved P ctx database t dir chain w'))"
  proof (cases "usable_chain P ctx database t")
    case (Inl e)
    then show ?thesis
      using assms whole_files_sound [OF whole_files_refl] by (auto simp: export_sql_chain_def)
  next
    case (Inr chain)
    obtain r1 logs1 w1 where items: "export_items P X ctx database dir 0 chain w = (r1, logs1, w1)"
      by (metis prod_cases3)
    note e = export_items_whole [OF items]
    show ?thesis
    proof (cases r1)
      case (Inl e)
      then show ?thesis
        using assms Inr items e whole_files_sound [of P "sp_crypt ctx" w w1 ?steps] by (auto simp: export_sql_chain_def Let_def)
    next
      case (Inr files)
      have files: "files = chain_files_named P database chain"
        using e Inr by (simp add: chain_files_named_def)
      obtain r2 w2 where wr: "write_export_file X ?steps (bytes_of (build_restore_steps P database files t)) w1 = (r2, w2)"
        by fastforce
      note f = write_export_file_whole [OF wr]
      have w': "w' = w2" "is_ok r \<longleftrightarrow> is_ok r2"
        using assms \<open>usable_chain P ctx database t = Ok chain\<close> items Inr wr
        by (auto simp: export_sql_chain_def Let_def split: sum.splits)
      have old: "xw_files w2 ?steps = xw_files w1 ?steps \<or> xw_files w1 ?steps = None"
        using f(3) by (cases "xw_files w1 ?steps") auto
      have sound: "sound_export P ?steps w w2"
        using whole_files_sound [of P "sp_crypt ctx" w w1 ?steps] e f(1) f(2) old
        unfolding sound_export_def by metis
      have "stored_whole P ctx g s a p w2" if "stored_whole P ctx g s a p w1" for g s a p
        using that f(2,3) unfolding stored_whole_def by metis
      then have "is_ok r2 \<longrightarrow> chain_saved P ctx database t dir chain w2"
        using e Inr f(4) files unfolding chain_saved_def by (auto simp: chain_files_named_def)
      then show ?thesis
        using sound \<open>usable_chain P ctx database t = Ok chain\<close> w' by simp
    qed
  qed
  then show "sound_export P ?steps w w'"
    "is_ok r \<Longrightarrow> \<exists>chain. usable_chain P ctx database t = Ok chain \<and> chain_saved P ctx database t dir chain w'"
    by blast+
qed

section \<open>Properties\<close>

lemma drop_connection_files [simp]: "xw_files (drop_connection conn w) = xw_files w"
  by (simp add: drop_connection_def split: option.split)

lemma stored_whole_drop [simp]:
  "stored_whole P ctx grp t archive p (drop_connection conn w) = stored_whole P ctx grp t archive p w"
  "chain_saved P ctx database t dir chain (drop_connection conn w) = chain_saved P ctx database t dir chain w"
  by (simp_all add: stored_whole_def chain_saved_def)


definition demo_export_env :: export_env where
  "demo_export_env =
     \<lparr> xe_mkdir = (\<lambda>_. None), xe_create = (\<lambda>_. None), xe_flush = (\<lambda>_. None), xe_remove = (\<lambda>_. True),
       xe_rename = (\<lambda>_ _. None), xe_exists = ''exists'', xe_write = (\<lambda>_. None), xe_net = (\<lambda>_ _ _. 0), xe_pid = 7 \<rparr>"

definition demo_folder :: export_world where
  "demo_folder = \<lparr> xw_files = [''out/old.bak'' \<mapsto> [9]], xw_shares = [] \<rparr>"

definition demo_export_run :: "(anyhow + string) \<times> Reply list \<times> export_world" where
  "demo_export_run =
     run_restore_sql_to_file demo_stores demo_pbs_env demo_export_env ''j'' ''db'' (PointTime 120) ''out'' None demo_folder"

lemma demo_export_ok: "is_ok (fst demo_export_run)"
  unfolding demo_export_run_def run_restore_sql_to_file_def demo_job_resolves sum.case
  by code_simp


section \<open>The order of the names\<close>

definition byte_order :: "(char \<times> char) set" where
  "byte_order = {(x, y). (of_char x :: nat) < of_char y}"

text \<open>How a directory listing sorts names.\<close>

definition sorts_before :: "string \<Rightarrow> string \<Rightarrow> bool" where
  "sorts_before a b \<longleftrightarrow> (a, b) \<in> lexord byte_order"

lemma pad2_digits: "n < 100 \<Longrightarrow> pad2 n = [digit (n div 10), digit (n mod 10)]"
proof -
  have "CHR ''0'' = digit 0"
    by code_simp
  then show "n < 100 \<Longrightarrow> pad2 n = [digit (n div 10), digit (n mod 10)]"
    by (cases "n < 10") (auto simp: pad2_def show_nat.simps [of n] show_nat.simps [of "n div 10"])
qed

lemma digit_order: "a < 10 \<Longrightarrow> b < 10 \<Longrightarrow> (digit a, digit b) \<in> byte_order \<longleftrightarrow> a < b"
  by (simp add: byte_order_def of_char_digit)

lemma pad2_order:
  assumes "a < b" "b < 100"
  shows "(pad2 a @ s, pad2 b @ t) \<in> lexord byte_order"
proof -
  have "a div 10 < b div 10 \<or> a div 10 = b div 10 \<and> a mod 10 < b mod 10"
    using assms(1) by (metis div_le_mono le_neq_implies_less less_imp_le mod_div_decomp nat_add_left_cancel_less)
  then show ?thesis
    using assms by (auto simp: pad2_digits lexord_cons_cons digit_order)
qed

lemma sorts_before_prefix: "sorts_before (p @ s) (p @ t) \<longleftrightarrow> sorts_before s t"
  by (induction p) (auto simp: sorts_before_def byte_order_def lexord_cons_cons)

text \<open>The names of an exported chain sort in the order of replay for up to 99 files, and not beyond:
  the hundredth file sorts before the ninety-ninth.\<close>

theorem export_names_sort_to_99:
  "(\<forall>i j. i < j \<and> j < 99 \<longrightarrow> sorts_before (chain_name P database i a) (chain_name P database j b)) \<and>
   sorts_before (chain_name P database 99 b) (chain_name P database 98 a)"
proof (intro conjI allI impI)
  define tail where "tail = (\<lambda>item :: ChainItem. ''-'' @ (if meta_is_log (ci_meta item) then ''LOG'' else ''FULL'') @ ''-''
    @ file_stamp P (ci_snapshot_time item) @ ''.'' @ (if meta_is_log (ci_meta item) then ''trn'' else ''bak''))"
  have name: "chain_name P database i item = (sanitize_filename database @ ''-'') @ pad2 (i + 1) @ tail item" for i item
    by (simp add: chain_name_def tail_def Let_def)
  show "sorts_before (chain_name P database i a) (chain_name P database j b)" if "i < j \<and> j < 99" for i j
    unfolding name sorts_before_prefix unfolding sorts_before_def using that by (intro pad2_order) auto
  have "pad2 100 = ''100''" "pad2 99 = ''99''"
    by code_simp+
  then show "sorts_before (chain_name P database 99 b) (chain_name P database 98 a)"
    unfolding name sorts_before_prefix unfolding sorts_before_def by (simp add: lexord_cons_cons byte_order_def)
qed

theorem export_names_sort_to_99_witness:
  "sorts_before (chain_name demo_pbs_env ''db'' 0 (demo_item ''full'' 100 ''1'' ''2''))
     (chain_name demo_pbs_env ''db'' 1 (demo_item ''log'' 150 ''2'' ''3''))"
  using export_names_sort_to_99 [of demo_pbs_env "''db''"] by auto

end
