(* ===== verification/FileRestore.thy ===== *)
theory FileRestore
  imports SqlExport
begin

text \<open>
  Browsing and restoring file backups (\<open>pbsgui-engine/src/restore.rs\<close>, and in
  \<open>pbsgui-engine/src/handler.rs\<close> from \<open>PbsContext\<close> to \<open>run_restore\<close>): the job's server and key, its
  snapshots, the files of a snapshot, and the extraction of all or of selected files into a folder.

  The tar library is a parameter: the entries of an archive, in order, and what unpacking one entry
  does to the folder.
\<close>

section \<open>The tar archive\<close>

record tar_entry =
  te_dir :: bool
  te_path :: "string + string"
  te_size :: "u64 option"
  te_data :: bytes

record tar_env =
  tr_entries :: "bytes \<Rightarrow> string + (string + tar_entry) list"
  tr_unpack :: "tar_entry \<Rightarrow> string \<Rightarrow> export_world \<Rightarrow> (string + bool) \<times> export_world"
  tr_catalog :: "bytes \<Rightarrow> string + FileInfo list"
  tr_join :: "string option"

fun list_entries :: "(string + tar_entry) list \<Rightarrow> anyhow + FileInfo list" where
  "list_entries [] = Ok []"
| "list_entries (Inl e # rest) = Err [e]"
| "list_entries (Inr entry # rest) =
     (if te_dir entry then list_entries rest
      else and_then (lift_err (te_path entry)) (\<lambda>p.
           and_then (list_entries rest) (\<lambda>files.
           Ok (\<lparr> fi_path = slashes p, fi_size = unwrap_or 0 (te_size entry) \<rparr> # files))))"

definition list_tar :: "tar_env \<Rightarrow> bytes \<Rightarrow> anyhow + FileInfo list" where
  "list_tar T archive = and_then (lift_err (tr_entries T archive)) list_entries"

definition wanted :: "string list option \<Rightarrow> tar_entry \<Rightarrow> anyhow + bool" where
  "wanted selected entry =
     (case selected of
        None \<Rightarrow> Ok True
      | Some names \<Rightarrow> and_then (lift_err (te_path entry)) (\<lambda>p. Ok (slashes p \<in> set names)))"

fun extract_entries ::
  "tar_env \<Rightarrow> string list option \<Rightarrow> string \<Rightarrow> (string + tar_entry) list \<Rightarrow> nat \<Rightarrow> export_world \<Rightarrow> (anyhow + nat) \<times> export_world" where
  "extract_entries T selected dest [] cnt w = (Ok cnt, w)"
| "extract_entries T selected dest (Inl e # rest) cnt w = (Err [e], w)"
| "extract_entries T selected dest (Inr entry # rest) cnt w =
     (case wanted selected entry of
        Inl e \<Rightarrow> (Err e, w)
      | Inr False \<Rightarrow> extract_entries T selected dest rest cnt w
      | Inr True \<Rightarrow>
          (case tr_unpack T entry dest w of
             (Inl e, w1) \<Rightarrow> (Err [e], w1)
           | (Inr safe, w1) \<Rightarrow> extract_entries T selected dest rest (if safe then cnt + 1 else cnt) w1))"

definition extract_archive ::
  "tar_env \<Rightarrow> export_env \<Rightarrow> bytes \<Rightarrow> string list option \<Rightarrow> string \<Rightarrow> export_world \<Rightarrow> (anyhow + nat) \<times> export_world" where
  "extract_archive T X archive selected dest w =
     (case xe_mkdir X dest of
        Some e \<Rightarrow> (Err [e], w)
      | None \<Rightarrow>
          (case tr_entries T archive of
             Inl e \<Rightarrow> (Err [e], w)
           | Inr entries \<Rightarrow> extract_entries T selected dest entries 0 w))"

section \<open>The job's snapshots\<close>

definition ARCHIVE_NAME :: string where "ARCHIVE_NAME = ''files.didx''"
definition BACKUP_TYPE :: string where "BACKUP_TYPE = ''host''"

record PbsContext =
  pc_repo :: Repository
  pc_secret :: string
  pc_fp :: string
  pc_id :: string
  pc_crypt :: "CryptConfig option"

definition job_pbs_context :: "'a stores_env \<Rightarrow> string \<Rightarrow> anyhow + PbsContext" where
  "job_pbs_context S job_id =
     (case get_job (se_jobs S) job_id of
        None \<Rightarrow> Err [''no such job: '' @ job_id]
      | Some job \<Rightarrow>
          if is_sql job then Err [''browsing and restore are only available for file backups for now'']
          else
            and_then (lift_err (load_config (se_signer S) (se_libs S) (j_id job) (se_keyring S))) (\<lambda>crypt.
            case j_destination job of
              Folder _ \<Rightarrow> Err [''this job backs up to a folder, not PBS'']
            | Pbs server_id backup_id \<Rightarrow>
                (case js_get ps_id (se_servers S) server_id of
                   None \<Rightarrow> Err [''the job'' @ [CHR 39] @ ''s PBS server no longer exists'']
                 | Some server \<Rightarrow>
                     and_then (lift_err (secret_get (pbs_secret_key server_id) (se_keyring S))) (\<lambda>stored.
                     case stored of
                       None \<Rightarrow> Err [''no saved secret for the PBS server'']
                     | Some secret \<Rightarrow>
                         and_then (lift_pbs (repo_from_str (ps_repository server))) (\<lambda>repo.
                         Ok \<lparr> pc_repo = repo, pc_secret = secret, pc_fp = ps_fingerprint server, pc_id = backup_id,
                              pc_crypt = crypt \<rparr>)))))"

definition file_params :: "PbsContext \<Rightarrow> i64 \<Rightarrow> anyhow + SessionParams" where
  "file_params ctx backup_time =
     lift_pbs (params_from_repository (pc_repo ctx) (pc_secret ctx) (pc_fp ctx) BACKUP_TYPE (pc_id ctx) backup_time)"

definition list_job_snapshots :: "'a stores_env \<Rightarrow> pbs_env \<Rightarrow> string \<Rightarrow> anyhow + SnapshotInfo list" where
  "list_job_snapshots S P job_id =
     and_then (job_pbs_context S job_id) (\<lambda>ctx.
     and_then (lift_pbs (api_from_repository (pc_repo ctx) (pc_secret ctx) (pc_fp ctx))) (\<lambda>api.
     and_then (pe_list P api (datastore (pc_repo ctx)) (namespace (pc_repo ctx)) BACKUP_TYPE (pc_id ctx)) (\<lambda>snapshots.
     Ok (map (\<lambda>s. \<lparr> si_backup_time = sn_backup_time s, si_size = sn_size s \<rparr>) snapshots))))"

text \<open>The catalog is preferred; any failure to download it falls back to the archive itself.\<close>

definition list_files :: "'a stores_env \<Rightarrow> pbs_env \<Rightarrow> tar_env \<Rightarrow> string \<Rightarrow> i64 \<Rightarrow> anyhow + FileInfo list" where
  "list_files S P T job_id backup_time =
     and_then (job_pbs_context S job_id) (\<lambda>ctx.
     and_then (file_params ctx backup_time) (\<lambda>params.
     and_then (pe_connect P params) (\<lambda>_.
     case pe_blob P params ''catalog.json.blob'' (pc_crypt ctx) of
       Inr content \<Rightarrow> lift_err (tr_catalog T content)
     | Inl _ \<Rightarrow> and_then (pe_archive P params ARCHIVE_NAME (pc_crypt ctx)) (list_tar T))))"

section \<open>Restoring\<close>

text \<open>The extraction runs on its own thread; \<open>tr_join\<close> is the error of a thread that died.\<close>

definition restore_to ::
  "pbs_env \<Rightarrow> tar_env \<Rightarrow> export_env \<Rightarrow> PbsContext \<Rightarrow> SessionParams \<Rightarrow> string list option \<Rightarrow> string \<Rightarrow> export_world
     \<Rightarrow> (anyhow + string) \<times> Reply list \<times> export_world" where
  "restore_to P T X ctx params files destination w =
     (let connecting = LogLine ''connecting to PBS''; downloading = LogLine ''downloading archive'' in
      case pe_connect P params of
        Inl e \<Rightarrow> (Err e, [connecting], w)
      | Inr _ \<Rightarrow>
          (case pe_archive P params ARCHIVE_NAME (pc_crypt ctx) of
             Inl e \<Rightarrow> (Err e, [connecting, downloading], w)
           | Inr content \<Rightarrow>
               let logs = [connecting, downloading,
                       Progress (1, 2) (''downloaded '' @ show_nat (length content) @ '' bytes''),
                       LogLine (''extracting to '' @ destination)]
               in (case extract_archive T X content files destination w of
                     (r, w1) \<Rightarrow>
                       (case (tr_join T, r) of
                          (Some e, _) \<Rightarrow> (Err [''extract task failed: '' @ e], logs, w1)
                        | (None, Inl e) \<Rightarrow> (Err e, logs, w1)
                        | (None, Inr cnt) \<Rightarrow>
                            (Ok (''restored '' @ show_nat cnt @ '' file(s)''), logs @ [Progress (1, 1) ''done''], w1)))))"

definition run_restore ::
  "pbs_env \<Rightarrow> tar_env \<Rightarrow> export_env \<Rightarrow> PbsContext \<Rightarrow> i64 \<Rightarrow> string list option \<Rightarrow> string \<Rightarrow> DestCredentials option \<Rightarrow> export_world
     \<Rightarrow> (anyhow + string) \<times> Reply list \<times> export_world" where
  "run_restore P T X ctx backup_time files destination creds w =
     (case prepare_destination X destination creds w of
        (Inl e, w1) \<Rightarrow> (Err e, [], w1)
      | (Inr conn, w1) \<Rightarrow>
          (case file_params ctx backup_time of
             Inl e \<Rightarrow> (Err e, [], drop_connection conn w1)
           | Inr params \<Rightarrow>
               let (r, logs, w2) = restore_to P T X ctx params files destination w1
               in (r, logs, drop_connection conn w2)))"

text \<open>\<open>e.to_string()\<close> is the outermost message.\<close>

definition top_text :: "anyhow \<Rightarrow> string" where
  "top_text e = (case e of [] \<Rightarrow> [] | m # _ \<Rightarrow> m)"

definition restore_job ::
  "'a stores_env \<Rightarrow> pbs_env \<Rightarrow> tar_env \<Rightarrow> export_env \<Rightarrow> string \<Rightarrow> i64 \<Rightarrow> string list option \<Rightarrow> string \<Rightarrow> DestCredentials option
     \<Rightarrow> export_world \<Rightarrow> Reply list \<times> export_world" where
  "restore_job S P T X job_id backup_time files destination creds w =
     (case job_pbs_context S job_id of
        Inl e \<Rightarrow> ([ErrorReply (top_text e)], w)
      | Inr ctx \<Rightarrow>
          let (r, logs, w1) = run_restore P T X ctx backup_time files destination creds w
          in (Accepted job_id # logs
                @ [case r of Inr message \<Rightarrow> Finished True message | Inl e \<Rightarrow> Finished False (top_text e)], w1))"

section \<open>What an extraction does\<close>

definition entry_name :: "tar_entry \<Rightarrow> string" where
  "entry_name entry = (case te_path entry of Inr p \<Rightarrow> slashes p | Inl _ \<Rightarrow> [])"

definition components :: "string \<Rightarrow> string list" where
  "components name = split_on (CHR ''/'') name"

definition tidy :: "tar_entry \<Rightarrow> bool" where
  "tidy entry = (is_ok (te_path entry) \<and> [] \<notin> set (components (entry_name entry)) \<and> ''.'' \<notin> set (components (entry_name entry)))"

definition escapes :: "string \<Rightarrow> bool" where
  "escapes name = (''..'' \<in> set (components name))"

text \<open>What the tar library documents of unpacking an entry with a tidy name: a file is written below the
  folder under its own name, a directory changes no file, and an entry is refused, without effect,
  exactly when its name leads upwards.\<close>

definition put_entry :: "string \<Rightarrow> tar_entry \<Rightarrow> export_world \<Rightarrow> export_world" where
  "put_entry dest entry w =
     (if te_dir entry \<or> escapes (entry_name entry) then w
      else w \<lparr> xw_files := (xw_files w)(path_join dest (entry_name entry) \<mapsto> te_data entry) \<rparr>)"

definition unpack_laws :: "tar_env \<Rightarrow> bool" where
  "unpack_laws T =
     (\<forall>entry dest w. tidy entry \<longrightarrow>
        (case tr_unpack T entry dest w of
           (Inl _, _) \<Rightarrow> True
         | (Inr safe, w') \<Rightarrow> safe = (\<not> escapes (entry_name entry)) \<and> w' = put_entry dest entry w))"

definition chosen :: "string list option \<Rightarrow> tar_entry \<Rightarrow> bool" where
  "chosen selected entry = (wanted selected entry = Ok True)"

lemma unpack_Ok:
  "unpack_laws T \<Longrightarrow> tidy entry \<Longrightarrow> tr_unpack T entry dest w = (Inr safe, w')
     \<Longrightarrow> safe = (\<not> escapes (entry_name entry)) \<and> w' = put_entry dest entry w"
  unfolding unpack_laws_def by (drule spec [of _ entry], drule spec [of _ dest], drule spec [of _ w]) auto

lemma extract_entries_Ok:
  assumes "unpack_laws T" "extract_entries T selected dest rs n w = (Ok m, w')" "list_all (\<lambda>r. \<forall>e. r = Inr e \<longrightarrow> tidy e) rs"
  shows "\<exists>es. rs = map Inr es \<and> w' = fold (put_entry dest) (filter (chosen selected) es) w
    \<and> m = n + length (filter (\<lambda>e. chosen selected e \<and> \<not> escapes (entry_name e)) es)"
  using assms(2, 3)
proof (induction rs arbitrary: n w)
  case (Cons x rest)
  then obtain entry c where x: "x = Inr entry" "wanted selected entry = Inr c" "tidy entry"
    by (cases x) (auto split: sum.splits)
  show ?case
  proof (cases c)
    case True
    then have ch: "chosen selected entry"
      using x by (simp add: chosen_def)
    obtain safe w1 where u: "tr_unpack T entry dest w = (Ok safe, w1)"
      using Cons.prems x True by (auto split: prod.splits sum.splits)
    then have "extract_entries T selected dest rest (if safe then n + 1 else n) w1 = (Ok m, w')"
      using Cons.prems x True by simp
    from Cons.IH [OF this] Cons.prems(2) obtain es
      where "rest = map Inr es" "w' = fold (put_entry dest) (filter (chosen selected) es) w1"
        "m = (if safe then n + 1 else n) + length (filter (\<lambda>e. chosen selected e \<and> \<not> escapes (entry_name e)) es)"
      by auto
    then show ?thesis
      using x ch unpack_Ok [OF assms(1) x(3) u] by (intro exI [of _ "entry # es"]) auto
  next
    case False
    then have "\<not> chosen selected entry"
      using x by (simp add: chosen_def)
    moreover have "extract_entries T selected dest rest n w = (Ok m, w')"
      using Cons.prems x False by simp
    from Cons.IH [OF this] Cons.prems(2) obtain es
      where "rest = map Inr es" "w' = fold (put_entry dest) (filter (chosen selected) es) w"
        "m = n + length (filter (\<lambda>e. chosen selected e \<and> \<not> escapes (entry_name e)) es)"
      by auto
    ultimately show ?thesis
      using x by (intro exI [of _ "entry # es"]) auto
  qed
qed simp

text \<open>What an archive holds under a name: the content of the last file of that name.\<close>

definition archived_as :: "tar_entry list \<Rightarrow> string \<Rightarrow> bytes option" where
  "archived_as es name = map_option te_data (find (\<lambda>e. \<not> te_dir e \<and> entry_name e = name) (rev es))"

lemma path_join_eq [simp]: "path_join dest a = path_join dest b \<longleftrightarrow> a = b"
  by (simp add: path_join_def)

lemma put_entries_at:
  "\<not> escapes name \<Longrightarrow>
     xw_files (fold (put_entry dest) es w) (path_join dest name)
       = (case archived_as es name of None \<Rightarrow> xw_files w (path_join dest name) | Some content \<Rightarrow> Some content)"
proof (induction es rule: rev_induct)
  case (snoc e es)
  then show ?case
    by (cases "te_dir e \<or> entry_name e \<noteq> name") (auto simp: archived_as_def put_entry_def)
qed (simp add: archived_as_def)

lemma put_entries_outside:
  "\<forall>name. p \<noteq> path_join dest name \<or> escapes name \<Longrightarrow> xw_files (fold (put_entry dest) es w) p = xw_files w p"
  by (induction es arbitrary: w) (auto simp: put_entry_def)

definition selects :: "string list option \<Rightarrow> string \<Rightarrow> bool" where
  "selects selected name = (case selected of None \<Rightarrow> True | Some names \<Rightarrow> name \<in> set names)"

lemma chosen_iff: "is_ok (te_path e) \<Longrightarrow> chosen selected e \<longleftrightarrow> selects selected (entry_name e)"
  by (auto simp: chosen_def wanted_def selects_def entry_name_def is_ok_iff lift_err_def map_err_def split: option.splits)

lemma archived_as_chosen:
  "(\<And>e. e \<in> set es \<Longrightarrow> is_ok (te_path e)) \<Longrightarrow>
     archived_as (filter (chosen selected) es) name = (if selects selected name then archived_as es name else None)"
  by (induction es rule: rev_induct) (auto simp: archived_as_def chosen_iff)

text \<open>C28: A restore writes exactly the selected files of the archive: below the folder, the file of every
  selected name has the content the archive holds under it, every other file below the folder is
  unchanged, no entry reaches a place outside the folder, and the reported number is that of the
  entries written.\<close>

theorem extraction_exact:
  assumes "unpack_laws T" and "tr_entries T archive = Ok rs" and "list_all (\<lambda>r. \<forall>e. r = Inr e \<longrightarrow> tidy e) rs"
    and "extract_archive T X archive selected dest w = (Ok n, w')"
  shows "\<exists>es. rs = map Inr es
    \<and> n = length (filter (\<lambda>e. selects selected (entry_name e) \<and> \<not> escapes (entry_name e)) es)
    \<and> (\<forall>name. xw_files w' (path_join dest name)
          = (if selects selected name \<and> \<not> escapes name \<and> archived_as es name \<noteq> None then archived_as es name
             else xw_files w (path_join dest name)))
    \<and> (\<forall>p. (\<forall>name. p \<noteq> path_join dest name) \<longrightarrow> xw_files w' p = xw_files w p)"
proof -
  have "extract_entries T selected dest rs 0 w = (Ok n, w')"
    using assms(2, 4) by (auto simp: extract_archive_def split: option.splits)
  from extract_entries_Ok [OF assms(1) this assms(3)] obtain es
    where es: "rs = map Inr es" "w' = fold (put_entry dest) (filter (chosen selected) es) w"
      "n = length (filter (\<lambda>e. chosen selected e \<and> \<not> escapes (entry_name e)) es)"
    by auto
  have ok: "is_ok (te_path e)" if "e \<in> set es" for e
    using assms(3) that by (auto simp: es(1) list_all_iff tidy_def)
  have "xw_files w' (path_join dest name)
      = (if selects selected name \<and> \<not> escapes name \<and> archived_as es name \<noteq> None then archived_as es name
         else xw_files w (path_join dest name))" for name
    using put_entries_at [of name dest "filter (chosen selected) es" w]
      put_entries_outside [of "path_join dest name" dest "filter (chosen selected) es" w]
    by (cases "escapes name") (auto simp: es(2) archived_as_chosen ok split: option.splits)
  moreover have "n = length (filter (\<lambda>e. selects selected (entry_name e) \<and> \<not> escapes (entry_name e)) es)"
    using ok by (simp add: es(3) chosen_iff cong: filter_cong)
  ultimately show ?thesis
    using es(1, 2) put_entries_outside [of _ dest "filter (chosen selected) es" w] by auto
qed

definition demo_entry :: "string \<Rightarrow> bytes \<Rightarrow> tar_entry" where
  "demo_entry name content = \<lparr> te_dir = False, te_path = Ok name, te_size = Some (of_nat (length content)), te_data = content \<rparr>"

definition demo_archive :: "tar_entry list \<Rightarrow> tar_env" where
  "demo_archive es =
     \<lparr> tr_entries = (\<lambda>_. Ok (map Inr es)),
       tr_unpack = (\<lambda>e dest w. (Ok (\<not> escapes (entry_name e)), put_entry dest e w)),
       tr_catalog = (\<lambda>_. Err ''no catalog''), tr_join = None \<rparr>"

lemma demo_archive_laws: "unpack_laws (demo_archive es)"
  by (simp add: unpack_laws_def demo_archive_def)

theorem extraction_exact_witness:
  "\<exists>w'. extract_archive (demo_archive [demo_entry ''a/one'' [1], demo_entry ''a/two'' [2]]) demo_export_env [] (Some [''a/two'']) ''d''
       demo_folder = (Ok 1, w')
     \<and> xw_files w' (path_join ''d'' ''a/two'') = Some [2]
     \<and> xw_files w' (path_join ''d'' ''a/one'') = xw_files demo_folder (path_join ''d'' ''a/one'')"
proof -
  let ?es = "[demo_entry ''a/one'' [1], demo_entry ''a/two'' [2]]"
  let ?w' = "snd (extract_archive (demo_archive ?es) demo_export_env [] (Some [''a/two'']) ''d'' demo_folder)"
  have tidy: "list_all (\<lambda>r. \<forall>e. r = Inr e \<longrightarrow> tidy e) (map Inr ?es)"
    by (simp add: tidy_def demo_entry_def entry_name_def components_def slashes_def)
  have run: "extract_archive (demo_archive ?es) demo_export_env [] (Some [''a/two'']) ''d'' demo_folder = (Ok 1, ?w')"
    by (simp add: extract_archive_def demo_archive_def demo_entry_def wanted_def lift_err_def map_err_def demo_export_env_def
        slashes_def entry_name_def escapes_def components_def)
  have "tr_entries (demo_archive ?es) [] = Ok (map Inr ?es)"
    by (simp add: demo_archive_def)
  from extraction_exact [OF demo_archive_laws this tidy run] obtain es where "map Inr ?es = map (Inr :: tar_entry \<Rightarrow> string + tar_entry) es"
      "\<forall>name. xw_files ?w' (path_join ''d'' name)
          = (if selects (Some [''a/two'']) name \<and> \<not> escapes name \<and> archived_as es name \<noteq> None then archived_as es name
             else xw_files demo_folder (path_join ''d'' name))"
    by blast
  moreover from this(1) have "es = ?es"
    by (metis (no_types, lifting) inj_Inr inj_map_eq_map)
  moreover have "archived_as ?es ''a/two'' = Some [2]" "\<not> escapes ''a/two''"
    by code_simp+
  ultimately show ?thesis
    using run by (auto simp: selects_def intro!: exI [of _ ?w'])
qed

section \<open>Sources with the same name\<close>

lemma archive_name_root: "\<not> fe_root E n \<Longrightarrow> archive_name E (p @ [n]) (p @ n # rel) = slashes (fe_show E (n # rel))"
  by (simp add: archive_name_def parent_def strip_prefix_append)

lemma slashes_idem: "slashes (slashes s) = slashes s"
  by (simp add: slashes_def)

text \<open>C40: Files of two sources that end in the same folder name are archived under the same names, since a
  name is taken relative to the source's parent. Restoring both then keeps only the content of the
  second, and reports two restored files.\<close>

theorem same_named_sources_overwrite:
  assumes "unpack_laws T" and "\<not> fe_root E n"
    and "te_path e1 = Ok (archive_name E (p @ [n]) (p @ n # rel))" and "te_path e2 = Ok (archive_name E (q @ [n]) (q @ n # rel))"
    and "\<not> te_dir e1" "\<not> te_dir e2" "tidy e1" "tidy e2" "\<not> escapes (entry_name e1)"
    and "tr_entries T archive = Ok [Inr e1, Inr e2]" and "extract_archive T X archive None dest w = (Ok c, w')"
  shows "c = 2 \<and> entry_name e1 = entry_name e2
    \<and> xw_files w' = (xw_files w)(path_join dest (entry_name e1) \<mapsto> te_data e2)"
proof -
  have same: "entry_name e1 = entry_name e2"
    using assms(2-4) by (simp add: entry_name_def archive_name_root slashes_idem)
  have run: "extract_entries T None dest [Inr e1, Inr e2] 0 w = (Ok c, w')"
    using assms(10, 11) by (auto simp: extract_archive_def split: option.splits)
  have "list_all (\<lambda>r. \<forall>e. r = Inr e \<longrightarrow> tidy e) [Inr e1, Inr e2 :: string + tar_entry]"
    using assms(7, 8) by simp
  from extract_entries_Ok [OF assms(1) run this] obtain es
    where "[Inr e1, Inr e2] = map (Inr :: tar_entry \<Rightarrow> string + tar_entry) es
      \<and> w' = fold (put_entry dest) (filter (chosen None) es) w
      \<and> c = 0 + length (filter (\<lambda>e. chosen None e \<and> \<not> escapes (entry_name e)) es)"
    by (elim exE)
  then show ?thesis
    using same assms(5, 6, 9) by (auto simp: Cons_eq_map_conv chosen_def wanted_def put_entry_def)
qed

theorem same_named_sources_overwrite_witness:
  "fst (extract_archive (demo_archive [demo_entry ''d/a'' [1], demo_entry ''d/a'' [2]]) demo_export_env [] None ''out'' demo_folder) = Ok 2
   \<and> xw_files (snd (extract_archive (demo_archive [demo_entry ''d/a'' [1], demo_entry ''d/a'' [2]]) demo_export_env [] None ''out'' demo_folder))
       = (xw_files demo_folder)(path_join ''out'' ''d/a'' \<mapsto> [2])"
proof -
  let ?e1 = "demo_entry ''d/a'' [1]"
  let ?e2 = "demo_entry ''d/a'' [2]"
  let ?run = "extract_archive (demo_archive [?e1, ?e2]) demo_export_env [] None ''out'' demo_folder"
  have name: "archive_name demo_files (p @ [''d'']) (p @ ''d'' # [''a'']) = ''d/a''" for p
    by (subst archive_name_root) (simp_all add: demo_files_def slashes_def join_with_def)
  have paths: "te_path ?e1 = Ok (archive_name demo_files ([''C:''] @ [''d'']) ([''C:''] @ ''d'' # [''a'']))"
    "te_path ?e2 = Ok (archive_name demo_files ([''D:''] @ [''d'']) ([''D:''] @ ''d'' # [''a'']))"
    unfolding name by (simp_all add: demo_entry_def)
  have run: "?run = (Ok 2, snd ?run)"
    by (simp add: extract_archive_def demo_archive_def demo_entry_def wanted_def demo_export_env_def
        slashes_def entry_name_def escapes_def components_def)
  have facts: "\<not> fe_root demo_files ''d''" "\<not> te_dir ?e1" "\<not> te_dir ?e2" "tidy ?e1" "tidy ?e2" "\<not> escapes (entry_name ?e1)"
    "tr_entries (demo_archive [?e1, ?e2]) [] = Ok [Inr ?e1, Inr ?e2]"
    by (simp_all add: demo_files_def demo_entry_def demo_archive_def tidy_def entry_name_def escapes_def components_def slashes_def)
  have "entry_name ?e1 = ''d/a''" "te_data ?e2 = [2]"
    by (simp_all add: demo_entry_def entry_name_def slashes_def)
  with same_named_sources_overwrite [OF demo_archive_laws facts(1) paths facts(2-7) run] run show ?thesis
    by (metis fst_conv)
qed

end
