(* ===== verification/RunProps.thy ===== *)
theory RunProps
  imports RunJob
begin

text \<open>
  Properties of backup runs (\<open>RunJob\<close>): every database of a SQL run is accounted for, every run
  leaves the registry, the metrics, the timers and the notifications consistent with its result,
  and a failed run waits for its next slot.
\<close>

section \<open>Verdicts of databases\<close>

datatype verdict = VFailed string | VSkipped string | VWarned string | VDone BackupStats

fun failed_reasons :: "string list \<Rightarrow> verdict list \<Rightarrow> string list" where
  "failed_reasons (db # dbs) (VFailed why # vs) = db_reason db why # failed_reasons dbs vs"
| "failed_reasons (db # dbs) (v # vs) = failed_reasons dbs vs"
| "failed_reasons _ _ = []"

fun skipped_reasons :: "string list \<Rightarrow> verdict list \<Rightarrow> string list" where
  "skipped_reasons (db # dbs) (VSkipped why # vs) = db_reason db why # skipped_reasons dbs vs"
| "skipped_reasons (db # dbs) (v # vs) = skipped_reasons dbs vs"
| "skipped_reasons _ _ = []"

fun warned_reasons :: "string list \<Rightarrow> verdict list \<Rightarrow> string list" where
  "warned_reasons (db # dbs) (VWarned why # vs) = db_reason db why # warned_reasons dbs vs"
| "warned_reasons (db # dbs) (v # vs) = warned_reasons dbs vs"
| "warned_reasons _ _ = []"

fun done_stats :: "verdict list \<Rightarrow> BackupStats list" where
  "done_stats [] = []"
| "done_stats (VDone s # vs) = s # done_stats vs"
| "done_stats (v # vs) = done_stats vs"

definition accounted :: "sql_acc \<Rightarrow> string list \<Rightarrow> verdict list \<Rightarrow> sql_acc \<Rightarrow> bool" where
  "accounted a dbs vs a' =
     (length vs = length dbs \<and>
      sa_failed a' = sa_failed a @ failed_reasons dbs vs \<and>
      sa_skipped a' = sa_skipped a @ skipped_reasons dbs vs \<and>
      sa_warned a' = sa_warned a @ warned_reasons dbs vs \<and>
      sa_backed_up a' = sa_backed_up a + of_nat (length (done_stats vs)) \<and>
      sa_stats a' = foldl add_stats (sa_stats a) (done_stats vs))"

lemma accounted_cons:
  assumes "accounted a [db] [v] a1" "accounted a1 dbs vs a2"
  shows "accounted a (db # dbs) (v # vs) a2"
  using assms by (cases v) (auto simp: accounted_def)

lemma fail_db_accounted: "accounted (fst aw) [db] [VFailed why] (fst (fail_db (db_reason db why) aw))"
  by (simp add: accounted_def fail_db_def)

lemma skip_db_accounted: "accounted (fst aw) [db] [VSkipped why] (fst (skip_db (db_reason db why) aw))"
  by (simp add: accounted_def skip_db_def)

lemma warn_db_accounted: "accounted (fst aw) [db] [VWarned why] (fst (warn_db (db_reason db why) aw))"
  by (simp add: accounted_def warn_db_def)

lemma done_db_accounted: "accounted (fst aw) [db] [VDone s] (fst (done_db E job run kind db s aw))"
  by (simp add: accounted_def done_db_def Let_def split: prod.split)

lemma no_chain_db_accounted: "\<exists>v. accounted (fst aw) [db] [v] (fst (no_chain_db E job role db aw))"
  unfolding no_chain_db_def Let_def
  by (auto split: prod.split intro: exI fail_db_accounted [where aw = "(fst aw, _)", simplified]
      warn_db_accounted [where aw = "(fst aw, _)", simplified])

lemma backup_db_accounted: "\<exists>v. accounted (fst aw) [db] [v] (fst (backup_db E J db state kind copy aw))"
proof -
  obtain grp arch where g: "sql_group_and_archive (sj_backup_id J) db kind = (grp, arch)"
    by fastforce
  obtain now w1 where n: "unix_now E (snd aw) = (now, w1)"
    by fastforce
  show ?thesis
  proof (cases "pbs_session_params (re_servers E) (re_keyring E) (sj_server_id J) grp ''host'' now")
    case (Inl e)
    then show ?thesis
      using fail_db_accounted [of "(fst aw, w1)" db e] by (auto simp: backup_db_def g n)
  next
    case (Inr params)
    define w2 where "w2 = report_phase (sj_job_id J) (''reading ['' @ db @ ''] from SQL Server...'')
        (log_line (''backing up ['' @ db @ ''] to PBS (group '' @ grp @ '')'') w1)"
    define r where "r = re_sql_backup E (sj_conn J) (sj_password J) db params arch (sj_crypt J) (sj_compress J) kind copy"
    have "backup_db E J db state kind copy aw =
      (case r of
         Inr stats \<Rightarrow> done_db E (sj_job_id J) (sj_run J) kind db stats (fst aw, w2)
       | Inl message \<Rightarrow>
           if kind = Log \<and> is_no_chain_error message
           then no_chain_db E (sj_job_id J) (ds_role state) db (fst aw, w2)
           else fail_db (db_reason db message) (fst aw, w2))"
      using Inr by (simp add: backup_db_def g n Let_def w2_def r_def split: sum.split)
    then show ?thesis
      using fail_db_accounted [of "(fst aw, w2)" db] no_chain_db_accounted [of "(fst aw, w2)" db E]
        done_db_accounted [of "(fst aw, w2)" db _ E]
      by (cases r; simp; metis)
  qed
qed

lemma sql_db_accounted: "\<exists>v. accounted (fst aw) [db] [v] (fst (sql_db E J db aw))"
proof (cases "re_db_state E db")
  case (Inl e)
  then show ?thesis
    using fail_db_accounted [of aw db e] by (auto simp: sql_db_def)
next
  case (Inr state)
  show ?thesis
  proof (cases "decide (sj_plan J) (sj_run J) state (sa_local_full (fst aw))")
    case (Skip why)
    with Inr show ?thesis
      using skip_db_accounted [of aw db why] by (auto simp: sql_db_def)
  next
    case (Backup kind copy msg)
    with Inr show ?thesis
      using backup_db_accounted [of "(fst aw, _)" db E J state kind copy] by (simp add: sql_db_def Let_def)
  qed
qed

lemma sql_fold_accounted:
  "\<exists>vs. accounted (fst aw) dbs vs (fst (fold (sql_db E J) dbs aw))"
proof (induction dbs arbitrary: aw)
  case Nil
  have "accounted (fst aw) [] [] (fst aw)"
    by (simp add: accounted_def)
  then show ?case
    by auto
next
  case (Cons db dbs)
  obtain v where "accounted (fst aw) [db] [v] (fst (sql_db E J db aw))"
    using sql_db_accounted by blast
  moreover obtain vs where "accounted (fst (sql_db E J db aw)) dbs vs (fst (fold (sql_db E J) dbs (sql_db E J db aw)))"
    using Cons.IH by blast
  ultimately show ?case
    using accounted_cons by (metis fold_simps(2))
qed

lemma verdict_lengths:
  "length vs = length dbs \<Longrightarrow>
   length (failed_reasons dbs vs) + length (skipped_reasons dbs vs) + length (warned_reasons dbs vs)
     + length (done_stats vs) = length dbs"
proof (induction vs arbitrary: dbs)
  case (Cons v vs)
  then obtain db dbs' where "dbs = db # dbs'"
    by (cases dbs) auto
  with Cons.IH [of dbs'] Cons.prems show ?case
    by (cases v) auto
qed simp


section \<open>A concrete environment\<close>

definition demo_stats :: BackupStats where
  "demo_stats = zero_stats \<lparr> st_chunks := 2, st_uploaded := 1, st_reused := 1, st_bytes := 10 \<rparr>"

definition demo_conn :: SqlConnection where
  "demo_conn =
     \<lparr> sc_id = ''c'', sc_name = ''c'', sc_server = ''sql'', sc_port = None, sc_auth = Integrated,
       sc_failover_cluster = False, sc_relay_agent = None \<rparr>"

definition demo_server :: PbsServer where
  "demo_server = \<lparr> ps_id = ''s'', ps_name = ''s'', ps_repository = ''u@pam@h:d'', ps_fingerprint = [] \<rparr>"

definition demo_db :: DbState where
  "demo_db =
     \<lparr> ds_role = RoleStandalone, ds_preferred = True, ds_simple_recovery = False, ds_read_only = False,
       ds_log_chain = True \<rparr>"

definition demo_keyring :: keyring where
  "demo_keyring = \<lparr> kr_secrets = (\<lambda>_. Some ''secret''), kr_error = None \<rparr>"

definition demo_env :: "(bool list, string, string list) run_env" where
  "demo_env =
     \<lparr> re_clock = (\<lambda>n. 1000 + of_nat n), re_floats = demo_floats, re_elapsed = 3, re_libs = demo_libs,
       re_signer = demo_signer, re_keyring = demo_keyring,
       re_conns = \<lparr> js_items = [demo_conn], js_load_error = None, js_file = NotFound \<rparr>,
       re_servers = \<lparr> js_items = [demo_server], js_load_error = None, js_file = NotFound \<rparr>,
       re_files = demo_files, re_prints_writable = True, re_vss = (\<lambda>_. Err ''no VSS''), re_tar = demo_tar,
       re_tar_close = (\<lambda>_. Ok ()), re_tar_new = [], re_broken_pipe = (\<lambda>_. False),
       re_upload = (\<lambda>_ _ _ _ _. Ok demo_stats), re_sql_connect = (\<lambda>_ _. Ok ()),
       re_db_state = (\<lambda>db. if db = ''bad'' then Err ''offline'' else Ok demo_db),
       re_sql_backup = (\<lambda>_ _ _ _ _ _ _ _ _. Ok demo_stats), re_sql_file = (\<lambda>_ _ _ _. Ok 10),
       re_join = (\<lambda>a b. a @ ''/'' @ b),
       re_channels = \<lparr> ch_address = (\<lambda>_. None), ch_message = (\<lambda>_ _. None), ch_tls = (\<lambda>_. None),
         ch_smtp = (\<lambda>_. None), ch_http = (\<lambda>_. Ok 200) \<rparr>,
       re_settings = notify_default_settings \<lparr> ns_email := \<lparr> es_enabled = True, es_host = ''m'', es_port = 25,
         es_security = NoTls, es_username = [], es_from = ''a'', es_to = [''b''] \<rparr> \<rparr> \<rparr>"

definition demo_world :: run_world where
  "demo_world =
     \<lparr> rw_sched = \<lparr> sd_files = Map.empty, sd_writable = True \<rparr>, rw_prints = Map.empty,
       rw_metrics = \<lparr> mt_start_time = 0, mt_jobs = Map.empty \<rparr>, rw_registry = registry_init, rw_events = [],
       rw_sent = [], rw_tick = 0 \<rparr>"

definition demo_ctx :: sql_ctx where
  "demo_ctx =
     \<lparr> sj_conn = demo_conn, sj_password = None, sj_plan = PlanPointInTime, sj_run = RunLog,
       sj_server_id = ''s'', sj_backup_id = ''host'', sj_crypt = None, sj_compress = True, sj_job_id = ''j'' \<rparr>"

definition demo_acc :: sql_acc where
  "demo_acc = fst (fold (sql_db demo_env demo_ctx) [''bad'', ''x'', ''y''] (sql_start (rw_sched demo_world) ''j'', demo_world))"

lemma demo_acc_values: "sa_failed demo_acc = [''[bad]: offline''] \<and> sa_backed_up demo_acc = 2"
  by code_simp


section \<open>What a run changes besides its result\<close>

text \<open>The backends touch neither the metrics nor the claims of the registry, write no timer file
  where the disk is read-only, and leave the disk as writable as it was.\<close>

definition quiet :: "run_world \<Rightarrow> run_world \<Rightarrow> bool" where
  "quiet w w' =
     (rw_metrics w' = rw_metrics w \<and> rw_sent w' = rw_sent w \<and>
      rg_running (rw_registry w') = rg_running (rw_registry w) \<and>
      rg_guards (rw_registry w') = rg_guards (rw_registry w) \<and>
      sd_writable (rw_sched w') = sd_writable (rw_sched w))"

lemma quiet_refl [simp]: "quiet w w"
  by (simp add: quiet_def)

lemma quiet_trans: "quiet a b \<Longrightarrow> quiet b c \<Longrightarrow> quiet a c"
  by (simp add: quiet_def)

lemma quiet_log [simp]: "quiet w (log_line l w') = quiet w w'"
  by (simp add: quiet_def log_line_def)

lemma quiet_phase [simp]: "quiet w (report_phase j m w') = quiet w w'"
  by (simp add: quiet_def report_phase_def set_run_status_def split: option.split)

lemma quiet_log_report [simp]: "quiet w (log_report r w') = quiet w w'"
  by (simp add: quiet_def log_report_def)

lemma quiet_now: "unix_now E w' = (t, w'') \<Longrightarrow> quiet w w'' = quiet w w'"
  by (auto simp: quiet_def unix_now_def)

lemma store_keeps_writable [simp]: "sd_writable (store j s d) = sd_writable d"
  by (simp add: store_def)

lemma timers_keep_writable [simp]:
  "sd_writable (clear_no_chain j db d) = sd_writable d"
  "sd_writable (record_full j t d) = sd_writable d" "sd_writable (record_log j t d) = sd_writable d"
  "sd_writable (record_full_attempt j t d) = sd_writable d"
  "sd_writable (record_log_attempt j t d) = sd_writable d"
  "sd_writable (snd (note_no_chain j db t d)) = sd_writable d"
  by (simp_all add: sched_defs)

lemma quiet_done: "quiet w (snd (done_db E j run kind db s (a, w'))) = quiet w w'"
  by (simp add: done_db_def Let_def unix_now_def quiet_def split: prod.split)

lemma quiet_verdicts [simp]:
  "quiet w (snd (fail_db r aw)) = quiet w (snd aw)" "quiet w (snd (skip_db r aw)) = quiet w (snd aw)"
  "quiet w (snd (warn_db r aw)) = quiet w (snd aw)"
  by (simp_all add: fail_db_def skip_db_def warn_db_def)

lemma quiet_no_chain: "quiet w (snd (no_chain_db E j role db (a, w'))) = quiet w w'"
  by (simp add: no_chain_db_def Let_def unix_now_def split: prod.split)
     (auto simp: quiet_def dest: arg_cong [where f = "\<lambda>x. sd_writable (snd x)"])

lemma quiet_backup_db: "quiet w (snd (backup_db E J db st kind copy (a, w'))) = quiet w w'"
  by (auto simp: backup_db_def Let_def quiet_done quiet_no_chain quiet_now split: prod.split sum.split)

lemma quiet_sql_db: "quiet w (snd (sql_db E J db aw)) = quiet w (snd aw)"
  by (auto simp: sql_db_def Let_def quiet_backup_db split: sum.split Action.split option.split)

lemma quiet_sql_fold: "quiet w (snd (fold (sql_db E J) dbs aw)) = quiet w (snd aw)"
  by (induction dbs arbitrary: aw) (simp_all add: quiet_sql_db)

lemma quiet_sql_files: "quiet w (snd (sql_files E conn pw folder dbs n w')) = quiet w w'"
  by (induction E conn pw folder dbs n w' rule: sql_files.induct)
     (auto simp: Let_def quiet_now split: prod.split sum.split)

lemma quiet_sql_to_pbs: "quiet w (snd (backup_sql_to_pbs E c dbs plan run s b crypt cm j w))"
proof -
  have "quiet w (snd (fold (sql_db E J) dbs (a, report_phase j m w)))" for J a m
    by (simp add: quiet_sql_fold)
  then show ?thesis
    by (auto simp: backup_sql_to_pbs_def Let_def split: sum.split prod.split) (metis snd_conv)
qed

lemma quiet_sql_to_folder: "quiet w (snd (backup_sql_to_folder E c dbs folder w))"
proof -
  have "quiet w (snd (sql_files E conn pw folder dbs 0 w))" for conn pw
    by (simp add: quiet_sql_files)
  then show ?thesis
    by (auto simp: backup_sql_to_folder_def split: sum.split prod.split) (metis snd_conv)+
qed

lemma quiet_files_to_pbs: "quiet w (snd (backup_files_to_pbs E job ss ex s b crypt w))"
  by (auto simp: backup_files_to_pbs_def Let_def quiet_now split: prod.split sum.split)

lemma quiet_do_backup: "quiet w (snd (do_backup E job run w))"
proof -
  have "quiet w w1" if "backup_files_to_pbs E job ss ex s b crypt w = (r, w1)" for ss ex s b crypt r w1
    using quiet_files_to_pbs [of w E job ss ex s b crypt] that by simp
  then show ?thesis
    by (auto simp: do_backup_def quiet_sql_to_pbs quiet_sql_to_folder
        split: JobSource.split JobDestination.split sum.split prod.split)
qed

lemma quiet_prints [simp]: "quiet w (w' \<lparr> rw_prints := p \<rparr>) = quiet w w'"
  by (simp add: quiet_def)

lemma quiet_run_inner: "quiet w (snd (run_inner E job run w))"
proof (cases "do_backup E job run w")
  case (Pair r w1)
  then have "quiet w w1"
    using quiet_do_backup [of w E job run] by simp
  with Pair show ?thesis
    by (simp add: run_inner_def Let_def split: sum.split prod.split option.split)
qed

section \<open>The record a run leaves\<close>

lemma sql_timers_frame [simp]:
  "rw_metrics (sql_timers E job f w) = rw_metrics w" "rw_sent (sql_timers E job f w) = rw_sent w"
  "rw_registry (sql_timers E job f w) = rw_registry w"
  by (simp_all add: sql_timers_def unix_now_def)

lemma count_run_frame [simp]:
  "rw_sent (count_run E j res s w) = rw_sent w" "rw_registry (count_run E j res s w) = rw_registry w"
  "rw_sched (count_run E j res s w) = rw_sched w"
  by (simp_all add: count_run_def unix_now_def)

lemma notify_frame [simp]:
  "rw_metrics (notify_outcome E job run oc w) = rw_metrics w"
  "rw_registry (notify_outcome E job run oc w) = rw_registry w"
  "rw_sched (notify_outcome E job run oc w) = rw_sched w"
  by (simp_all add: notify_outcome_def)

lemma log_frame [simp]:
  "rw_metrics (log_line l w) = rw_metrics w" "rw_sent (log_line l w) = rw_sent w"
  "rw_registry (log_line l w) = rw_registry w" "rw_sched (log_line l w) = rw_sched w"
  by (simp_all add: log_line_def)

definition runs_counted :: "JobRuntime \<Rightarrow> u64" where
  "runs_counted j = jr_runs_success j + jr_runs_failure j + jr_runs_skipped j"

lemma count_run_metrics [simp]:
  fixes E :: "('a, 'p, 'b) run_env"
  defines "k \<equiv> \<lambda>j res s w. runtime_of (re_floats E) (rw_metrics (count_run E j res s w)) j"
  shows "runs_counted (k j res s w) = runs_counted (runtime_of (re_floats E) (rw_metrics w) j) + 1"
    "\<not> jr_running (k j res s w)" "jr_last_ok (k j res s w) = Some (res \<noteq> RunFailure)"
  using record_run_counts [of "re_floats E" j res "re_elapsed E" s "re_clock E (rw_tick w)" "rw_metrics w"]
  by (simp_all add: k_def count_run_def unix_now_def runs_counted_def)

lemma finish_run_record:
  assumes "finish_run E job run cancelled (outcome, w) = (r, w')"
  defines "k \<equiv> runtime_of (re_floats E) (rw_metrics w') (j_id job)"
  shows "rw_registry w' = rw_registry w" "\<not> jr_running k"
    "runs_counted k = runs_counted (runtime_of (re_floats E) (rw_metrics w) (j_id job)) + 1"
    "r = Err e \<Longrightarrow> outcome = Err e \<and> \<not> cancelled \<and> jr_last_ok k = Some False \<and>
       rw_sent w' = rw_sent (notify_outcome E job run (Err e) w)"
    "r = Ok rep \<Longrightarrow>
       cancelled \<and> \<not> is_ok outcome \<and> rr_message rep = ''cancelled'' \<and> jr_last_ok k = Some False \<and> rw_sent w' = rw_sent w \<or>
       (\<exists>stats. outcome = Ok (rr_message rep, stats, rr_warning rep)) \<and> jr_last_ok k = Some True \<and>
       rw_sent w' = rw_sent (notify_outcome E job run outcome w)"
  using assms
  by (auto simp: finish_run_def Let_def run_result_def notify_outcome_def
      split: if_splits sum.splits prod.splits option.splits)

lemma start_run_Some:
  assumes "start_run E job w = Some (token, w1)"
  shows "rw_sent w1 = rw_sent w" "rg_running (rw_registry w) (j_id job) = None"
    "rg_running (rw_registry w1) = (rg_running (rw_registry w))(j_id job \<mapsto> token)"
    "rg_guards (rw_registry w1) = (j_id job, token) # rg_guards (rw_registry w)"
    "runs_counted (runtime_of (re_floats E) (rw_metrics w1) (j_id job))
       = runs_counted (runtime_of (re_floats E) (rw_metrics w) (j_id job))"
    "rw_sched w1 = rw_sched w"
  using assms
  by (auto simp: start_run_def unix_now_def try_claim_run_def Let_def set_running_def runtime_of_put
      runs_counted_def split: option.splits)

text \<open>What a dropped run may have done before: what the backends do.\<close>

definition plausible_end :: "('a, 'p, 'b) run_env \<Rightarrow> Job \<Rightarrow> run_world \<Rightarrow> run_end \<Rightarrow> bool" where
  "plausible_end E job w fin =
     (case fin of
        Completed _ \<Rightarrow> True
      | Dropped w' \<Rightarrow> (case start_run E job w of None \<Rightarrow> True | Some (_, w1) \<Rightarrow> quiet w1 w'))"

lemma release_frame [simp]: "rw_sched (release g w) = rw_sched w" "rw_tick (release g w) = rw_tick w"
  by (simp_all add: release_def)

lemma run_finishes:
  assumes "run_job_kind E fin job run w = (r, w')" "rg_running (rw_registry w) (j_id job) = None"
    and "plausible_end E job w fin"
  obtains token w1 c oc wi w2 where "start_run E job w = Some (token, w1)" "quiet w1 wi"
    "finish_run E job run c (oc, wi) = (r, w2)" "w' = release (j_id job, token) w2"
    "case fin of Completed b \<Rightarrow> c = b \<and> run_inner E job run w1 = (oc, wi) | Dropped _ \<Rightarrow> True"
proof -
  obtain token w1 where st: "start_run E job w = Some (token, w1)"
    using assms(2) by (auto simp: start_run_def unix_now_def try_claim_run_def Let_def)
  show ?thesis
  proof (cases fin)
    case (Completed c)
    obtain oc wi where "run_inner E job run w1 = (oc, wi)"
      by fastforce
    moreover obtain r2 w2 where "finish_run E job run c (oc, wi) = (r2, w2)"
      by fastforce
    ultimately show ?thesis
      using Completed assms(1) st quiet_run_inner [of w1 E job run]
      by (intro that [of token w1 wi c oc w2]) (auto simp: run_job_kind_def)
  next
    case (Dropped wd)
    obtain r2 w2 where "finish_run E job run True (Err ''cancelled by request'', wd) = (r2, w2)"
      by fastforce
    with Dropped assms(1,3) st show ?thesis
      by (intro that [of token w1 wd True "Err ''cancelled by request''" w2])
         (auto simp: run_job_kind_def plausible_end_def)
  qed
qed


definition bad_job :: Job where
  "bad_job =
     \<lparr> j_id = ''j'', j_name = ''nightly'', j_source = Files [''d''] [] False, j_destination = Folder ''/b'',
       j_schedule = Manual, j_last_run = None, j_last_status = None, j_encrypted = False, j_compress = True \<rparr>"

definition bad_run :: "(string + RunReport) \<times> run_world" where
  "bad_run = run_job_kind demo_env (Completed False) bad_job RunFull demo_world"

lemma bad_run_fails: "fst bad_run = Err ''backing up files to a folder is not supported yet''"
proof -
  have "run_inner demo_env bad_job RunFull w = (Err ''backing up files to a folder is not supported yet'', w)" for w
    by (simp add: run_inner_def source_fingerprint_def do_backup_def bad_job_def)
  then show ?thesis
    by (simp add: bad_run_def run_job_kind_def start_run_def unix_now_def try_claim_run_def demo_world_def
        registry_init_def finish_run_def Let_def)
qed


section \<open>Timers\<close>

lemma finish_run_sched:
  assumes "finish_run E job run c (oc, w) = (r, w')" "is_sql job"
  shows "rw_sched w' = (if is_ok oc then success_timer (j_id job) run else attempt_timer (j_id job) run)
           (re_clock E (rw_tick w)) (rw_sched w)" "rw_tick w' = rw_tick w + 2"
  using assms
  by (auto simp: finish_run_def Let_def sql_timers_def unix_now_def count_run_def notify_outcome_def
      log_line_def split: if_splits)

lemma attempt_timer_load:
  assumes "sd_writable d"
  shows "last_full_attempt (attempt_timer j RunFull t d) j = Some t"
    "last_log_attempt (attempt_timer j RunLog t d) j = Some t"
    "last_full (attempt_timer j run t d) j = last_full d j"
  using assms by (cases run; simp add: attempt_timer_def sched_defs load_store)+

lemma success_timer_load:
  assumes "sd_writable d"
  shows "last_full_attempt (success_timer j RunFull t d) j = Some t"
    "last_log_attempt (success_timer j RunLog t d) j = Some t"
    "last_full (success_timer j RunFull t d) j = Some t"
  using assms by (simp_all add: success_timer_def sched_defs load_store)

lemma finish_run_attempt:
  assumes "finish_run E job run c (oc, w) = (r, w')" "is_sql job" "sd_writable (rw_sched w)"
  shows "(case run of
      RunFull \<Rightarrow> last_full_attempt (rw_sched w') (j_id job)
    | RunLog \<Rightarrow> last_log_attempt (rw_sched w') (j_id job)) = Some (re_clock E (rw_tick w' - 2))"
  using finish_run_sched [OF assms(1,2)] attempt_timer_load [OF assms(3)] success_timer_load [OF assms(3)]
  by (cases run) auto

definition slot_open :: "calendar \<Rightarrow> SqlProtection \<Rightarrow> SqlRun \<Rightarrow> i64 \<Rightarrow> i64 \<Rightarrow> bool" where
  "slot_open C protection run t now =
     (case protection of
        PointInTime full minutes \<Rightarrow>
          (case run of
             RunFull \<Rightarrow> schedule_due C full (Some t) now
           | RunLog \<Rightarrow> interval_secs minutes \<le> sint (now - t))
      | DailyRestorePoints schedule \<Rightarrow> schedule_due C schedule (Some t) now
      | SecondaryCopy schedule \<Rightarrow> schedule_due C schedule (Some t) now)"

text \<open>C32: No run is repeated before its next slot. However a run of a SQL job ends (success, failure
  of some databases, any error on the way, or cancellation), the scheduler finds the same kind of
  run due again only once the plan's own schedule opens a slot after the moment the run ended: the
  next occurrence of the full schedule, or a whole log interval later. So a failing backup is not
  retried at every poll. The timer file is taken to be writable.\<close>

theorem no_retry_before_next_slot:
  assumes "run_job_kind E fin job run w = (r, w')" "rg_running (rw_registry w) (j_id job) = None"
    and "plausible_end E job w fin" "sd_writable (rw_sched w)" "j_source job = Sql conn dbs protection"
    and "due_kind C (rw_sched w') job now = Some run"
  shows "slot_open C protection run (re_clock E (rw_tick w' - 2)) now"
proof -
  obtain token w1 c oc wi w2 where parts: "start_run E job w = Some (token, w1)" "quiet w1 wi"
    "finish_run E job run c (oc, wi) = (r, w2)" "w' = release (j_id job, token) w2"
    by (rule run_finishes [OF assms(1-3)])
  define d t where "d = rw_sched w'" and "t = re_clock E (rw_tick w' - 2)"
  have "sd_writable (rw_sched wi)" "is_sql job"
    using parts(2) start_run_Some(6) [OF parts(1)] assms(4,5) by (simp_all add: quiet_def is_sql_def)
  from finish_run_attempt [OF parts(3) this(2,1)]
  have attempt: "(case run of RunFull \<Rightarrow> last_full_attempt d (j_id job) | RunLog \<Rightarrow> last_log_attempt d (j_id job)) = Some t"
    by (simp add: parts(4) d_def t_def split: SqlRun.splits)
  have "sql_due_kind C d (j_id job) protection now = Some run"
    using assms(5,6) by (simp add: due_kind_def d_def)
  with attempt have "slot_open C protection run t now"
    by (cases protection; cases run; simp add: slot_open_def log_due_def split: if_splits)
  then show ?thesis
    by (simp add: t_def)
qed

definition demo_sql_job :: "string \<Rightarrow> Job" where
  "demo_sql_job conn =
     \<lparr> j_id = ''j'', j_name = ''nightly'', j_source = Sql conn [''x''] (PointInTime (Interval 60) 15),
       j_destination = Pbs ''s'' ''host'', j_schedule = Manual, j_last_run = None, j_last_status = None,
       j_encrypted = False, j_compress = True \<rparr>"

definition lost_run :: "(string + RunReport) \<times> run_world" where
  "lost_run = run_job_kind demo_env (Completed False) (demo_sql_job ''gone'') RunFull demo_world"

lemma completed_run_sched:
  assumes "start_run E job w = Some (token, w1)" "run_inner E job run w1 = (oc, wi)" "is_sql job"
  shows "rw_sched (snd (run_job_kind E (Completed c) job run w)) =
      (if is_ok oc then success_timer (j_id job) run else attempt_timer (j_id job) run)
        (re_clock E (rw_tick wi)) (rw_sched wi)"
    "rw_tick (snd (run_job_kind E (Completed c) job run w)) = rw_tick wi + 2"
proof -
  obtain r w2 where "finish_run E job run c (oc, wi) = (r, w2)"
    by fastforce
  with finish_run_sched [OF this assms(3)] show
    "rw_sched (snd (run_job_kind E (Completed c) job run w)) =
      (if is_ok oc then success_timer (j_id job) run else attempt_timer (j_id job) run)
        (re_clock E (rw_tick wi)) (rw_sched wi)"
    "rw_tick (snd (run_job_kind E (Completed c) job run w)) = rw_tick wi + 2"
    by (simp_all add: run_job_kind_def assms)
qed

lemma demo_start:
  "\<exists>token w1. start_run demo_env job demo_world = Some (token, w1) \<and> rw_tick w1 = 1 \<and> rw_sched w1 = rw_sched demo_world"
  by (simp add: start_run_def unix_now_def try_claim_run_def demo_world_def registry_init_def)

lemma lost_run_timers:
  "rw_sched (snd lost_run) = record_full_attempt ''j'' 1001 (rw_sched demo_world)" "rw_tick (snd lost_run) = 3"
proof -
  have inner: "run_inner demo_env (demo_sql_job ''gone'') RunFull w = (Err ''no such SQL connection'', w)" for w
    by (simp add: run_inner_def source_fingerprint_def do_backup_def demo_sql_job_def for_job_def
        backup_sql_to_pbs_def sql_conn_and_password_def demo_env_def js_get_def demo_conn_def)
  have sql: "is_sql (demo_sql_job c)" "j_id (demo_sql_job c) = ''j''" for c
    by (simp_all add: is_sql_def demo_sql_job_def)
  have "re_clock demo_env 1 = 1001"
    by (simp add: demo_env_def)
  obtain token w1 where w1: "start_run demo_env (demo_sql_job ''gone'') demo_world = Some (token, w1)"
    "rw_tick w1 = 1" "rw_sched w1 = rw_sched demo_world"
    using demo_start by blast
  from completed_run_sched [OF w1(1) inner sql(1), of False] \<open>re_clock demo_env 1 = 1001\<close>
  show "rw_sched (snd lost_run) = record_full_attempt ''j'' 1001 (rw_sched demo_world)" "rw_tick (snd lost_run) = 3"
    by (simp_all add: lost_run_def w1(2,3) sql attempt_timer_def)
qed

theorem no_retry_before_next_slot_witness:
  "slot_open demo_cal (PointInTime (Interval 60) 15) RunFull (re_clock demo_env 1) 4601"
proof -
  have run: "run_job_kind demo_env (Completed False) (demo_sql_job ''gone'') RunFull demo_world = (fst lost_run, snd lost_run)"
    by (simp add: lost_run_def)
  have "due_kind demo_cal (rw_sched (snd lost_run)) (demo_sql_job ''gone'') 4601 = Some RunFull"
    unfolding lost_run_timers
    by (simp add: due_kind_def demo_sql_job_def sched_defs load_store demo_world_def interval_secs_def)
  from no_retry_before_next_slot [OF run _ _ _ _ this] show ?thesis
    unfolding lost_run_timers
    by (simp add: demo_world_def registry_init_def plausible_end_def demo_sql_job_def)
qed

section \<open>Where the record of fulls is too coarse\<close>

lemma failed_db_keeps [simp]:
  "sa_backed_up (fst (fail_db r aw)) = sa_backed_up (fst aw)" "sa_backed_up (fst (warn_db r aw)) = sa_backed_up (fst aw)"
  by (simp_all add: fail_db_def warn_db_def)

lemma no_chain_db_keeps: "sa_backed_up (fst (no_chain_db E j role db aw)) = sa_backed_up (fst aw)"
  by (simp add: no_chain_db_def Let_def split: prod.split)

lemma done_db_local_full: "sa_local_full (fst (done_db E j RunLog Full db s aw))"
  by (simp add: done_db_def run_is_log_but_full_def Let_def split: prod.split)

lemma backup_db_local_full:
  assumes "sj_run J = RunLog" "sa_backed_up (fst (backup_db E J db st Full copy aw)) \<noteq> sa_backed_up (fst aw)"
  shows "sa_local_full (fst (backup_db E J db st Full copy aw))"
  using assms done_db_local_full
  by (auto simp: backup_db_def Let_def split: prod.splits sum.splits if_splits)

definition logs_normally :: "DbState \<Rightarrow> bool" where
  "logs_normally s =
     (ds_role s \<noteq> RoleSecondary \<and> ds_preferred s \<and> ds_log_chain s \<and> \<not> ds_simple_recovery s \<and> \<not> ds_read_only s)"

lemma decide_logs_normally:
  "logs_normally s \<Longrightarrow> decide PlanPointInTime RunLog s True = Backup Log False None"
  "logs_normally s \<Longrightarrow> decide PlanPointInTime RunLog s False = Backup Full False (Some FIRST_FULL)"
  by (cases "ds_role s"; simp add: logs_normally_def decide_def)+

text \<open>A full of one database counts for all databases of the job. In a point-in-time log run of a
  job that has no recorded full, the first database gets the full it needs, and once that has
  succeeded the next database, which this job has never backed up either, gets a log backup: its
  first snapshot is a log with no full under it.\<close>

theorem one_full_counts_for_all_databases:
  assumes "sj_plan J = PlanPointInTime" "sj_run J = RunLog" "\<not> sa_local_full a"
    and "re_db_state E db1 = Ok s1" "re_db_state E db2 = Ok s2" "logs_normally s1" "logs_normally s2"
    and "sql_db E J db1 (a, w) = (a1, w1)" "sa_backed_up a1 \<noteq> sa_backed_up a"
  shows "sql_db E J db1 (a, w) = backup_db E J db1 s1 Full False (a, log_line (db_reason db1 FIRST_FULL) w) \<and>
    sql_db E J db2 (a1, w1) = backup_db E J db2 s2 Log False (a1, w1)"
proof -
  have first: "sql_db E J db1 (a, w) = backup_db E J db1 s1 Full False (a, log_line (db_reason db1 FIRST_FULL) w)"
    using assms by (simp add: sql_db_def decide_logs_normally)
  then have "fst (backup_db E J db1 s1 Full False (a, log_line (db_reason db1 FIRST_FULL) w)) = a1"
    using assms(8) by (metis fst_conv)
  then have "sa_local_full a1"
    using backup_db_local_full [OF assms(2), of E db1 s1 False "(a, log_line (db_reason db1 FIRST_FULL) w)"] assms(9)
    by simp
  then have "sql_db E J db2 (a1, w1) = backup_db E J db2 s2 Log False (a1, w1)"
    using assms(1,2,5,7) by (simp add: sql_db_def decide_logs_normally)
  with first show ?thesis
    by simp
qed

definition first_log_run :: "sql_acc \<times> run_world" where
  "first_log_run = sql_db demo_env demo_ctx ''x'' (sql_start (rw_sched demo_world) ''j'', demo_world)"

lemma first_log_run_backs_up: "sa_backed_up (fst first_log_run) = 1"
  by code_simp

theorem one_full_counts_for_all_databases_witness:
  "sql_db demo_env demo_ctx ''y'' first_log_run = backup_db demo_env demo_ctx ''y'' demo_db Log False first_log_run"
proof -
  have "logs_normally demo_db"
    by (simp add: logs_normally_def demo_db_def)
  moreover have "re_db_state demo_env ''x'' = Ok demo_db" "re_db_state demo_env ''y'' = Ok demo_db"
    by (simp_all add: demo_env_def)
  moreover have "sql_db demo_env demo_ctx ''x'' (sql_start (rw_sched demo_world) ''j'', demo_world)
      = (fst first_log_run, snd first_log_run)"
    by (simp add: first_log_run_def)
  moreover have "sa_backed_up (fst first_log_run) \<noteq> sa_backed_up (sql_start (rw_sched demo_world) ''j'')"
    by (simp add: first_log_run_backs_up sql_start_def)
  ultimately show ?thesis
    using one_full_counts_for_all_databases [of demo_ctx "sql_start (rw_sched demo_world) ''j''" demo_env "''x''" demo_db
        "''y''" demo_db demo_world "fst first_log_run" "snd first_log_run"]
    by (simp add: demo_ctx_def sql_start_def demo_world_def last_full_def load_def state_default_def)
qed

text \<open>A full run that backs up nothing still counts as a full. When a full run of a SQL job ends
  without an error and without having written anything (every database skipped on a secondary, or
  the failover cluster instance active on another node), the timers record a full on this machine,
  and the next log run starts with the knowledge that the job has one.\<close>

theorem skipped_full_counts_as_full:
  assumes "start_run E job w = Some (token, w1)" "is_sql job"
    and "run_inner E job RunFull w1 = (Ok (message, None, warning), wi)" "sd_writable (rw_sched wi)"
    and "run_job_kind E (Completed c) job RunFull w = (r, w')"
  shows "last_full (rw_sched w') (j_id job) = Some (re_clock E (rw_tick wi)) \<and>
    sa_local_full (sql_start (rw_sched w') (j_id job))"
  using completed_run_sched(1) [OF assms(1,3,2), of c] success_timer_load(3) [OF assms(4)] assms(5)
  by (simp add: sql_start_def)

definition passive_env :: "(bool list, string, string list) run_env" where
  "passive_env =
     demo_env \<lparr> re_conns := \<lparr> js_items = [demo_conn \<lparr> sc_failover_cluster := True \<rparr>], js_load_error = None,
                  js_file = NotFound \<rparr>,
                re_sql_connect := (\<lambda>_ _. Err ''refused'') \<rparr>"

theorem skipped_full_counts_as_full_witness:
  "sa_local_full (sql_start (rw_sched (snd (run_job_kind passive_env (Completed False) (demo_sql_job ''c'') RunFull
     demo_world))) ''j'')"
proof -
  obtain token w1 where w1: "start_run passive_env (demo_sql_job ''c'') demo_world = Some (token, w1)"
    and d: "rw_sched w1 = rw_sched demo_world"
    by (auto simp: start_run_def unix_now_def try_claim_run_def demo_world_def registry_init_def)
  obtain wi where inner: "run_inner passive_env (demo_sql_job ''c'') RunFull w1 =
      (Ok (''skipped: the failover cluster instance is not active on this node'', None, False), wi)"
    by (simp add: run_inner_def source_fingerprint_def do_backup_def demo_sql_job_def for_job_def
        backup_sql_to_pbs_def sql_conn_and_password_def passive_env_def demo_env_def js_get_def demo_conn_def Let_def)
  then have "quiet w1 wi"
    using quiet_run_inner [of w1 passive_env "demo_sql_job ''c''" RunFull] by simp
  then have "sd_writable (rw_sched wi)"
    by (simp add: quiet_def d demo_world_def)
  from skipped_full_counts_as_full [OF w1 _ inner this prod.collapse [symmetric], of False] show ?thesis
    by (simp add: is_sql_def demo_sql_job_def)
qed

end
