(* ===== verification/SqlHealth.thy ===== *)
theory SqlHealth
  imports SqlRestore RunProps
begin

text \<open>
  The scheduler's loop (\<open>pbsgui-engine/src/scheduler.rs\<close>): scheduled runs, and the watch on the backup
  chains of point-in-time jobs (\<open>collect_sql_status\<close> of \<open>handler.rs\<close>), which updates the metrics and
  warns of stalled chains.

  One pass of the endless loop is a function; the theorems hold for every sequence of passes.
\<close>

section \<open>The state of the chains\<close>

record JobSqlStatus =
  js_job_id :: string
  js_job_name :: string
  js_databases :: "SqlDbStatus list"

definition group_stats ::
  "pbs_env \<Rightarrow> ApiClient \<Rightarrow> SqlJobPbs \<Rightarrow> string \<Rightarrow> SqlBackupType \<Rightarrow> u32 \<times> i64 option \<times> i64 option" where
  "group_stats P api ctx database kind =
     (case ctx_list P ctx api (fst (sql_group_and_archive (sp_id ctx) database kind)) of
        Inr snaps \<Rightarrow> (of_nat (length snaps), time_min (map sn_backup_time snaps), time_max (map sn_backup_time snaps))
      | Inl _ \<Rightarrow> (0, None, None))"

definition flatten :: "'x option list \<Rightarrow> 'x list" where
  "flatten xs = concat (map (\<lambda>x. case x of None \<Rightarrow> [] | Some v \<Rightarrow> [v]) xs)"

text \<open>Four missed log intervals, at least half an hour.\<close>

definition stall_grace :: "u32 \<Rightarrow> i64" where
  "stall_grace log_interval = (let g = ucast log_interval * 60 * 4 in if sint g < 1800 then 1800 else g)"

definition db_status :: "pbs_env \<Rightarrow> ApiClient \<Rightarrow> SqlJobPbs \<Rightarrow> i64 \<Rightarrow> i64 \<Rightarrow> string \<Rightarrow> SqlDbStatus" where
  "db_status P api ctx grace now db =
     (let (full_count, full_min, full_max) = group_stats P api ctx db Full;
          (log_count, log_min, log_max) = group_stats P api ctx db Log;
          chain_latest = time_max (flatten [full_max, log_max])
      in \<lparr> ss_database = db, ss_chain_latest = chain_latest,
           ss_stalled = (case chain_latest of None \<Rightarrow> False | Some l \<Rightarrow> sint grace < sint (now - l)),
           ss_full_count = full_count, ss_log_count = log_count,
           ss_pit_window_secs =
             (case (chain_latest, full_min) of
                (Some latest, Some earliest) \<Rightarrow> if 0 < log_count then Some (latest - earliest) else None
              | _ \<Rightarrow> None) \<rparr>)"

definition job_sql_status :: "'a stores_env \<Rightarrow> pbs_env \<Rightarrow> i64 \<Rightarrow> Job \<Rightarrow> JobSqlStatus option" where
  "job_sql_status S P now job =
     (case j_source job of
        Sql _ databases (PointInTime _ log_interval) \<Rightarrow>
          (case and_then (sql_job_pbs S (j_id job)) (\<lambda>ctx. and_then (ctx_api ctx) (\<lambda>api. Ok (ctx, api))) of
             Inl _ \<Rightarrow> None
           | Inr (ctx, api) \<Rightarrow>
               Some \<lparr> js_job_id = j_id job, js_job_name = j_name job,
                      js_databases = map (db_status P api ctx (stall_grace log_interval) now) databases \<rparr>)
      | _ \<Rightarrow> None)"

definition collect_sql_status :: "'a stores_env \<Rightarrow> pbs_env \<Rightarrow> i64 \<Rightarrow> JobSqlStatus list" where
  "collect_sql_status S P now = flatten (map (job_sql_status S P now) (js_items (se_jobs S)))"

section \<open>Stall warnings\<close>

record alert =
  al_time :: i64
  al_job :: string
  al_job_name :: string
  al_database :: string
  al_hours :: int

record sched_world =
  sl_run :: run_world
  sl_store :: "Job json_store"
  sl_textfile :: "string \<times> string \<rightharpoonup> string"
  sl_last_check :: i64
  sl_alerted :: "string \<times> string \<rightharpoonup> i64"
  sl_alerts :: "alert list"

record ('a, 'p, 'b) sched_env =
  sv_cal :: calendar
  sv_run :: "('a, 'p, 'b) run_env"
  sv_writer :: "Job writer"
  sv_settings :: MetricsSettings
  sv_version :: "string \<times> string"
  sv_io :: "bool \<times> bool"

definition REALERT_SECS :: int where "REALERT_SECS = 6 * 3600"

text \<open>Division of Rust's signed integers.\<close>

definition quot :: "int \<Rightarrow> int \<Rightarrow> int" where
  "quot a b = sgn a * sgn b * (\<bar>a\<bar> div \<bar>b\<bar>)"

definition warn_stalled ::
  "('a, 'p, 'b) sched_env \<Rightarrow> i64 \<Rightarrow> JobSqlStatus \<Rightarrow> SqlDbStatus \<Rightarrow> sched_world \<Rightarrow> sched_world" where
  "warn_stalled V now status db w =
     (let key = (js_job_id status, ss_database db); E = sv_run V in
      if \<not> ss_stalled db then w
      else if (case sl_alerted w key of None \<Rightarrow> False | Some t \<Rightarrow> sint (now - t) < REALERT_SECS) then w
      else
        let hours = (case ss_chain_latest db of None \<Rightarrow> 0 | Some l \<Rightarrow> max (quot (sint (now - l)) 3600) 1)
        in w \<lparr> sl_alerted := (sl_alerted w)(key \<mapsto> now),
               sl_alerts := sl_alerts w @ [\<lparr> al_time = now, al_job = js_job_id status, al_job_name = js_job_name status,
                                            al_database = ss_database db, al_hours = hours \<rparr>],
               sl_run := (sl_run w) \<lparr> rw_sent := rw_sent (sl_run w)
                  @ backup_stalled (re_floats E) (re_channels E) (re_keyring E) (re_settings E) (js_job_name status)
                      (ss_database db) hours \<rparr> \<rparr>)"

definition refresh_status ::
  "('a, 'p, 'b) sched_env \<Rightarrow> i64 \<Rightarrow> JobSqlStatus \<Rightarrow> sched_world \<Rightarrow> sched_world" where
  "refresh_status V now status w =
     fold (warn_stalled V now status) (js_databases status)
       (w \<lparr> sl_run := (sl_run w) \<lparr> rw_metrics :=
               set_sql_status (re_floats (sv_run V)) (js_job_id status) (js_databases status) (rw_metrics (sl_run w)) \<rparr> \<rparr>)"

definition refresh_textfile :: "('a, 'p, 'b) sched_env \<Rightarrow> sched_world \<Rightarrow> sched_world" where
  "refresh_textfile V w =
     w \<lparr> sl_textfile := write_textfile (fst (sv_io V)) (snd (sv_io V)) (sv_settings V)
            (metrics_render (re_floats (sv_run V)) (fst (sv_version V)) (snd (sv_version V)) (rw_metrics (sl_run w))
              (js_items (sl_store w)))
            (sl_textfile w) \<rparr>"

definition refresh_sql_health ::
  "('a, 'p, 'b) sched_env \<Rightarrow> 'a stores_env \<Rightarrow> pbs_env \<Rightarrow> i64 \<Rightarrow> sched_world \<Rightarrow> sched_world" where
  "refresh_sql_health V S P now w =
     refresh_textfile V (fold (refresh_status V now) (collect_sql_status (S \<lparr> se_jobs := sl_store w \<rparr>) P now) w)"

section \<open>The loop\<close>

text \<open>How the spawned task of a run ends: as a run does, or by a panic that leaves some world.\<close>

datatype task_end = Ran run_end | Panicked string run_world

definition run_due ::
  "('a, 'p, 'b) sched_env \<Rightarrow> task_end \<Rightarrow> Job \<Rightarrow> SqlRun \<Rightarrow> sched_world \<Rightarrow> sched_world" where
  "run_due V fin job kind w =
     (let (status, rw) =
            (case fin of
               Ran e \<Rightarrow>
                 let (r, rw) = run_job_kind (sv_run V) e job kind (sl_run w)
                 in (case r of Inr report \<Rightarrow> (report_status report, rw) | Inl msg \<Rightarrow> (msg, rw))
             | Panicked msg rw \<Rightarrow> (''task failed: '' @ msg, rw));
          (now, rw1) = unix_now (sv_run V) rw;
          (_, st) = record_run (sv_writer V) (j_id job) now status (sl_store w)
      in refresh_textfile V (w \<lparr> sl_run := rw1, sl_store := st \<rparr>))"

text \<open>The jobs of one pass, in the order of the store; the ends of their tasks are given.\<close>

fun run_due_jobs ::
  "('a, 'p, 'b) sched_env \<Rightarrow> (string \<Rightarrow> task_end) \<Rightarrow> i64 \<Rightarrow> Job list \<Rightarrow> sched_world \<Rightarrow> sched_world" where
  "run_due_jobs V fin now [] w = w"
| "run_due_jobs V fin now (job # jobs) w =
     run_due_jobs V fin now jobs
       (case due_kind (sv_cal V) (rw_sched (sl_run w)) job now of
          None \<Rightarrow> w
        | Some kind \<Rightarrow> run_due V (fin (j_id job)) job kind w)"

definition sched_pass ::
  "('a, 'p, 'b) sched_env \<Rightarrow> (string \<Rightarrow> task_end) \<Rightarrow> 'a stores_env \<Rightarrow> pbs_env \<Rightarrow> sched_world \<Rightarrow> sched_world" where
  "sched_pass V fin S P w =
     (let (now, rw) = unix_now (sv_run V) (sl_run w);
          w1 = run_due_jobs V fin now (js_items (sl_store w)) (w \<lparr> sl_run := rw \<rparr>)
      in if 15 * 60 \<le> sint (now - sl_last_check w1)
         then refresh_sql_health V S P now (w1 \<lparr> sl_last_check := now \<rparr>)
         else w1)"

section \<open>Passes of the loop\<close>

declare split_paired_All [simp del] split_paired_Ex [simp del]

abbreviation alert_key :: "alert \<Rightarrow> string \<times> string" where
  "alert_key a \<equiv> (al_job a, al_database a)"

lemma run_due_keeps [simp]:
  "sl_alerted (run_due V fin job kind w) = sl_alerted w" "sl_alerts (run_due V fin job kind w) = sl_alerts w"
  "sl_last_check (run_due V fin job kind w) = sl_last_check w"
  by (simp_all add: run_due_def refresh_textfile_def Let_def split: task_end.split prod.split sum.split)

lemma run_due_jobs_keeps [simp]:
  "sl_alerted (run_due_jobs V fin now jobs w) = sl_alerted w" "sl_alerts (run_due_jobs V fin now jobs w) = sl_alerts w"
  "sl_last_check (run_due_jobs V fin now jobs w) = sl_last_check w"
  by (induction jobs arbitrary: w) (simp_all split: option.split)

lemma warn_stalled_store [simp]: "sl_store (warn_stalled V now status db w) = sl_store w"
  by (simp add: warn_stalled_def Let_def)

lemma refresh_status_store [simp]: "sl_store (refresh_status V now status w) = sl_store w"
proof -
  have "sl_store (fold (warn_stalled V now status) dbs w) = sl_store w" for dbs w
    by (induction dbs arbitrary: w) simp_all
  then show ?thesis
    by (simp add: refresh_status_def)
qed

lemma fold_refresh_store [simp]: "sl_store (fold (refresh_status V now) sts w) = sl_store w"
  by (induction sts arbitrary: w) simp_all

lemma i64_diff: "0 \<le> sint a \<Longrightarrow> 0 \<le> sint b \<Longrightarrow> sint (a - b) = sint a - sint (b :: i64)"
  using sint_lt [of a] sint_lt [of b]
  by (simp add: sint_word_ariths signed_take_bit_int_eq_self)

text \<open>What the loop knows of its warnings at time \<open>now\<close>: warnings for one database are at least six
  hours apart, the table holds the last one, and none lies in the future.\<close>

definition rate_limited :: "alert list \<Rightarrow> bool" where
  "rate_limited alerts =
     sorted_wrt (\<lambda>a b. alert_key a = alert_key b \<longrightarrow> sint (al_time a) + REALERT_SECS \<le> sint (al_time b)) alerts"

definition watch_inv :: "i64 \<Rightarrow> sched_world \<Rightarrow> bool" where
  "watch_inv now w \<longleftrightarrow> rate_limited (sl_alerts w) \<and>
     (\<forall>a \<in> set (sl_alerts w). \<exists>t. sl_alerted w (alert_key a) = Some t \<and> sint (al_time a) \<le> sint t) \<and>
     (\<forall>k t. sl_alerted w k = Some t \<longrightarrow> 0 \<le> sint t \<and> sint t \<le> sint now \<and>
        (\<exists>a \<in> set (sl_alerts w). alert_key a = k \<and> al_time a = t))"

lemma watch_inv_cong:
  "sl_alerts w' = sl_alerts w \<Longrightarrow> sl_alerted w' = sl_alerted w \<Longrightarrow> watch_inv now w' = watch_inv now w"
  by (simp add: watch_inv_def)

lemma watch_inv_later: "watch_inv t w \<Longrightarrow> sint t \<le> sint now \<Longrightarrow> watch_inv now w"
  unfolding watch_inv_def by (meson order_trans)

lemma warn_stalled_inv:
  assumes "watch_inv now w" "0 \<le> sint now"
  shows "watch_inv now (warn_stalled V now status db w)"
proof (cases "ss_stalled db \<and> \<not> (case sl_alerted w (js_job_id status, ss_database db) of None \<Rightarrow> False
    | Some t \<Rightarrow> sint (now - t) < REALERT_SECS)")
  case True
  define k where "k = (js_job_id status, ss_database db)"
  define a where "a = last (sl_alerts (warn_stalled V now status db w))"
  have w': "sl_alerts (warn_stalled V now status db w) = sl_alerts w @ [a]" "alert_key a = k" "al_time a = now"
    "sl_alerted (warn_stalled V now status db w) = (sl_alerted w)(k \<mapsto> now)"
    using True by (simp_all add: warn_stalled_def Let_def a_def k_def split: option.splits)
  have gap: "sint t + REALERT_SECS \<le> sint now" if "sl_alerted w k = Some t" for t
  proof -
    have "0 \<le> sint t"
      using assms(1) that by (auto simp: watch_inv_def)
    then show ?thesis
      using True that assms(2) by (auto simp: k_def i64_diff)
  qed
  have "sint (al_time b) + REALERT_SECS \<le> sint now" if "b \<in> set (sl_alerts w)" "alert_key b = k" for b
    using assms(1) that gap by (fastforce simp: watch_inv_def)
  then have "rate_limited (sl_alerts w @ [a])"
    using assms(1) by (auto simp: rate_limited_def watch_inv_def sorted_wrt_append w'(2,3))
  moreover have "\<exists>t. ((sl_alerted w)(k \<mapsto> now)) (alert_key b) = Some t \<and> sint (al_time b) \<le> sint t"
    if "b \<in> set (sl_alerts w @ [a])" for b
  proof (cases "b = a \<or> alert_key b = k")
    case True
    have "al_time b = now \<or> sint (al_time b) + REALERT_SECS \<le> sint now"
      using that True \<open>\<And>b. b \<in> set (sl_alerts w) \<Longrightarrow> alert_key b = k \<Longrightarrow> sint (al_time b) + REALERT_SECS \<le> sint now\<close> w'(3)
      by auto
    then show ?thesis
      using True w'(2) by (auto simp: REALERT_SECS_def)
  next
    case False
    then show ?thesis
      using that assms(1) by (auto simp: watch_inv_def)
  qed
  moreover have "0 \<le> sint t \<and> sint t \<le> sint now \<and> (\<exists>b \<in> set (sl_alerts w @ [a]). alert_key b = k' \<and> al_time b = t)"
    if "((sl_alerted w)(k \<mapsto> now)) k' = Some t" for k' t
    using that assms w'(2,3) by (cases "k' = k") (auto simp: watch_inv_def)
  ultimately show ?thesis
    unfolding watch_inv_def w' by blast
next
  case False
  then have "warn_stalled V now status db w = w"
    by (auto simp: warn_stalled_def Let_def)
  then show ?thesis
    using assms(1) by simp
qed

text \<open>Once a stalled database was looked at, its last warning is less than six hours old; later looks
  in the same pass keep that.\<close>

definition warned :: "i64 \<Rightarrow> string \<times> string \<Rightarrow> sched_world \<Rightarrow> bool" where
  "warned now k w \<longleftrightarrow> (\<exists>t. sl_alerted w k = Some t \<and> sint (now - t) < REALERT_SECS)"

lemma warned_here: "ss_stalled db \<Longrightarrow> warned now (js_job_id status, ss_database db) (warn_stalled V now status db w)"
  by (auto simp: warned_def warn_stalled_def Let_def REALERT_SECS_def split: option.splits)

lemma warned_stays: "warned now k w \<Longrightarrow> warned now k (warn_stalled V now status db w)"
  by (auto simp: warned_def warn_stalled_def Let_def REALERT_SECS_def)

lemma warn_fold:
  assumes "watch_inv now w" "0 \<le> sint now"
  shows "watch_inv now (fold (warn_stalled V now status) dbs w) \<and>
    (\<forall>k. warned now k w \<longrightarrow> warned now k (fold (warn_stalled V now status) dbs w)) \<and>
    (\<forall>db \<in> set dbs. ss_stalled db \<longrightarrow> warned now (js_job_id status, ss_database db) (fold (warn_stalled V now status) dbs w))"
  using assms
proof (induction dbs arbitrary: w)
  case (Cons db dbs)
  note Cons.IH [OF warn_stalled_inv [OF Cons.prems, of V status db] Cons.prems(2)]
  then show ?case
    using warned_here [of db now status V w] warned_stays [of now _ w V status db] by auto
qed simp

lemma refresh_fold:
  assumes "watch_inv now w" "0 \<le> sint now"
  shows "watch_inv now (fold (refresh_status V now) sts w) \<and>
    (\<forall>k. warned now k w \<longrightarrow> warned now k (fold (refresh_status V now) sts w)) \<and>
    (\<forall>st \<in> set sts. \<forall>db \<in> set (js_databases st). ss_stalled db \<longrightarrow>
       warned now (js_job_id st, ss_database db) (fold (refresh_status V now) sts w))"
  using assms
proof (induction sts arbitrary: w)
  case (Cons st sts)
  define w1 where "w1 = w \<lparr> sl_run := (sl_run w) \<lparr> rw_metrics :=
    set_sql_status (re_floats (sv_run V)) (js_job_id st) (js_databases st) (rw_metrics (sl_run w)) \<rparr> \<rparr>"
  have "watch_inv now w1" and keep: "warned now k w1 = warned now k w" for k
    using Cons.prems(1) by (simp_all add: w1_def watch_inv_def warned_def)
  from warn_fold [OF this(1) Cons.prems(2), of V st "js_databases st"]
  have one: "watch_inv now (refresh_status V now st w)"
    "\<And>k. warned now k w \<Longrightarrow> warned now k (refresh_status V now st w)"
    "\<And>db. db \<in> set (js_databases st) \<Longrightarrow> ss_stalled db \<Longrightarrow>
       warned now (js_job_id st, ss_database db) (refresh_status V now st w)"
    using keep by (simp_all add: refresh_status_def w1_def)
  then show ?case
    using Cons.IH [OF one(1) Cons.prems(2)] by auto
qed simp

section \<open>Properties\<close>

text \<open>A run of the loop: each pass has its own environment, stores, server and task ends.\<close>

type_synonym ('a, 'p, 'b) pass = "('a, 'p, 'b) sched_env \<times> (string \<Rightarrow> task_end) \<times> 'a stores_env \<times> pbs_env"

fun run_passes :: "('a, 'p, 'b) pass list \<Rightarrow> sched_world \<Rightarrow> sched_world" where
  "run_passes [] w = w"
| "run_passes ((V, fin, S, P) # ps) w = run_passes ps (sched_pass V fin S P w)"

definition pass_now :: "('a, 'p, 'b) sched_env \<Rightarrow> sched_world \<Rightarrow> i64" where
  "pass_now V w = re_clock (sv_run V) (rw_tick (sl_run w))"

text \<open>The clock does not go back from one pass to the next.\<close>

fun clock_forward :: "i64 \<Rightarrow> ('a, 'p, 'b) pass list \<Rightarrow> sched_world \<Rightarrow> bool" where
  "clock_forward t [] w = True"
| "clock_forward t ((V, fin, S, P) # ps) w =
     (sint t \<le> sint (pass_now V w) \<and> clock_forward (pass_now V w) ps (sched_pass V fin S P w))"

lemma refresh_textfile_keeps [simp]:
  "watch_inv now (refresh_textfile V w) = watch_inv now w" "warned now k (refresh_textfile V w) = warned now k w"
  "sl_store (refresh_textfile V w) = sl_store w"
  by (simp_all add: refresh_textfile_def watch_inv_def warned_def)

lemma refresh_sql_health_store [simp]: "sl_store (refresh_sql_health V S P now w) = sl_store w"
  by (simp add: refresh_sql_health_def)

lemma refresh_health:
  assumes "watch_inv now w" "0 \<le> sint now"
  shows "watch_inv now (refresh_sql_health V S P now w) \<and>
    (\<forall>st \<in> set (collect_sql_status (S \<lparr> se_jobs := sl_store w \<rparr>) P now). \<forall>db \<in> set (js_databases st). ss_stalled db \<longrightarrow>
       warned now (js_job_id st, ss_database db) (refresh_sql_health V S P now w))"
  using refresh_fold [OF assms, of V] by (simp add: refresh_sql_health_def)

lemma sched_pass_cases:
  obtains (checked) w1 where "sl_alerted w1 = sl_alerted w" "sl_alerts w1 = sl_alerts w"
    "900 \<le> sint (pass_now V w - sl_last_check w)"
    "sched_pass V fin S P w = refresh_sql_health V S P (pass_now V w) w1"
    "sl_store (sched_pass V fin S P w) = sl_store w1"
  | (skipped) "sl_alerted (sched_pass V fin S P w) = sl_alerted w" "sl_alerts (sched_pass V fin S P w) = sl_alerts w"
    "\<not> 900 \<le> sint (pass_now V w - sl_last_check w)"
proof -
  define w1 where "w1 = run_due_jobs V fin (pass_now V w) (js_items (sl_store w))
    (w \<lparr> sl_run := (sl_run w) \<lparr> rw_tick := Suc (rw_tick (sl_run w)) \<rparr> \<rparr>)"
  have "sched_pass V fin S P w = (if 900 \<le> sint (pass_now V w - sl_last_check w)
      then refresh_sql_health V S P (pass_now V w) (w1 \<lparr> sl_last_check := pass_now V w \<rparr>) else w1)"
    by (simp add: sched_pass_def unix_now_def pass_now_def w1_def Let_def)
  then show ?thesis
    using checked [of "w1 \<lparr> sl_last_check := pass_now V w \<rparr>"] skipped
    by (simp add: w1_def refresh_sql_health_def split: if_splits)
qed

lemma sched_pass_inv:
  assumes "watch_inv t w" "0 \<le> sint t" "sint t \<le> sint (pass_now V w)"
  shows "watch_inv (pass_now V w) (sched_pass V fin S P w)"
proof (cases rule: sched_pass_cases [of w V fin S P])
  case (checked w1)
  have "watch_inv (pass_now V w) w1"
    using watch_inv_later [OF assms(1,3)] unfolding watch_inv_cong [OF checked(2,1)] .
  from refresh_health [OF this, of V S P] show ?thesis
    using assms(2,3) unfolding checked(4) by linarith
next
  case skipped
  show ?thesis
    using watch_inv_later [OF assms(1,3)] unfolding watch_inv_cong [OF skipped(2,1)] .
qed

lemma run_passes_inv:
  "clock_forward t ps w \<Longrightarrow> watch_inv t w \<Longrightarrow> 0 \<le> sint t \<Longrightarrow> \<exists>now. watch_inv now (run_passes ps w)"
proof (induction ps arbitrary: t w)
  case (Cons p ps)
  obtain V fin S P where p: "p = (V, fin, S, P)"
    by (metis prod_cases4)
  then have "watch_inv (pass_now V w) (sched_pass V fin S P w)" "0 \<le> sint (pass_now V w)"
    using Cons.prems sched_pass_inv [OF Cons.prems(2,3), of V fin S P] by simp_all
  with Cons.IH [of "pass_now V w" "sched_pass V fin S P w"] show ?case
    using Cons.prems(1) by (simp add: p)
qed auto

lemma time_max_iff: "time_max ts = Some m \<longleftrightarrow> m \<in> set ts \<and> (\<forall>t \<in> set ts. sint t \<le> sint m)"
proof (cases "ts = []")
  case False
  then have "Max (sint ` set ts) \<in> sint ` set ts"
    by (intro Max_in) auto
  then obtain u where u: "u \<in> set ts" "Max (sint ` set ts) = sint u"
    by auto
  have "time_max ts = Some u"
    using False u(2) by (simp add: time_max_def)
  moreover have "\<forall>t \<in> set ts. sint t \<le> sint u"
    unfolding u(2) [symmetric] by simp
  ultimately show ?thesis
    using u(1) by (metis dual_order.antisym option.inject signed_word_eqI)
qed (simp add: time_max_def)

lemma time_max_exists: "ts \<noteq> [] \<Longrightarrow> \<exists>m. time_max ts = Some m"
  by (simp add: time_max_def)

lemma flatten_max: "time_max (flatten [time_max a, time_max b]) = time_max (a @ b)"
proof (cases "a = [] \<or> b = []")
  case True
  have "time_max [m] = Some m" for m
    by (simp add: time_max_iff)
  then show ?thesis
    using True by (cases "time_max a"; cases "time_max b") (auto simp: flatten_def time_max_def split: if_splits)
next
  case False
  then obtain m n where mn: "time_max a = Some m" "time_max b = Some n"
    using time_max_exists by blast
  obtain x where x: "time_max (a @ b) = Some x"
    using False time_max_exists by blast
  then have "x = m \<or> x = n"
    using mn unfolding time_max_iff by (metis Un_iff order_antisym set_append signed_word_eqI)
  then have "time_max [m, n] = Some x"
    using mn x unfolding time_max_iff by auto
  then show ?thesis
    by (simp add: mn x flatten_def)
qed

lemma db_stalled_iff:
  assumes "ctx_list P ctx api (full_group ctx db) = Ok fulls" "ctx_list P ctx api (log_group ctx db) = Ok logs"
    and "0 \<le> sint now" "\<forall>s \<in> set (fulls @ logs). 0 \<le> sint (sn_backup_time s)"
  shows "ss_stalled (db_status P api ctx grace now db) \<longleftrightarrow>
    fulls @ logs \<noteq> [] \<and> (\<forall>s \<in> set (fulls @ logs). sint grace < sint now - sint (sn_backup_time s))"
proof -
  define m where "m = time_max (map sn_backup_time (fulls @ logs))"
  have latest: "ss_stalled (db_status P api ctx grace now db) = (case m of None \<Rightarrow> False | Some l \<Rightarrow> sint grace < sint (now - l))"
    using assms(1,2) flatten_max [of "map sn_backup_time fulls" "map sn_backup_time logs"]
    by (simp add: db_status_def group_stats_def full_group_def log_group_def m_def Let_def)
  show ?thesis
  proof (cases "fulls @ logs = []")
    case False
    then obtain l where l: "m = Some l"
      using time_max_exists [of "map sn_backup_time (fulls @ logs)"] by (auto simp: m_def)
    then have "l \<in> sn_backup_time ` set (fulls @ logs)" "\<forall>s \<in> set (fulls @ logs). sint (sn_backup_time s) \<le> sint l"
      unfolding m_def time_max_iff by auto
    then show ?thesis
      using latest l False assms(3,4) by (fastforce simp: i64_diff)
  qed (use latest in \<open>simp add: m_def time_max_def\<close>)
qed

lemma run_passes_snoc: "run_passes (qs @ [(V, fin, S, P)]) w = sched_pass V fin S P (run_passes qs w)"
  by (induction qs arbitrary: w) auto

lemma clock_forward_snoc:
  assumes "clock_forward t (qs @ [(V, fin, S, P)]) w" "watch_inv t w" "0 \<le> sint t"
  obtains now where "watch_inv now (run_passes qs w)" "0 \<le> sint now" "sint now \<le> sint (pass_now V (run_passes qs w))"
proof -
  have "\<exists>now. watch_inv now (run_passes qs w) \<and> 0 \<le> sint now \<and> sint now \<le> sint (pass_now V (run_passes qs w))"
    using assms
  proof (induction qs arbitrary: t w)
    case (Cons q qs)
    obtain V' fin' S' P' where q: "q = (V', fin', S', P')"
      by (metis prod_cases4)
    then show ?case
      using Cons.prems Cons.IH [of "pass_now V' w" "sched_pass V' fin' S' P' w"]
        sched_pass_inv [OF Cons.prems(2,3), of V' fin' S' P'] by simp
  qed auto
  then show ?thesis
    using that by blast
qed

lemma stalled_pass_warns:
  assumes t: "watch_inv t w" "0 \<le> sint t" "sint t \<le> sint now" and now: "now = pass_now V w"
    and w': "w' = sched_pass V fin S P w" and due: "900 \<le> sint (now - sl_last_check w)"
    and job: "job \<in> set (js_items (sl_store w'))" "j_source job = Sql conn dbs (PointInTime full minutes)" "db \<in> set dbs"
    and ctx: "sql_job_pbs (S \<lparr> se_jobs := sl_store w' \<rparr>) (j_id job) = Ok ctx" "ctx_api ctx = Ok api"
    and lists: "ctx_list P ctx api (full_group ctx db) = Ok fulls" "ctx_list P ctx api (log_group ctx db) = Ok logs"
      "fulls @ logs \<noteq> []" "\<forall>s \<in> set (fulls @ logs). 0 \<le> sint (sn_backup_time s) \<and>
         sint (stall_grace minutes) < sint now - sint (sn_backup_time s)"
  shows "\<exists>a \<in> set (sl_alerts w'). alert_key a = (j_id job, db) \<and>
    sint now - REALERT_SECS < sint (al_time a) \<and> sint (al_time a) \<le> sint now"
proof -
  obtain w1 where w1: "watch_inv now w1" "w' = refresh_sql_health V S P now w1" "sl_store w' = sl_store w1"
  proof (cases rule: sched_pass_cases [of w V fin S P])
    case (checked w1)
    then show ?thesis
      using that [of w1] watch_inv_later [OF t(1,3)] unfolding watch_inv_cong [OF checked(2,1)] by (simp add: w' now)
  qed (use due now in simp)
  define st where "st = \<lparr> js_job_id = j_id job, js_job_name = j_name job,
    js_databases = map (db_status P api ctx (stall_grace minutes) now) dbs \<rparr>"
  have "job_sql_status (S \<lparr> se_jobs := sl_store w' \<rparr>) P now job = Some st"
    using job(2) ctx by (simp add: job_sql_status_def st_def)
  then have "st \<in> set (collect_sql_status (S \<lparr> se_jobs := sl_store w1 \<rparr>) P now)"
    using job(1) w1(3) by (force simp: collect_sql_status_def flatten_def)
  moreover have "0 \<le> sint now" "ss_stalled (db_status P api ctx (stall_grace minutes) now db)"
    using db_stalled_iff [OF lists(1,2)] lists(3,4) t(2,3) by auto
  ultimately have "warned now (j_id job, db) w'" "watch_inv now w'"
    using refresh_health [OF w1(1), of V S P] job(3) by (auto simp: st_def w1(2) db_status_def Let_def split: prod.splits)
  then show ?thesis
    using \<open>0 \<le> sint now\<close> by (fastforce simp: warned_def watch_inv_def i64_diff)
qed

text \<open>C7: A stalled chain is reported, and not too often. In every run of the scheduler's loop on a clock
  that does not go back: warnings for one database of a job are at least six hours apart; and a pass
  that is due for a check leaves, for every database of every point-in-time job whose server can be
  read and whose newest backup, full or log, is older than the grace time, a warning less than six
  hours old. So a chain that stays stalled is warned of at the first check and then for as long as it
  lasts.\<close>

theorem stalls_reported:
  assumes "clock_forward 0 ps w0" "sl_alerts w0 = []" "sl_alerted w0 = Map.empty"
  shows "rate_limited (sl_alerts (run_passes ps w0)) \<and>
    (\<forall>qs V fin S P. ps = qs @ [(V, fin, S, P)] \<longrightarrow>
      (let w = run_passes qs w0; now = pass_now V w; w' = run_passes ps w0; S' = S \<lparr> se_jobs := sl_store w' \<rparr> in
       900 \<le> sint (now - sl_last_check w) \<longrightarrow>
       (\<forall>job \<in> set (js_items (sl_store w')). \<forall>conn dbs full minutes ctx api db fulls logs.
          j_source job = Sql conn dbs (PointInTime full minutes) \<and> db \<in> set dbs \<and>
          sql_job_pbs S' (j_id job) = Ok ctx \<and> ctx_api ctx = Ok api \<and>
          ctx_list P ctx api (full_group ctx db) = Ok fulls \<and> ctx_list P ctx api (log_group ctx db) = Ok logs \<and>
          fulls @ logs \<noteq> [] \<and> (\<forall>s \<in> set (fulls @ logs). 0 \<le> sint (sn_backup_time s) \<and>
             sint (stall_grace minutes) < sint now - sint (sn_backup_time s)) \<longrightarrow>
          (\<exists>a \<in> set (sl_alerts w'). alert_key a = (j_id job, db) \<and>
             sint now - REALERT_SECS < sint (al_time a) \<and> sint (al_time a) \<le> sint now))))"
proof -
  have init: "watch_inv 0 w0" "0 \<le> sint (0 :: i64)"
    using assms(2,3) by (simp_all add: watch_inv_def rate_limited_def)
  show ?thesis
    unfolding Let_def
  proof (intro conjI allI impI ballI)
    show "rate_limited (sl_alerts (run_passes ps w0))"
      using run_passes_inv [OF assms(1) init] by (auto simp: watch_inv_def)
  next
    fix qs V fin S P
    assume ps: "ps = qs @ [(V, fin, S, P)]"
    obtain t where t: "watch_inv t (run_passes qs w0)" "0 \<le> sint t" "sint t \<le> sint (pass_now V (run_passes qs w0))"
      by (rule clock_forward_snoc [OF assms(1) [unfolded ps] init])
    have "run_passes ps w0 = sched_pass V fin S P (run_passes qs w0)"
      by (simp add: ps run_passes_snoc)
    note warns = stalled_pass_warns [OF t refl this]
    fix job conn dbs full minutes ctx api db fulls logs
    assume "900 \<le> sint (pass_now V (run_passes qs w0) - sl_last_check (run_passes qs w0))"
      "job \<in> set (js_items (sl_store (run_passes ps w0)))"
      "j_source job = Sql conn dbs (PointInTime full minutes) \<and> db \<in> set dbs \<and>
       sql_job_pbs (S \<lparr> se_jobs := sl_store (run_passes ps w0) \<rparr>) (j_id job) = Ok ctx \<and> ctx_api ctx = Ok api \<and>
       ctx_list P ctx api (full_group ctx db) = Ok fulls \<and> ctx_list P ctx api (log_group ctx db) = Ok logs \<and>
       fulls @ logs \<noteq> [] \<and> (\<forall>s \<in> set (fulls @ logs). 0 \<le> sint (sn_backup_time s) \<and>
         sint (stall_grace minutes) < sint (pass_now V (run_passes qs w0)) - sint (sn_backup_time s))"
    then show "\<exists>a \<in> set (sl_alerts (run_passes ps w0)). alert_key a = (j_id job, db) \<and>
        sint (pass_now V (run_passes qs w0)) - REALERT_SECS < sint (al_time a) \<and>
        sint (al_time a) \<le> sint (pass_now V (run_passes qs w0))"
      by (elim conjE) (rule warns)
  qed
qed

text \<open>One pass at time 5000 over the job of the demonstration stores, whose newest backup is from 150; its
  log timer was set just now, so that no run is due.\<close>

definition demo_sched_env :: "(bool list, string, string list) sched_env" where
  "demo_sched_env =
     \<lparr> sv_cal = demo_cal, sv_run = demo_env \<lparr> re_clock := \<lambda>_. 5000 \<rparr>,
       sv_writer = \<lparr> wr_signer = undefined, wr_key = Inl ''locked'', wr_io = None \<rparr>,
       sv_settings = metrics_default_settings, sv_version = (''1'', ''c''), sv_io = (True, True) \<rparr>"

definition demo_sched_world :: sched_world where
  "demo_sched_world =
     \<lparr> sl_run = demo_world \<lparr> rw_sched := record_log_attempt ''j'' 5000 (rw_sched demo_world) \<rparr>, sl_store = demo_jobs,
       sl_textfile = Map.empty, sl_last_check = 0, sl_alerted = Map.empty, sl_alerts = [] \<rparr>"

definition demo_passes :: "(bool list, string, string list) pass list" where
  "demo_passes = [(demo_sched_env, \<lambda>_. Ran (Completed False), demo_stores, demo_pbs_env)]"

lemma demo_not_due: "run_due_jobs demo_sched_env fin 5000 (js_items demo_jobs) (demo_sched_world \<lparr> sl_run := r \<rparr>) =
    demo_sched_world \<lparr> sl_run := r \<rparr>" if "rw_sched r = rw_sched (sl_run demo_sched_world)"
  using that by (simp add: demo_jobs_def due_kind_def demo_sched_world_def demo_world_def sched_defs load_store log_due_def
      interval_secs_def or_else_def)

lemma demo_pass_store: "sl_store (run_passes demo_passes demo_sched_world) = demo_jobs"
proof -
  have "sl_store demo_sched_world = demo_jobs" "re_clock (sv_run demo_sched_env) n = 5000" for n
    by (simp_all add: demo_sched_world_def demo_sched_env_def)
  then show ?thesis
    using demo_not_due by (simp add: demo_passes_def sched_pass_def unix_now_def Let_def)
qed

definition demo_api :: ApiClient where
  "demo_api = \<lparr> ac_host = ''h'', ac_port = DEFAULT_PORT, ac_auth_id = ''u@pbs'', ac_secret = ''s'', ac_fingerprint = ''fp'' \<rparr>"

lemma demo_lists:
  "ctx_api demo_sql_ctx = Ok demo_api"
  "full_group demo_sql_ctx ''db'' = ''host-db''" "log_group demo_sql_ctx ''db'' = ''host-db-log''"
  "sint (stall_grace 15) = 3600"
  by code_simp+

theorem stalls_reported_witness:
  "\<exists>a \<in> set (sl_alerts (run_passes demo_passes demo_sched_world)). alert_key a = (''j'', ''db'') \<and> sint (al_time a) \<le> 5000"
proof -
  define job where "job = hd (js_items demo_jobs)"
  have start: "clock_forward 0 demo_passes demo_sched_world" "sl_alerts demo_sched_world = []"
    "sl_alerted demo_sched_world = Map.empty"
    by (simp_all add: demo_passes_def demo_sched_world_def demo_sched_env_def pass_now_def)
  have "demo_stores \<lparr> se_jobs := demo_jobs \<rparr> = demo_stores"
    by (simp add: demo_stores_def)
  then have "\<exists>a \<in> set (sl_alerts (run_passes demo_passes demo_sched_world)). alert_key a = (j_id job, ''db'') \<and>
      sint (pass_now demo_sched_env demo_sched_world) - REALERT_SECS < sint (al_time a) \<and>
      sint (al_time a) \<le> sint (pass_now demo_sched_env demo_sched_world)"
    using stalls_reported [OF start, THEN conjunct2, unfolded Let_def demo_pass_store, rule_format,
        of "[]" demo_sched_env "\<lambda>_. Ran (Completed False)" demo_stores demo_pbs_env job "''c''" "[''db'']" Manual 15
           "''db''" demo_sql_ctx demo_api "[demo_snapshot 100]" "[demo_snapshot 150]"] demo_job_resolves
    by (simp add: demo_passes_def demo_sched_env_def demo_sched_world_def pass_now_def job_def demo_jobs_def demo_lists
          ctx_list_def demo_pbs_env_def demo_snapshot_def)
  then show ?thesis
    by (auto simp: job_def demo_jobs_def pass_now_def demo_sched_env_def)
qed

text \<open>An unreadable group counts as an empty one. When the log group of a database cannot be listed,
  its chain is judged by the full backups alone, so it is reported as stalled once the newest full
  is older than the grace time, however fresh the logs are; and when neither group can be listed the
  database is never reported as stalled, however long ago its last backup was.\<close>

theorem unreadable_group_misjudged:
  assumes "ctx_list P ctx api (log_group ctx db) = Err e" "0 \<le> sint now"
  shows "(\<forall>fulls. ctx_list P ctx api (full_group ctx db) = Ok fulls \<and> fulls \<noteq> [] \<and>
       (\<forall>s \<in> set fulls. 0 \<le> sint (sn_backup_time s) \<and> sint grace < sint now - sint (sn_backup_time s)) \<longrightarrow>
       ss_stalled (db_status P api ctx grace now db)) \<and>
    (\<forall>e'. ctx_list P ctx api (full_group ctx db) = Err e' \<longrightarrow> \<not> ss_stalled (db_status P api ctx grace now db))"
proof (intro conjI allI impI)
  fix fulls
  assume a: "ctx_list P ctx api (full_group ctx db) = Ok fulls \<and> fulls \<noteq> [] \<and>
    (\<forall>s \<in> set fulls. 0 \<le> sint (sn_backup_time s) \<and> sint grace < sint now - sint (sn_backup_time s))"
  then obtain m where m: "time_max (map sn_backup_time fulls) = Some m"
    using time_max_exists [of "map sn_backup_time fulls"] by auto
  then have "sint grace < sint (now - m)"
    using a assms(2) by (auto simp: time_max_iff i64_diff)
  then show "ss_stalled (db_status P api ctx grace now db)"
    using a assms(1) m flatten_max [of "map sn_backup_time fulls" "[]"]
    by (simp add: db_status_def group_stats_def full_group_def log_group_def time_max_def Let_def)
next
  show "\<not> ss_stalled (db_status P api ctx grace now db)" if "ctx_list P ctx api (full_group ctx db) = Err e'" for e'
    using that assms(1) by (simp add: db_status_def group_stats_def full_group_def log_group_def flatten_def time_max_def Let_def)
qed

theorem unreadable_group_misjudged_witness:
  "ss_stalled (db_status (demo_pbs_env \<lparr> pe_list := (\<lambda>_ _ _ _ grp. if grp = ''host-db'' then Ok [demo_snapshot 100] else Err [''timeout'']) \<rparr>)
     demo_api demo_sql_ctx 3600 5000 ''db'')"
  using unreadable_group_misjudged
    [of "demo_pbs_env \<lparr> pe_list := (\<lambda>_ _ _ _ grp. if grp = ''host-db'' then Ok [demo_snapshot 100] else Err [''timeout'']) \<rparr>"
      demo_sql_ctx _ "''db''" "[''timeout'']" 5000, THEN conjunct1, rule_format, of demo_api "[demo_snapshot 100]" 3600]
  by (simp add: demo_lists ctx_list_def demo_snapshot_def)

end
