(* ===== verification/RelayProto.thy ===== *)
theory RelayProto
  imports Streams
begin

text \<open>
  The wire protocol between a proxy and its relay agents (\<open>pbsgui-engine/src/relay/proto.rs\<close>): frames
  of a kind byte, a 32-bit length and a payload. The JSON form of a control message is a parameter.
  A connection is the bytes still to arrive before the peer closes it.
\<close>

datatype ControlMsg =
  Register (rg_agent_name: string) (rg_host: string) (rg_token: string) (rg_version: string) (rg_proto: u32)
| SessionDone (sd_session_id: string) (sd_ok: bool) (sd_error: "string option") (sd_bytes: u64)
| Pong
| Registered (rd_ok: bool) (rd_message: string)
| StartBackup (sb_session_id: string) (sb_instance: "string option") (sb_set_name: string)
| StartRestore (sr_session_id: string) (sr_instance: "string option") (sr_set_name: string)
| Cancel (cc_session_id: string)
| Ping
| Hello (he_session_id: string) (he_token: string)
| End (en_ok: bool) (en_error: "string option")

datatype Frame = Control ControlMsg | Data bytes

record msg_codec =
  mc_print :: "ControlMsg \<Rightarrow> bytes"
  mc_parse :: "bytes \<Rightarrow> string + ControlMsg"

text \<open>What the protocol relies on: the JSON form of a frame's message parses back.\<close>

definition codec_faithful :: "msg_codec \<Rightarrow> Frame \<Rightarrow> bool" where
  "codec_faithful C f = (case f of Control m \<Rightarrow> mc_parse C (mc_print C m) = Ok m | Data _ \<Rightarrow> True)"

definition RELAY_PROTO_VERSION :: u32 where "RELAY_PROTO_VERSION = 1"
definition DEFAULT_RELAY_PORT :: u16 where "DEFAULT_RELAY_PORT = 8317"
definition MAX_FRAME :: u32 where "MAX_FRAME = 16 * 1024 * 1024"
definition KIND_CONTROL :: byte where "KIND_CONTROL = 0"
definition KIND_DATA :: byte where "KIND_DATA = 1"

section \<open>Writing\<close>

definition write_raw :: "byte \<Rightarrow> bytes \<Rightarrow> IoError + bytes" where
  "write_raw kind payload =
     (if length payload < 2 ^ 32 \<and> of_nat (length payload) \<le> MAX_FRAME then
        Ok ([kind] @ u32_to_le (of_nat (length payload)) @ payload)
      else Err (InvalidInput ''relay frame too large''))"

definition write_data :: "bytes \<Rightarrow> IoError + bytes" where
  "write_data payload = write_raw KIND_DATA payload"

definition write_control :: "msg_codec \<Rightarrow> ControlMsg \<Rightarrow> IoError + bytes" where
  "write_control C msg = write_raw KIND_CONTROL (mc_print C msg)"

definition write_frame :: "msg_codec \<Rightarrow> Frame \<Rightarrow> IoError + bytes" where
  "write_frame C frame =
     (case frame of
        Control msg \<Rightarrow> write_raw KIND_CONTROL (mc_print C msg)
      | Data bs \<Rightarrow> write_raw KIND_DATA bs)"

section \<open>Reading\<close>

definition read_exact :: "nat \<Rightarrow> bytes \<Rightarrow> IoError + bytes \<times> bytes" where
  "read_exact n s = (if n \<le> length s then Ok (take n s, drop n s) else Err (UnexpectedEof ''early eof''))"

definition read_payload :: "msg_codec \<Rightarrow> byte \<Rightarrow> bytes \<Rightarrow> IoError + Frame" where
  "read_payload C kind payload =
     (if kind = KIND_CONTROL then
        (case mc_parse C payload of
           Inl e \<Rightarrow> Err (InvalidData (''bad relay control frame: '' @ e))
         | Inr msg \<Rightarrow> Ok (Control msg))
      else if kind = KIND_DATA then Ok (Data payload)
      else Err (InvalidData (''unknown relay frame kind '' @ show_nat (unat kind))))"

definition read_frame :: "msg_codec \<Rightarrow> bytes \<Rightarrow> IoError + (Frame \<times> bytes) option" where
  "read_frame C s =
     (case s of
        [] \<Rightarrow> Ok None
      | kind # s1 \<Rightarrow>
          and_then (read_exact 4 s1) (\<lambda>(len_bytes, s2).
          let len = u32_from_le len_bytes in
          if MAX_FRAME < len then
            Err (InvalidData (''relay frame of '' @ show_nat (unat len) @ '' bytes exceeds the ''
                   @ show_nat (unat MAX_FRAME) @ '' limit''))
          else
            and_then (read_exact (unat len) s2) (\<lambda>(payload, s3).
            and_then (read_payload C kind payload) (\<lambda>f. Ok (Some (f, s3))))))"

section \<open>Round trip and truncation\<close>

lemma read_exact_append: "n = length a \<Longrightarrow> read_exact n (a @ s) = Ok (a, s)"
  by (simp add: read_exact_def)

lemma read_frame_shorter: "read_frame C s = Ok (Some (f, s')) \<Longrightarrow> length s' < length s"
  by (auto simp: read_frame_def read_exact_def Let_def split: list.splits if_splits)

definition frame_bytes :: "byte \<Rightarrow> bytes \<Rightarrow> bytes" where
  "frame_bytes kind payload = [kind] @ u32_to_le (of_nat (length payload)) @ payload"

lemma write_raw_Ok: "write_raw kind payload = Ok bs \<longleftrightarrow> length payload \<le> unat MAX_FRAME \<and> bs = frame_bytes kind payload"
proof -
  have "length payload < 2 ^ 32 \<and> (of_nat (length payload) :: u32) \<le> MAX_FRAME \<longleftrightarrow> length payload \<le> unat MAX_FRAME"
    by (auto simp: word_le_nat_alt unat_of_nat MAX_FRAME_def take_bit_nat_eq_self_iff [THEN iffD2])
  then show ?thesis
    by (auto simp: write_raw_def frame_bytes_def)
qed

lemma MAX_FRAME_nat: "unat MAX_FRAME = 16777216"
  by (simp add: MAX_FRAME_def)

lemma frame_length:
  assumes "length payload \<le> unat MAX_FRAME"
  shows "unat (of_nat (length payload) :: u32) = length payload" "\<not> MAX_FRAME < of_nat (length payload)"
  using assms by (auto simp: unat_of_nat MAX_FRAME_nat take_bit_nat_eq_self_iff [THEN iffD2] word_less_nat_alt)

lemma read_frame_bytes:
  assumes "length payload \<le> unat MAX_FRAME"
  shows "read_frame C (frame_bytes kind payload @ rest) =
    and_then (read_payload C kind payload) (\<lambda>f. Ok (Some (f, rest)))"
proof -
  have "read_exact 4 (u32_to_le (of_nat (length payload)) @ payload @ rest) =
      Ok (u32_to_le (of_nat (length payload)), payload @ rest)"
    by (rule read_exact_append) (simp add: codec_simps)
  moreover have "read_exact (length payload) (payload @ rest) = Ok (payload, rest)"
    by (rule read_exact_append) simp
  ultimately show ?thesis
    using frame_length [OF assms] by (simp add: read_frame_def frame_bytes_def codec_simps)
qed

lemma read_frame_cut:
  assumes "length payload \<le> unat MAX_FRAME" "0 < n" "n < length (frame_bytes kind payload)"
  shows "\<exists>e. read_frame C (take n (frame_bytes kind payload)) = Err e"
proof -
  obtain m where n: "n = Suc m"
    using assms(2) by (cases n) auto
  have cut: "take n (frame_bytes kind payload) = kind # take m (u32_to_le (of_nat (length payload)) @ payload)"
    by (simp add: n frame_bytes_def)
  show ?thesis
  proof (cases "m < 4")
    case True
    then show ?thesis
      unfolding cut by (simp add: read_frame_def read_exact_def codec_simps)
  next
    case False
    define p where "p = take (m - 4) payload"
    have split: "take m (u32_to_le (of_nat (length payload)) @ payload) = u32_to_le (of_nat (length payload)) @ p"
      using False by (simp add: p_def codec_simps)
    have "read_exact 4 (u32_to_le (of_nat (length payload)) @ p) = Ok (u32_to_le (of_nat (length payload)), p)"
      by (rule read_exact_append) (simp add: codec_simps)
    moreover have "length p < length payload"
      using assms(3) False by (simp add: p_def n frame_bytes_def codec_simps min_def)
    ultimately show ?thesis
      unfolding cut split using frame_length [OF assms(1)]
      by (simp add: read_frame_def codec_simps) (simp add: read_exact_def)
  qed
qed

text \<open>A connection as a sequence of frames.\<close>

fun write_frames :: "msg_codec \<Rightarrow> Frame list \<Rightarrow> IoError + bytes" where
  "write_frames C [] = Ok []"
| "write_frames C (f # fs) = and_then (write_frame C f) (\<lambda>b. and_then (write_frames C fs) (\<lambda>bs. Ok (b @ bs)))"

definition frame_payload :: "msg_codec \<Rightarrow> Frame \<Rightarrow> bytes" where
  "frame_payload C f = (case f of Control m \<Rightarrow> mc_print C m | Data bs \<Rightarrow> bs)"

definition frame_kind :: "Frame \<Rightarrow> byte" where
  "frame_kind f = (case f of Control _ \<Rightarrow> KIND_CONTROL | Data _ \<Rightarrow> KIND_DATA)"

lemma write_frame_Ok:
  "write_frame C f = Ok bs \<longleftrightarrow>
   length (frame_payload C f) \<le> unat MAX_FRAME \<and> bs = frame_bytes (frame_kind f) (frame_payload C f)"
  by (auto simp: write_frame_def write_raw_Ok frame_payload_def frame_kind_def split: Frame.splits)

lemma read_payload_frame:
  "codec_faithful C f \<Longrightarrow> read_payload C (frame_kind f) (frame_payload C f) = Ok f"
  by (cases f) (simp_all add: read_payload_def frame_kind_def frame_payload_def codec_faithful_def
      KIND_CONTROL_def KIND_DATA_def)

lemma read_written_frame:
  "codec_faithful C f \<Longrightarrow> write_frame C f = Ok bs \<Longrightarrow> read_frame C (bs @ rest) = Ok (Some (f, rest))"
  by (simp add: write_frame_Ok read_frame_bytes read_payload_frame)

lemma read_cut_frame:
  "write_frame C f = Ok bs \<Longrightarrow> 0 < n \<Longrightarrow> n < length bs \<Longrightarrow> \<exists>e. read_frame C (take n bs) = Err e"
  by (auto simp: write_frame_Ok intro: read_frame_cut)

lemma write_frames_append:
  "write_frames C (fs @ gs) = Ok bs \<longleftrightarrow> (\<exists>a b. write_frames C fs = Ok a \<and> write_frames C gs = Ok b \<and> bs = a @ b)"
  by (induction fs arbitrary: bs) auto

text \<open>Reading a connection to its end: the frames read, and how it ended.\<close>

function read_frames :: "msg_codec \<Rightarrow> bytes \<Rightarrow> Frame list \<times> (IoError + unit)" where
  "read_frames C s =
     (case read_frame C s of
        Inl e \<Rightarrow> ([], Err e)
      | Inr None \<Rightarrow> ([], Ok ())
      | Inr (Some (f, s')) \<Rightarrow> let (fs, r) = read_frames C s' in (f # fs, r))"
  by pat_completeness auto
termination
  by (relation "measure (length \<circ> snd)") (auto simp: read_frame_shorter)

declare read_frames.simps [simp del]

lemma read_frames_Nil [simp]: "read_frames C [] = ([], Ok ())"
  by (simp add: read_frames.simps [of C "[]"] read_frame_def)

lemma read_cut_frames:
  assumes "list_all (codec_faithful C) fs" "write_frames C fs = Ok bs"
  shows "read_frames C bs = (fs, Ok ()) \<and>
    (\<exists>k \<le> length fs. fst (read_frames C (take n bs)) = take k fs \<and>
       (is_ok (snd (read_frames C (take n bs))) \<longleftrightarrow> write_frames C (take k fs) = Ok (take n bs))) \<and>
    list_all (\<lambda>f. length (frame_payload C f) \<le> unat MAX_FRAME) fs"
  using assms
proof (induction fs arbitrary: bs n)
  case (Cons f fs)
  obtain b bs' where w: "write_frame C f = Ok b" "write_frames C fs = Ok bs'" "bs = b @ bs'"
    using Cons.prems(2) by auto
  have cf: "codec_faithful C f" "list_all (codec_faithful C) fs"
    using Cons.prems(1) by simp_all
  have whole: "read_frames C (b @ s) = (f # fst (read_frames C s), snd (read_frames C s))" for s
    using read_written_frame [OF cf(1) w(1), of s] by (simp add: read_frames.simps [of C "b @ s"] split_beta)
  have "\<exists>k \<le> length (f # fs). fst (read_frames C (take n bs)) = take k (f # fs) \<and>
      (is_ok (snd (read_frames C (take n bs))) \<longleftrightarrow> write_frames C (take k (f # fs)) = Ok (take n bs))"
  proof (cases "n < length b")
    case True
    then have cut: "take n bs = take n b"
      by (simp add: w(3))
    show ?thesis
    proof (cases "n = 0")
      case True
      then show ?thesis
        by (intro exI [of _ 0]) simp
    next
      case False
      obtain e where "read_frame C (take n b) = Err e"
        using read_cut_frame [OF w(1), of n] False True by auto
      then have "read_frames C (take n b) = ([], Err e)"
        by (simp add: read_frames.simps [of C "take n b"])
      then show ?thesis
        using False True cut by (intro exI [of _ 0]) (auto simp: w)
    qed
  next
    case False
    then have cut: "take n bs = b @ take (n - length b) bs'"
      by (simp add: w(3))
    obtain k where "k \<le> length fs" "fst (read_frames C (take (n - length b) bs')) = take k fs"
      "is_ok (snd (read_frames C (take (n - length b) bs'))) \<longleftrightarrow>
        write_frames C (take k fs) = Ok (take (n - length b) bs')"
      using Cons.IH [OF cf(2) w(2)] by blast
    then show ?thesis
      unfolding cut whole by (intro exI [of _ "Suc k"]) (auto simp: w(1))
  qed
  moreover have "read_frames C bs = (f # fs, Ok ())"
    using Cons.IH [OF cf(2) w(2)] by (simp add: w(3) whole)
  ultimately show ?case
    using Cons.IH [OF cf(2) w(2)] w(1) by (simp add: write_frame_Ok)
qed simp

text \<open>C14: The frame codec is exact, also on a connection that breaks. Frames written one after another
  read back as the same frames, and the reader then sees the end. A connection cut after any number
  of bytes gives a prefix of the frames; it ends without an error only when it was cut exactly
  between two frames, and a cut inside a frame is an error, never a clean end. Every payload fits
  the limit of 16 MiB, and a larger one is refused when written.\<close>

theorem frames_survive_cuts:
  assumes "list_all (codec_faithful C) fs" "write_frames C fs = Ok bs"
  shows "read_frames C bs = (fs, Ok ()) \<and>
    (\<exists>k \<le> length fs. fst (read_frames C (take n bs)) = take k fs \<and>
       (is_ok (snd (read_frames C (take n bs))) \<longleftrightarrow> write_frames C (take k fs) = Ok (take n bs))) \<and>
    list_all (\<lambda>f. length (frame_payload C f) \<le> unat MAX_FRAME) fs"
  by (rule read_cut_frames [OF assms])

definition demo_codec :: msg_codec where
  "demo_codec =
     \<lparr> mc_print = (\<lambda>m. case m of Ping \<Rightarrow> [1] | Pong \<Rightarrow> [2] | End ok _ \<Rightarrow> [if ok then 3 else 4]
          | Hello _ _ \<Rightarrow> [5] | _ \<Rightarrow> []),
       mc_parse = (\<lambda>b. if b = [1] then Ok Ping else if b = [2] then Ok Pong else if b = [3] then Ok (End True None)
          else if b = [4] then Ok (End False None) else if b = [5] then Ok (Hello ''s'' ''t'') else Err ''bad'') \<rparr>"

theorem frames_survive_cuts_witness:
  "fst (read_frames demo_codec (take 9 (frame_bytes KIND_DATA [7, 8] @ frame_bytes KIND_CONTROL [3]))) \<in>
   {[], [Data [7, 8]], [Data [7, 8], Control (End True None)]}"
proof -
  define fs where "fs = [Data [7, 8], Control (End True None)]"
  have "list_all (codec_faithful demo_codec) fs"
    by (simp add: fs_def codec_faithful_def demo_codec_def)
  moreover have "write_frames demo_codec fs = Ok (frame_bytes KIND_DATA [7, 8] @ frame_bytes KIND_CONTROL [3])"
    by (simp add: fs_def demo_codec_def write_frame_def write_raw_def frame_bytes_def MAX_FRAME_def)
  ultimately obtain k where "k \<le> length fs"
    "fst (read_frames demo_codec (take 9 (frame_bytes KIND_DATA [7, 8] @ frame_bytes KIND_CONTROL [3]))) = take k fs"
    using frames_survive_cuts [of demo_codec fs _ 9] by blast
  moreover from this have "k = 0 \<or> k = 1 \<or> k = 2"
    by (auto simp: fs_def)
  ultimately show ?thesis
    by (auto simp: fs_def)
qed

end
