(* ===== verification/RelayServer.thy ===== *)
theory RelayServer
  imports RelayProto SqlStatements
begin

text \<open>
  The proxy's registry (\<open>pbsgui-engine/src/relay/server.rs\<close>): which agents are connected, which device
  sessions wait for their data connection, and what the connections do to both.

  A connection is named by a number. The state also holds the calls of \<open>open_session\<close> that are
  waiting (with the agent they were called for, a local variable of the call) and what was sent on
  each call's channel. A label is one event: a registration, a frame or the end of a control
  connection, the start or the end of a call of \<open>open_session\<close>, or a data connection's first frame.
  The configured agents and their tokens are fixed when the server is created.
\<close>

section \<open>State\<close>

type_synonym connection = nat

record AgentConn =
  ag_host :: string
  ag_version :: string
  ag_control :: connection

record relay_state =
  rs_agents :: "string \<rightharpoonup> AgentConn"
  rs_sessions :: "string \<rightharpoonup> string"
  rs_waiting :: "string \<rightharpoonup> string"
  rs_delivered :: "string \<rightharpoonup> string + connection"

definition relay_new :: relay_state where
  "relay_new = \<lparr> rs_agents = Map.empty, rs_sessions = Map.empty, rs_waiting = Map.empty, rs_delivered = Map.empty \<rparr>"

definition quoted :: "string \<Rightarrow> string" where
  "quoted s = [CHR 39] @ s @ [CHR 39]"

section \<open>Control connections\<close>

definition refusal :: "(string \<rightharpoonup> string) \<Rightarrow> string \<Rightarrow> string \<Rightarrow> u32 \<Rightarrow> string option" where
  "refusal tokens agent_name token proto =
     (if proto \<noteq> RELAY_PROTO_VERSION then
        Some (''protocol mismatch: agent speaks v'' @ show_nat (unat proto) @ '', this proxy v''
                @ show_nat (unat RELAY_PROTO_VERSION) @ '' (update the older side)'')
      else
        (case tokens agent_name of
           Some expected \<Rightarrow> if expected = token then None else Some ''bad token''
         | None \<Rightarrow> Some (''agent '' @ quoted agent_name @ '' is not configured on this proxy'')))"

text \<open>The start of a control connection: the reply, and whether it is served.\<close>

definition serve_control ::
  "(string \<rightharpoonup> string) \<Rightarrow> connection \<Rightarrow> string \<Rightarrow> string \<Rightarrow> string \<Rightarrow> string \<Rightarrow> u32 \<Rightarrow> relay_state
     \<Rightarrow> ControlMsg \<times> (anyhow + unit) \<times> relay_state" where
  "serve_control tokens c agent_name hst token version proto s =
     (case refusal tokens agent_name token proto of
        Some message \<Rightarrow>
          (Registered False message, Err [''refused agent '' @ quoted agent_name @ '': '' @ message], s)
      | None \<Rightarrow>
          (Registered True ''welcome'', Ok (),
           s \<lparr> rs_agents := (rs_agents s)(agent_name \<mapsto>
                \<lparr> ag_host = hst, ag_version = version, ag_control = c \<rparr>) \<rparr>))"

text \<open>Its end: the entry goes only if it is still this connection's.\<close>

definition control_closed :: "connection \<Rightarrow> string \<Rightarrow> relay_state \<Rightarrow> relay_state" where
  "control_closed c agent_name s =
     (case rs_agents s agent_name of
        Some a \<Rightarrow> if ag_control a = c then s \<lparr> rs_agents := (rs_agents s)(agent_name := None) \<rparr> else s
      | None \<Rightarrow> s)"

text \<open>One frame of a control connection; \<open>Err\<close> ends it.\<close>

definition read_control_loop :: "Frame \<Rightarrow> relay_state \<Rightarrow> (anyhow + unit) \<times> relay_state" where
  "read_control_loop frame s =
     (case frame of
        Control (SessionDone session_id ok error _) \<Rightarrow>
          if ok then (Ok (), s)
          else
            let message = unwrap_or ''unknown error'' error in
            (case rs_sessions s session_id of
               None \<Rightarrow> (Ok (), s)
             | Some _ \<Rightarrow>
                 (Ok (), s \<lparr> rs_sessions := (rs_sessions s)(session_id := None),
                            rs_delivered := (rs_delivered s)(session_id \<mapsto> Inl message) \<rparr>))
      | Control ControlMsg.Pong \<Rightarrow> (Ok (), s)
      | _ \<Rightarrow> (Err [''unexpected frame from the agent''], s))"

section \<open>Sessions\<close>

text \<open>The first half of \<open>open_session\<close>, up to the command; \<open>took\<close> says whether the agent's connection
  took it, and \<open>session_id\<close> is the new identifier.\<close>

definition open_session ::
  "(string \<rightharpoonup> string) \<Rightarrow> string \<Rightarrow> string \<Rightarrow> bool \<Rightarrow> relay_state \<Rightarrow> (anyhow + unit) \<times> relay_state" where
  "open_session tokens agent session_id took s =
     (case rs_agents s agent of
        None \<Rightarrow> (Err [''relay agent '' @ quoted agent @ '' is not connected''], s)
      | Some _ \<Rightarrow>
          (case tokens agent of
             None \<Rightarrow> (Err [''relay agent '' @ quoted agent @ '' is not configured''], s)
           | Some expected_token \<Rightarrow>
               if took then
                 (Ok (), s \<lparr> rs_sessions := (rs_sessions s)(session_id \<mapsto> expected_token),
                            rs_waiting := (rs_waiting s)(session_id \<mapsto> agent) \<rparr>)
               else (Err [''relay agent '' @ quoted agent @ '' disconnected''],
                     s \<lparr> rs_sessions := (rs_sessions s)(session_id := None) \<rparr>)))"

text \<open>The second half: what the call returns when its channel delivers, is dropped, or times out.\<close>

definition session_arrival :: "string \<Rightarrow> string \<Rightarrow> relay_state \<Rightarrow> (anyhow + connection) \<times> relay_state" where
  "session_arrival agent session_id s =
     (let s1 = s \<lparr> rs_waiting := (rs_waiting s)(session_id := None),
                   rs_delivered := (rs_delivered s)(session_id := None) \<rparr>;
          s2 = s1 \<lparr> rs_sessions := (rs_sessions s)(session_id := None) \<rparr>
      in case rs_delivered s session_id of
           Some (Inr stream) \<Rightarrow> (Ok stream, s1)
         | Some (Inl error) \<Rightarrow> (Err [''relay agent '' @ quoted agent @ '' could not start the session: '' @ error], s2)
         | None \<Rightarrow> (Err [''relay agent '' @ quoted agent @ '' did not open a data connection within 60s''], s2))"

text \<open>A data connection: its first frame takes the slot, and the stream is delivered on the right token.\<close>

definition hello_conn :: "connection \<Rightarrow> string \<Rightarrow> string \<Rightarrow> relay_state \<Rightarrow> (anyhow + unit) \<times> relay_state" where
  "hello_conn c session_id token s =
     (let s1 = s \<lparr> rs_sessions := (rs_sessions s)(session_id := None) \<rparr> in
      case rs_sessions s session_id of
        Some expected_token \<Rightarrow>
          if expected_token = token then
            (Ok (), s1 \<lparr> rs_delivered := (rs_delivered s)(session_id \<mapsto> Inr c) \<rparr>)
          else (Err [''data connection for session '' @ session_id @ '': bad token''], s1)
      | None \<Rightarrow> (Err [''data connection for unknown session '' @ session_id], s1))"

definition handle_conn ::
  "(string \<rightharpoonup> string) \<Rightarrow> connection \<Rightarrow> Frame option \<Rightarrow> relay_state \<Rightarrow> (anyhow + unit) \<times> relay_state" where
  "handle_conn tokens c first s =
     (case first of
        None \<Rightarrow> (Err [''connection closed before the first frame''], s)
      | Some (Control (Register agent_name hst token version proto)) \<Rightarrow>
          snd (serve_control tokens c agent_name hst token version proto s)
      | Some (Control (Hello session_id token)) \<Rightarrow> hello_conn c session_id token s
      | Some _ \<Rightarrow> (Err [''unexpected first frame''], s))"

section \<open>The machine\<close>

datatype RelayLabel =
  Connect connection "Frame option"
| AgentFrame Frame
| ControlClosed connection string
| OpenSession string string bool
| Arrival string

text \<open>Identifiers of sessions are random: a new one is not in use.\<close>

definition relay_step :: "(string \<rightharpoonup> string) \<Rightarrow> relay_state \<Rightarrow> RelayLabel \<Rightarrow> relay_state option" where
  "relay_step tokens s l =
     (case l of
        Connect c first \<Rightarrow> Some (snd (handle_conn tokens c first s))
      | AgentFrame frame \<Rightarrow> Some (snd (read_control_loop frame s))
      | ControlClosed c agent_name \<Rightarrow> Some (control_closed c agent_name s)
      | OpenSession agent session_id took \<Rightarrow>
          if rs_sessions s session_id = None \<and> rs_waiting s session_id = None \<and> rs_delivered s session_id = None
          then Some (snd (open_session tokens agent session_id took s)) else None
      | Arrival session_id \<Rightarrow>
          (case rs_waiting s session_id of
             None \<Rightarrow> None
           | Some agent \<Rightarrow> Some (snd (session_arrival agent session_id s))))"

definition relay_inv :: "(string \<rightharpoonup> string) \<Rightarrow> relay_state \<Rightarrow> bool" where
  "relay_inv tokens s \<longleftrightarrow>
     (\<forall>agent. rs_agents s agent \<noteq> None \<longrightarrow> tokens agent \<noteq> None) \<and>
     (\<forall>sid token. rs_sessions s sid = Some token \<longrightarrow>
        rs_delivered s sid = None \<and> (\<exists>agent. rs_waiting s sid = Some agent \<and> tokens agent = Some token)) \<and>
     (\<forall>sid. rs_delivered s sid \<noteq> None \<longrightarrow> rs_waiting s sid \<noteq> None)"

lemma serve_control_inv:
  assumes "relay_inv tokens s" "serve_control tokens c agent_name hst token version proto s = (m, r, s')"
  shows "relay_inv tokens s'"
proof (cases "refusal tokens agent_name token proto")
  case None
  then have "tokens agent_name \<noteq> None"
    by (auto simp: refusal_def split: if_splits option.splits)
  then show ?thesis
    using assms None by (auto simp: serve_control_def relay_inv_def split: if_splits)
qed (use assms in \<open>auto simp: serve_control_def\<close>)

lemma hello_conn_inv:
  assumes "relay_inv tokens s" "hello_conn c sid token s = (r, s')"
  shows "relay_inv tokens s'"
  using assms by (auto simp: hello_conn_def relay_inv_def Let_def split: option.splits if_splits) blast

lemma control_inv:
  assumes "relay_inv tokens s"
  shows "relay_inv tokens (control_closed c agent_name s)" "relay_inv tokens (snd (read_control_loop frame s))"
proof -
  show "relay_inv tokens (control_closed c agent_name s)"
    using assms by (auto simp: control_closed_def relay_inv_def split: option.splits if_splits)
  show "relay_inv tokens (snd (read_control_loop frame s))"
    using assms
    by (auto simp: read_control_loop_def relay_inv_def Let_def split: Frame.split ControlMsg.split option.split) blast
qed

lemma session_inv:
  assumes "relay_inv tokens s"
  shows "rs_delivered s sid = None \<Longrightarrow> relay_inv tokens (snd (open_session tokens agent sid took s))"
    and "relay_inv tokens (snd (session_arrival agent sid s))"
proof -
  show "relay_inv tokens (snd (open_session tokens agent sid took s))" if "rs_delivered s sid = None"
    using assms that by (auto simp: open_session_def relay_inv_def split: option.split)
  show "relay_inv tokens (snd (session_arrival agent sid s))"
    using assms
    by (auto simp: session_arrival_def relay_inv_def Let_def split: option.split sum.split)
      (metis not_None_eq option.distinct(1))
qed

lemma relay_step_inv:
  assumes "relay_inv tokens s" "relay_step tokens s l = Some s'"
  shows "relay_inv tokens s'"
proof (cases l)
  case (Connect c first)
  then have s': "s' = snd (handle_conn tokens c first s)"
    using assms(2) by (simp add: relay_step_def)
  show ?thesis
    unfolding s' handle_conn_def
    using assms(1) hello_conn_inv [OF assms(1)] serve_control_inv [OF assms(1)]
    by (auto split: option.split Frame.split ControlMsg.split) (metis prod.collapse)+
qed (use assms control_inv session_inv in \<open>auto simp: relay_step_def split: if_splits option.splits\<close>)

interpretation relay_registry: inductive_invariant "\<lambda>s. s = relay_new" "\<lambda>s l s'. relay_step tokens s l = Some s'"
  "relay_inv tokens" for tokens
proof unfold_locales
  show "relay_inv tokens s" if "s = relay_new" for s
    using that by (simp add: relay_inv_def relay_new_def)
qed (rule relay_step_inv)

text \<open>The end of a replaced connection does not remove the agent's newer one.\<close>

lemma late_close_keeps_reconnect:
  assumes "serve_control tokens c2 name h token v proto s = (m, Ok (), s')" "c1 \<noteq> c2"
  shows "control_closed c1 name s' = s'"
  using assms by (auto simp: serve_control_def control_closed_def split: option.splits)


definition demo_tokens :: "string \<rightharpoonup> string" where
  "demo_tokens = [''a'' \<mapsto> ''t'']"


end
