(* ===== verification/Relay.thy ===== *)
theory Relay
  imports RelayProto VdiRun
begin

text \<open>
  The relay: device sessions on an agent (\<open>relay/agent.rs\<close>), the proxy's side of their data
  connections and its registry of agents and waiting sessions (\<open>relay/server.rs\<close>), and the backup
  through a relay (\<open>relay/backup.rs\<close>).

  A session is modelled by the frames it puts on its data connection; the connection accepts a
  number of frames (\<open>room\<close>) before it breaks, and the proxy may receive any prefix of the bytes. The
  registry is a state machine over the events of its connections.
\<close>

section \<open>Sessions on the agent\<close>

record AgentConfig =
  ac_proxy_addr :: string
  ac_proxy_fingerprint :: string
  ac_agent_name :: string
  ac_token :: string

definition io_text :: "IoError \<Rightarrow> string" where
  "io_text e =
     (case e of IoError.UnexpectedEof s \<Rightarrow> s | BrokenPipe s \<Rightarrow> s | InvalidInput s \<Rightarrow> s | InvalidData s \<Rightarrow> s | OtherIo s \<Rightarrow> s)"

definition LOST :: IoError where "LOST = BrokenPipe ''connection lost''"

text \<open>Forwarding the device's buffers: the frames written, the error that stopped it, and what the
  connection still accepts.\<close>

fun send_loop :: "nat \<Rightarrow> bytes list \<Rightarrow> Frame list \<times> IoError option \<times> nat" where
  "send_loop room [] = ([], None, room)"
| "send_loop room (buf # bufs) =
     (case write_data buf of
        Inl e \<Rightarrow> ([], Some e, room)
      | Inr _ \<Rightarrow>
          if room = 0 then ([], Some LOST, 0)
          else let (fs, e, left) = send_loop (room - 1) bufs in (Frame.Data buf # fs, e, left))"

definition end_verdict :: "anyhow + u64 \<Rightarrow> IoError option \<Rightarrow> ControlMsg" where
  "end_verdict device_result send_error =
     (case (device_result, send_error) of
        (Inr _, None) \<Rightarrow> End True None
      | (Inr _, Some e) \<Rightarrow> End False (Some (''sending backup data failed: '' @ io_text e))
      | (Inl e, _) \<Rightarrow> End False (Some (alt_text e)))"

definition device_ready :: "(anyhow + unit) option \<Rightarrow> anyhow + unit" where
  "device_ready ready =
     (case ready of
        None \<Rightarrow> Err [''the device runner exited before signaling readiness'']
      | Some r \<Rightarrow> with_context ''creating the VDI device set'' r)"

text \<open>Opening the data connection: dial it and bind it to the session.\<close>

definition open_data :: "msg_codec \<Rightarrow> AgentConfig \<Rightarrow> string \<Rightarrow> anyhow + unit \<Rightarrow> nat \<Rightarrow> anyhow + Frame" where
  "open_data C cfg session_id dial room =
     and_then (with_context ''dialing the data connection'' dial) (\<lambda>_.
     case write_control C (Hello session_id (ac_token cfg)) of
       Inl e \<Rightarrow> Err [io_text e]
     | Inr _ \<Rightarrow> if room = 0 then Err [io_text LOST] else Ok (Control (Hello session_id (ac_token cfg))))"

definition run_backup_session ::
  "msg_codec \<Rightarrow> AgentConfig \<Rightarrow> string \<Rightarrow> (anyhow + unit) option \<Rightarrow> anyhow + unit \<Rightarrow> nat \<Rightarrow> bytes list
     \<Rightarrow> string + (anyhow + u64) \<Rightarrow> Frame list \<times> (anyhow + u64)" where
  "run_backup_session C cfg session_id ready dial room bufs device =
     (case and_then (device_ready ready) (\<lambda>_. open_data C cfg session_id dial room) of
        Inl e \<Rightarrow> ([], Err e)
      | Inr hello \<Rightarrow>
          let (fs, send_error, left) = send_loop (room - 1) bufs in
          (case device of
             Inl p \<Rightarrow> (hello # fs, Err [''device thread panicked: '' @ p])
           | Inr device_result \<Rightarrow>
               let msg = end_verdict device_result send_error;
                   ends = (if is_ok (write_control C msg) \<and> 0 < left then [Control msg] else [])
               in (hello # fs @ ends,
                   case send_error of
                     Some e \<Rightarrow> Err [''sending backup data to the proxy'', io_text e]
                   | None \<Rightarrow> device_result)))"

text \<open>The restore direction: feeding the device from the frames of the data connection. \<open>taken\<close> is how
  many buffers the device takes before it stops reading.\<close>

fun feed_device :: "nat \<Rightarrow> Frame list \<Rightarrow> bytes list \<times> bool" where
  "feed_device taken [] = ([], False)"
| "feed_device taken (Frame.Data bs # fs) =
     (if taken = 0 then ([], False) else apfst (Cons bs) (feed_device (taken - 1) fs))"
| "feed_device taken (Control msg # fs) = (case msg of End ok _ \<Rightarrow> ([], ok) | _ \<Rightarrow> ([], False))"

definition run_restore_session ::
  "msg_codec \<Rightarrow> AgentConfig \<Rightarrow> string \<Rightarrow> (anyhow + unit) option \<Rightarrow> anyhow + unit \<Rightarrow> nat \<Rightarrow> nat \<Rightarrow> bytes
     \<Rightarrow> (bytes list \<Rightarrow> string + (anyhow + u64)) \<Rightarrow> bytes list \<times> (anyhow + u64)" where
  "run_restore_session C cfg session_id ready dial room taken received device =
     (case and_then (device_ready ready) (\<lambda>_. open_data C cfg session_id dial room) of
        Inl e \<Rightarrow> ([], Err e)
      | Inr _ \<Rightarrow>
          let (fed, stream_ok) = feed_device taken (fst (read_frames C received)) in
          (case device fed of
             Inl p \<Rightarrow> (fed, Err [''device thread panicked: '' @ p])
           | Inr (Inl e) \<Rightarrow> (fed, Err e)
           | Inr (Inr sz) \<Rightarrow>
               (fed, if stream_ok then Ok sz
                     else Err [''the restore image stream from the proxy did not complete''])))"

text \<open>The report of a session to the proxy.\<close>

definition session_done :: "string \<Rightarrow> anyhow + u64 \<Rightarrow> ControlMsg" where
  "session_done session_id result =
     (case result of
        Inr sz \<Rightarrow> SessionDone session_id True None sz
      | Inl e \<Rightarrow> SessionDone session_id False (Some (alt_text e)) 0)"

section \<open>The proxy's data connections\<close>

text \<open>Forwarding a session's frames to the reader: the buffers, and what is sent on the verdict channel.
  \<open>room\<close> is how many buffers the reader takes before it is dropped.\<close>

fun pump_frames :: "nat \<Rightarrow> Frame list \<Rightarrow> bytes list \<times> bool list" where
  "pump_frames room [] = ([], [])"
| "pump_frames room (Frame.Data bs # fs) =
     (if room = 0 then ([], []) else apfst (Cons bs) (pump_frames (room - 1) fs))"
| "pump_frames room (Control msg # fs) = (case msg of End ok _ \<Rightarrow> ([], [ok]) | _ \<Rightarrow> ([], []))"

definition pump_data :: "msg_codec \<Rightarrow> nat \<Rightarrow> bytes \<Rightarrow> bytes list \<times> bool list" where
  "pump_data C room received = pump_frames room (fst (read_frames C received))"

definition relay_reader_of :: "bytes list \<times> bool list \<Rightarrow> RelayRead" where
  "relay_reader_of p = channel_open (fst p) (snd p)"

text \<open>The frames of a restore: the image's chunks, then the end once the producer has dropped its side.\<close>

fun push_data :: "nat \<Rightarrow> bytes list \<Rightarrow> Frame list" where
  "push_data room [] = (if room = 0 then [] else [Control (End True None)])"
| "push_data room (ch # chs) =
     (case write_data ch of
        Inl _ \<Rightarrow> []
      | Inr _ \<Rightarrow> if room = 0 then [] else Frame.Data ch # push_data (room - 1) chs)"

section \<open>Backup through a relay\<close>

definition NO_RELAY :: string where
  "NO_RELAY =
     ''this machine has no relay listener configured; run `pbsgui-engine relay add-agent` here first ''
       @ ''(the proxy is the machine that runs the backup jobs)''"

text \<open>\<open>stream\<close> is the answer of \<open>backup_stream\<close>: what the pump delivers for this session.\<close>

definition relay_backup_to_pbs ::
  "'q vdi_env \<Rightarrow> (SqlBackupMeta \<Rightarrow> bytes) \<Rightarrow> (RelayRead \<Rightarrow> (string \<times> bytes) option \<Rightarrow> anyhow + BackupStats)
     \<Rightarrow> (string \<Rightarrow> string option \<Rightarrow> string \<Rightarrow> anyhow + bytes list \<times> bool list) option \<Rightarrow> string \<Rightarrow> string \<Rightarrow> string
     \<Rightarrow> bool \<Rightarrow> SqlBackupType \<Rightarrow> bool \<Rightarrow> 'q sql_world \<Rightarrow> (anyhow + BackupStats) \<times> 'q sql_world" where
  "relay_backup_to_pbs E to_json upload relay agent server database cancelled backup_type copy_only w =
     (case relay of
        None \<Rightarrow> (Err [NO_RELAY], w)
      | Some backup_stream \<Rightarrow>
          (case ve_connect E of
             Inl e \<Rightarrow> (Err e, w)
           | Inr _ \<Rightarrow>
               let (set_name, w1) = fresh_set E w in
               (case with_context (''starting the relay session on agent '' @ [CHR 39] @ agent @ [CHR 39])
                       (backup_stream agent (instance_of server) set_name) of
                  Inl e \<Rightarrow> (Err e, w1)
                | Inr stream \<Rightarrow>
                    if cancelled then (Err [''cancelled by request''], w1)
                    else
                      let (issued, w2) = issue_backup (plain_query E) database set_name backup_type copy_only w1;
                          result = with_context ''the BACKUP statement failed on the remote instance'' issued;
                          (meta, w3) = (if is_ok result then
                                          let (m, w3) = query_backup_meta (plain_query E) database w2
                                          in (case m of Inl _ \<Rightarrow> None | Inr m \<Rightarrow> Some (META_BLOB_NAME, to_json m), w3)
                                        else (None, w2))
                      in (combine_pbs_result result (upload (relay_reader_of stream) meta), w3))))"

section \<open>A relayed stream is whole or fails\<close>

lemma send_loop_sent:
  "send_loop room bufs = (fs, e, left) \<Longrightarrow>
   \<exists>k \<le> length bufs. fs = map Frame.Data (take k bufs) \<and> (e = None \<longrightarrow> k = length bufs)"
proof (induction room bufs arbitrary: fs e left rule: send_loop.induct)
  case (2 room buf bufs)
  show ?case
  proof (cases "is_ok (write_data buf) \<and> room \<noteq> 0")
    case True
    then obtain b gs where b: "write_data buf = Ok b" "send_loop (room - 1) bufs = (gs, e, left)"
      "fs = Frame.Data buf # gs"
      using "2.prems" by (auto simp: is_ok_iff split: prod.splits)
    then obtain k where "k \<le> length bufs" "gs = map Frame.Data (take k bufs)" "e = None \<longrightarrow> k = length bufs"
      using "2.IH" [OF b(1)] True by blast
    then show ?thesis
      using b by (intro exI [of _ "Suc k"]) simp
  next
    case False
    then have "fs = [] \<and> e \<noteq> None"
      using "2.prems" by (auto simp: is_ok_iff split: sum.splits if_splits)
    then show ?thesis
      by (intro exI [of _ 0]) simp
  qed
qed simp

lemma pump_frames_whole:
  "pump_frames room fs = (ps, d) \<Longrightarrow> d \<noteq> [] \<and> hd d \<Longrightarrow>
   \<exists>err post. fs = map Frame.Data ps @ Control (End True err) # post"
  by (induction room fs arbitrary: ps rule: pump_frames.induct)
    (force simp: apfst_def map_prod_def split: if_splits ControlMsg.splits prod.splits)+

lemma data_prefix_unique:
  "map Frame.Data xs @ Control c # post = take i (map Frame.Data ys @ ends) \<Longrightarrow> ends = [] \<or> ends = [Control m] \<Longrightarrow>
   xs = ys \<and> ends = [Control c]"
proof (induction xs arbitrary: ys i)
  case Nil
  then show ?case
    by (cases ys; cases i) auto
next
  case (Cons x xs)
  then show ?case
    by (cases ys; cases i) auto
qed

text \<open>The frames of a session that put anything on its connection.\<close>

lemma session_frames:
  assumes "run_backup_session C cfg session_id ready dial room bufs device = (fs, res)" "fs \<noteq> []"
  obtains hello k send_error ends where "fs = hello # map Frame.Data (take k bufs) @ ends"
    "send_error = None \<Longrightarrow> k = length bufs"
    "ends = [] \<or> (\<exists>dev. device = Inr dev \<and> ends = [Control (end_verdict dev send_error)])"
    "send_error = None \<Longrightarrow> is_ok device \<Longrightarrow> res = projr device"
proof -
  obtain hello where open_ok: "and_then (device_ready ready) (\<lambda>_. open_data C cfg session_id dial room) = Ok hello"
    using assms by (cases "and_then (device_ready ready) (\<lambda>_. open_data C cfg session_id dial room)")
      (auto simp: run_backup_session_def)
  obtain sent send_error left where s: "send_loop (room - 1) bufs = (sent, send_error, left)"
    by (metis prod_cases3)
  obtain k where k: "sent = map Frame.Data (take k bufs)" "send_error = None \<longrightarrow> k = length bufs"
    using send_loop_sent [OF s] by blast
  note run = assms(1) [unfolded run_backup_session_def open_ok sum.case s Let_def prod.case k(1)]
  show thesis
  proof (cases device)
    case (Inl p)
    then show ?thesis
      using run k(2) by (intro that [of hello k "[]" send_error]) auto
  next
    case (Inr dev)
    define ends where "ends = (if is_ok (write_control C (end_verdict dev send_error)) \<and> 0 < left
      then [Control (end_verdict dev send_error)] else [])"
    show ?thesis
      using run k(2) Inr by (intro that [of hello k ends send_error]) (auto simp: ends_def)
  qed
qed

text \<open>C4: A relayed backup is read as whole only when it is. However many frames the agent's connection
  takes before it breaks, wherever the proxy's side of it is cut, and whenever the reader stops: if
  the reader handed to the uploader reads to its end without an error, then the agent's device
  session ended without an error and the content read is exactly the bytes the device delivered.\<close>

theorem relay_stream_whole:
  assumes "run_backup_session C cfg session_id ready dial room bufs device = (fs, res)"
    and "list_all (codec_faithful C) fs" "write_frames C fs = Ok wire"
    and "read_frame C (take n wire) = Ok (Some (Control (Hello session_id token), received))"
    and "list_all ((<) 0) ns"
    and "read_all relay_read ns [] (relay_reader_of (pump_data C taken received)) = Some (Ok content)"
  shows "content = concat bufs \<and> (\<exists>sz. device = Inr (Ok sz) \<and> res = Ok sz)"
proof -
  obtain ps d where p: "pump_frames taken (fst (read_frames C received)) = (ps, d)"
    by fastforce
  have "d \<noteq> [] \<and> hd d" "content = concat ps"
    using relay_reader.read_all_outcome [OF assms(5,6)] p
    by (auto simp: relay_reader_of_def pump_data_def split: if_splits)
  then obtain err post where got: "fst (read_frames C received) = map Frame.Data ps @ Control (End True err) # post"
    using pump_frames_whole [OF p] by blast
  have "fst (read_frames C (take n wire)) = Control (Hello session_id token) # fst (read_frames C received)"
    using assms(4) by (simp add: read_frames.simps [of C "take n wire"] split_beta)
  then obtain j where j: "Control (Hello session_id token) # fst (read_frames C received) = take j fs"
    using read_cut_frames [OF assms(2,3), of n] by auto
  then have "fs \<noteq> []"
    by auto
  obtain hello k send_error ends where
    fs: "fs = hello # map Frame.Data (take k bufs) @ ends" and k: "send_error = None \<Longrightarrow> k = length bufs"
    and ends: "ends = [] \<or> (\<exists>dev. device = Inr dev \<and> ends = [Control (end_verdict dev send_error)])"
    and res: "send_error = None \<Longrightarrow> is_ok device \<Longrightarrow> res = projr device"
    by (rule session_frames [OF assms(1) \<open>fs \<noteq> []\<close>]) blast
  have "map Frame.Data ps @ Control (End True err) # post = take (j - 1) (map Frame.Data (take k bufs) @ ends)"
    using j got by (cases j) (auto simp: fs)
  moreover obtain m where "ends = [] \<or> ends = [Control m]"
    using ends by blast
  ultimately have u: "ps = take k bufs" "ends = [Control (End True err)]"
    using data_prefix_unique by blast+
  then obtain dev where "device = Inr dev" "end_verdict dev send_error = End True err"
    using ends by auto
  then obtain sz where "device = Inr (Ok sz)" "send_error = None"
    by (auto simp: end_verdict_def split: sum.splits option.splits)
  then show ?thesis
    using k res u(1) \<open>content = concat ps\<close> by simp
qed

lemma pump_frames_complete:
  "length bufs \<le> room \<Longrightarrow> pump_frames room (map Frame.Data bufs @ [Control (End ok err)]) = (bufs, [ok])"
  by (induction bufs arbitrary: room) auto

lemma relay_stream_complete:
  assumes "list_all (codec_faithful C) (map Frame.Data bufs @ [Control (End True None)])"
    and "write_frames C (map Frame.Data bufs @ [Control (End True None)]) = Ok received" "length bufs \<le> taken"
    and "list_all ((<) 0) ns" "length (concat bufs) < length ns"
  shows "read_all relay_read ns [] (relay_reader_of (pump_data C taken received)) = Some (Ok (concat bufs))"
  using read_cut_frames [OF assms(1,2)] pump_frames_complete [OF assms(3), of True None] assms(4,5)
    relay_reader.read_to_end [OF assms(4), of "relay_reader_of (pump_data C taken received)"]
  by (simp add: pump_data_def relay_reader_of_def)

definition demo_agent :: AgentConfig where
  "demo_agent = \<lparr> ac_proxy_addr = ''p:8317'', ac_proxy_fingerprint = ''f'', ac_agent_name = ''a'', ac_token = ''t'' \<rparr>"

definition demo_frames :: "Frame list" where
  "demo_frames = [Control (Hello ''s'' ''t''), Frame.Data [1, 2], Frame.Data [3], Control (End True None)]"

lemma demo_session:
  "run_backup_session demo_codec demo_agent ''s'' (Some (Ok ())) (Ok ()) 9 [[1, 2], [3]] (Inr (Ok 3)) = (demo_frames, Ok 3)"
  by (simp add: run_backup_session_def device_ready_def open_data_def with_context_def write_control_def write_raw_def
      write_data_def demo_codec_def demo_agent_def demo_frames_def MAX_FRAME_def end_verdict_def)

lemma demo_frames_written:
  "list_all (codec_faithful demo_codec) demo_frames"
  "write_frames demo_codec demo_frames =
     Ok (frame_bytes KIND_CONTROL [5] @ frame_bytes KIND_DATA [1, 2] @ frame_bytes KIND_DATA [3] @ frame_bytes KIND_CONTROL [3])"
  by (simp_all add: demo_frames_def demo_codec_def codec_faithful_def write_frame_def write_raw_def frame_bytes_def
      MAX_FRAME_def)

theorem relay_stream_whole_witness:
  "\<exists>received. read_all relay_read [9, 9, 9, 9, 9] [] (relay_reader_of (pump_data demo_codec 9 received)) = Some (Ok [1, 2, 3])"
proof -
  define received where "received = frame_bytes KIND_DATA [1, 2] @ frame_bytes KIND_DATA [3] @ frame_bytes KIND_CONTROL [3]"
  define wire where "wire = frame_bytes KIND_CONTROL [5] @ received"
  have w: "write_frames demo_codec demo_frames = Ok wire"
    using demo_frames_written(2) by (simp add: wire_def received_def)
  have "read_frame demo_codec (take (length wire) wire) = Ok (Some (Control (Hello ''s'' ''t''), received))"
    by (simp add: wire_def read_frame_bytes MAX_FRAME_nat read_payload_def demo_codec_def)
  moreover have "list_all (codec_faithful demo_codec) (map Frame.Data [[1, 2], [3]] @ [Control (End True None)])"
    "write_frames demo_codec (map Frame.Data [[1, 2], [3]] @ [Control (End True None)]) = Ok received"
    by (simp_all add: demo_codec_def codec_faithful_def write_frame_def write_raw_def frame_bytes_def
        MAX_FRAME_def received_def)
  then have "read_all relay_read [9, 9, 9, 9, 9] [] (relay_reader_of (pump_data demo_codec 9 received)) =
      Some (Ok (concat [[1, 2], [3]]))"
    by (rule relay_stream_complete) simp_all
  ultimately show ?thesis
    using relay_stream_whole [OF demo_session demo_frames_written(1) w, of "length wire" "''t''" received
        "[9, 9, 9, 9, 9]" 9 "[1, 2, 3]"]
    by (intro exI [of _ received]) simp
qed

section \<open>Where the end of a stream says too much\<close>

lemma feed_pushed:
  "length chs < room \<Longrightarrow> length chs \<le> taken \<Longrightarrow> list_all (\<lambda>ch. is_ok (write_data ch)) chs \<Longrightarrow>
   feed_device taken (push_data room chs) = (chs, True)"
proof (induction chs arbitrary: room taken)
  case (Cons ch rest)
  then show ?case
    using Cons.IH [of "room - 1" "taken - 1"] by (auto simp: is_ok_iff)
qed simp

text \<open>A broken download looks complete to the agent. On the restore path the proxy ends the stream
  with a good verdict whenever its producer stops, so that when the download from PBS fails after
  any number of chunks, the agent's device receives these chunks followed by a clean end, and the
  agent reports the session as successful, exactly as if the download had been complete.\<close>

theorem broken_download_ends_cleanly:
  assumes "ve_download E pbs archive crypt = (chs, Inr (Err e))"
    and "device_ready ready = Ok ()" "open_data C cfg session_id dial room = Ok hello" "length chs < room2"
    and "list_all (\<lambda>ch. is_ok (write_data ch)) chs" "length chs \<le> taken"
    and "list_all (codec_faithful C) (push_data room2 chs)" "write_frames C (push_data room2 chs) = Ok wire"
    and "device chs = Inr (Ok sz)"
  shows "run_restore_session C cfg session_id ready dial room taken wire device = (chs, Ok sz) \<and>
    (\<exists>ws ds. restore_one_streamed E inst (Some agent) crypt mk (pbs, archive) w = (Err ws, ds))"
proof -
  have "fst (read_frames C wire) = push_data room2 chs"
    using read_cut_frames [OF assms(7,8)] by simp
  then have "run_restore_session C cfg session_id ready dial room taken wire device = (chs, Ok sz)"
    using assms(2,3,9) feed_pushed [OF assms(4,6,5)] by (simp add: run_restore_session_def)
  moreover have "\<exists>ws ds. restore_one_streamed E inst (Some agent) crypt mk (pbs, archive) w = (Err ws, ds)"
    using assms(1)
    by (auto simp: restore_one_streamed_def fresh_set_def device_query_def split: sum.split prod.split)
  ultimately show ?thesis
    by blast
qed

definition broken_env :: "unit vdi_env" where
  "broken_env = demo_vdi_env \<lparr> ve_download := (\<lambda>_ _ _. ([[1, 2], [3]], Inr (Err [''reset'']))) \<rparr>"

theorem broken_download_ends_cleanly_witness:
  "\<exists>wire. run_restore_session demo_codec demo_agent ''s'' (Some (Ok ())) (Ok ()) 9 9 wire (\<lambda>_. Inr (Ok 3)) =
     ([[1, 2], [3]], Ok 3)"
proof -
  define wire where "wire = frame_bytes KIND_DATA [1, 2] @ frame_bytes KIND_DATA [3] @ frame_bytes KIND_CONTROL [3]"
  have push: "push_data 9 [[1, 2], [3]] = [Frame.Data [1, 2], Frame.Data [3], Control (End True None)]"
    by (simp add: write_data_def write_raw_def MAX_FRAME_def)
  have "ve_download broken_env demo_params ''f'' None = ([[1, 2], [3]], Inr (Err [''reset'']))"
    by (simp add: broken_env_def)
  moreover have "device_ready (Some (Ok ())) = Ok ()"
    "open_data demo_codec demo_agent ''s'' (Ok ()) 9 = Ok (Control (Hello ''s'' ''t''))"
    by (simp_all add: device_ready_def with_context_def open_data_def write_control_def write_raw_def demo_codec_def
        demo_agent_def MAX_FRAME_def)
  moreover have "list_all (codec_faithful demo_codec) (push_data 9 [[1, 2], [3]])"
    "write_frames demo_codec (push_data 9 [[1, 2], [3]]) = Ok wire"
    unfolding push
    by (simp_all add: demo_codec_def codec_faithful_def write_frame_def write_raw_def frame_bytes_def MAX_FRAME_def wire_def)
  moreover have "list_all (\<lambda>ch. is_ok (write_data ch)) [[1, 2], [3]]"
    by (simp add: write_data_def write_raw_def MAX_FRAME_def)
  ultimately show ?thesis
    using broken_download_ends_cleanly [of broken_env demo_params "''f''" None "[[1, 2], [3]]" "[''reset'']"
        "Some (Ok ())" demo_codec demo_agent "''s''" "Ok ()" 9 "Control (Hello ''s'' ''t'')" 9 9 wire "\<lambda>_. Inr (Ok 3)" 3]
    by (intro exI [of _ wire]) simp
qed

text \<open>The upload of a relayed backup does not wait for the \<open>BACKUP\<close> statement. When the statement
  fails on the remote instance while the agent's device has closed cleanly, the uploader is handed a
  reader that reads to its end without an error, so that it can commit the snapshot; the run is
  reported as failed afterwards. (On the local path the same failure makes the reader fail.)\<close>

theorem relay_upload_not_gated:
  assumes "relay_backup_to_pbs E to_json upload (Some stream_of) agent server database False ty copy_only w = (r, w')"
    and "ve_connect E = Ok ()" "fresh_set E w = (set_name, w1)"
    and "stream_of agent (instance_of server) set_name = Ok (bufs, [True])"
    and "issue_backup (plain_query E) database set_name ty copy_only w1 = (Err e, w2)"
    and "upload (relay_reader_of (bufs, [True])) None = Ok stats"
    and "list_all ((<) 0) ns" "length (concat bufs) < length ns"
  shows "read_all relay_read ns [] (relay_reader_of (bufs, [True])) = Some (Ok (concat bufs)) \<and>
    r = Err (''BACKUP failed'' # ''the BACKUP statement failed on the remote instance'' # e) \<and>
    read_all reader_read ns [] (reader_new bufs [False]) =
      Some (Err (IoError.UnexpectedEof ''the SQL Server BACKUP did not complete; refusing to upload a truncated backup''))"
proof -
  have "r = Err (''BACKUP failed'' # ''the BACKUP statement failed on the remote instance'' # e)"
    using assms(1-6) by (simp add: relay_backup_to_pbs_def with_context_def combine_pbs_result_def)
  then show ?thesis
    using relay_reader.read_to_end [OF assms(7), of "relay_reader_of (bufs, [True])"]
      vdi_reader.read_to_end [OF assms(7), of "reader_new bufs [False]"] assms(8)
    by (simp add: relay_reader_of_def reader_new_def)
qed

definition failing_env :: "unit vdi_env" where
  "failing_env = demo_vdi_env \<lparr> ve_query := (\<lambda>_ q. (Err [''BACKUP DATABASE is terminating abnormally''], q)) \<rparr>"

definition demo_stats :: BackupStats where
  "demo_stats =
     \<lparr> st_chunks = 1, st_reused = 0, st_uploaded = 1, st_bytes = 3, st_uploaded_bytes = 3, st_stored_bytes = 3, st_csum = 0 \<rparr>"

theorem relay_upload_not_gated_witness:
  "read_all relay_read [4, 4, 4, 4] [] (relay_reader_of ([[1, 2], [3]], [True])) = Some (Ok [1, 2, 3]) \<and>
   \<not> is_ok (fst (relay_backup_to_pbs failing_env (\<lambda>_. []) (\<lambda>_ _. Ok demo_stats) (Some (\<lambda>_ _ _. Ok ([[1, 2], [3]], [True])))
     ''a'' ''host'' ''db'' False Full False \<lparr> sw_server = (), sw_uuids = 0, sw_issued = [] \<rparr>))"
proof -
  define w w1 :: "unit sql_world" where "w = \<lparr> sw_server = (), sw_uuids = 0, sw_issued = [] \<rparr>"
    and "w1 = \<lparr> sw_server = (), sw_uuids = 1, sw_issued = [] \<rparr>"
  obtain r w' where run: "relay_backup_to_pbs failing_env (\<lambda>_. []) (\<lambda>_ _. Ok demo_stats)
      (Some (\<lambda>_ _ _. Ok ([[1, 2], [3]], [True]))) ''a'' ''host'' ''db'' False Full False w = (r, w')"
    by fastforce
  have fresh: "ve_connect failing_env = Ok ()" "fresh_set failing_env w = (''pbsgui-'' @ show_nat 0, w1)"
    by (simp_all add: fresh_set_def w_def w1_def failing_env_def demo_vdi_env_def)
  obtain w2 where "issue_backup (plain_query failing_env) ''db'' (''pbsgui-'' @ show_nat 0) Full False w1 =
      (Err [''BACKUP DATABASE is terminating abnormally''], w2)"
    by (simp add: issue_backup_def backup_statement_def plain_query_def failing_env_def)
  from relay_upload_not_gated [OF run fresh refl this refl, of "[4, 4, 4, 4]"] run show ?thesis
    by (simp add: w_def del: read_all.simps)
qed

end
