(* ===== verification/RelaySetup.thy ===== *)
theory RelaySetup
  imports RelayServer Relay Stores
begin

text \<open>
  Configuring the relay (\<open>pbsgui-engine/src/relay/setup.rs\<close>) and the agent's control connection
  (\<open>relay/agent.rs\<close>). The two configuration files are their parsed contents, absent when missing or
  malformed; the certificate and its fingerprint, the random token and the file writes are
  arguments.
\<close>

section \<open>Files\<close>

record AgentFile =
  af_proxy_addr :: string
  af_proxy_fingerprint :: string
  af_agent_name :: string

record ServerFile =
  sf_enabled :: bool
  sf_bind :: string
  sf_port :: u16
  sf_agents :: "string list"

definition AGENT_TOKEN_KEY :: string where "AGENT_TOKEN_KEY = ''relay:proxy''"

definition agent_token_key :: "string \<Rightarrow> string" where
  "agent_token_key name = ''relayagent:'' @ name"

definition default_server_file :: ServerFile where
  "default_server_file = \<lparr> sf_enabled = True, sf_bind = ''0.0.0.0'', sf_port = DEFAULT_RELAY_PORT, sf_agents = [] \<rparr>"

section \<open>Adding and joining\<close>

text \<open>\<open>relay add-agent\<close> on the proxy: what is printed (port, fingerprint, name and token), the new file
  and the new keyring.\<close>

definition cli_add_agent ::
  "string \<Rightarrow> anyhow + string \<Rightarrow> string \<Rightarrow> string + unit \<Rightarrow> ServerFile option \<Rightarrow> keyring
     \<Rightarrow> (anyhow + u16 \<times> string \<times> string \<times> string) \<times> ServerFile option \<times> keyring" where
  "cli_add_agent name tls token write file kr =
     (if name = [] \<or> \<not> list_all (\<lambda>c. is_alnum c \<or> c = CHR ''-'') name then
        (Err [''agent names are ascii letters, digits, and dashes''], file, kr)
      else
        case tls of
          Inl e \<Rightarrow> (Err e, file, kr)
        | Inr fpr \<Rightarrow>
            let f = unwrap_or default_server_file file; (r, kr1) = secret_set (agent_token_key name) token kr in
            (case r of
               Inl e \<Rightarrow> (Err [e], file, kr1)
             | Inr _ \<Rightarrow>
                 let f1 = (if name \<in> set (sf_agents f) then f else f \<lparr> sf_agents := sf_agents f @ [name] \<rparr>) in
                 (case write of
                    Inl e \<Rightarrow> (Err [''writing relay-server.json'', e], file, kr1)
                  | Inr _ \<Rightarrow> (Ok (sf_port f1, fpr, name, token), Some f1, kr1))))"

text \<open>\<open>relay join\<close> on the SQL host.\<close>

definition cli_join ::
  "string \<Rightarrow> string \<Rightarrow> string \<Rightarrow> string \<Rightarrow> string + unit \<Rightarrow> AgentFile option \<Rightarrow> keyring
     \<Rightarrow> (anyhow + unit) \<times> AgentFile option \<times> keyring" where
  "cli_join proxy fpr name token write file kr =
     (let (r, kr1) = secret_set AGENT_TOKEN_KEY token kr in
      case r of
        Inl e \<Rightarrow> (Err [e], file, kr1)
      | Inr _ \<Rightarrow>
          (case write of
             Inl e \<Rightarrow> (Err [''writing relay.json'', e], file, kr1)
           | Inr _ \<Rightarrow>
               (Ok (), Some \<lparr> af_proxy_addr = proxy, af_proxy_fingerprint = fpr, af_agent_name = name \<rparr>, kr1)))"

section \<open>Starting\<close>

text \<open>The configured agents with a stored token; an unreadable keyring stops the start.\<close>

fun configured_agents :: "keyring \<Rightarrow> string list \<Rightarrow> anyhow + (string \<times> string) list" where
  "configured_agents kr [] = Ok []"
| "configured_agents kr (name # names) =
     (case secret_get (agent_token_key name) kr of
        Inl e \<Rightarrow> Err [e]
      | Inr None \<Rightarrow> configured_agents kr names
      | Inr (Some token) \<Rightarrow> and_then (configured_agents kr names) (\<lambda>rest. Ok ((name, token) # rest)))"

text \<open>The token table of \<open>RelayServer::new\<close>: the last entry of a name wins.\<close>

definition token_table :: "(string \<times> string) list \<Rightarrow> string \<rightharpoonup> string" where
  "token_table agents = map_of (rev agents)"

definition start_server ::
  "anyhow + string \<Rightarrow> string + unit \<Rightarrow> ServerFile \<Rightarrow> keyring \<Rightarrow> anyhow + (string \<rightharpoonup> string)" where
  "start_server tls listen file kr =
     and_then tls (\<lambda>_.
     and_then (configured_agents kr (sf_agents file)) (\<lambda>agents.
     case listen of
       Inl e \<Rightarrow> Err [''binding the relay listener on '' @ sf_bind file @ '':'' @ show_nat (unat (sf_port file)), e]
     | Inr _ \<Rightarrow> Ok (token_table agents)))"

text \<open>Which roles start: the proxy's token table and the agent's configuration. Failures are logged.\<close>

definition relay_start ::
  "anyhow + string \<Rightarrow> string + unit \<Rightarrow> ServerFile option \<Rightarrow> AgentFile option \<Rightarrow> keyring
     \<Rightarrow> (string \<rightharpoonup> string) option \<times> AgentConfig option" where
  "relay_start tls listen server_file agent_file kr =
     ((case server_file of
         Some f \<Rightarrow> if sf_enabled f then (case start_server tls listen f kr of Inl _ \<Rightarrow> None | Inr t \<Rightarrow> Some t) else None
       | None \<Rightarrow> None),
      (case agent_file of
         None \<Rightarrow> None
       | Some f \<Rightarrow>
           (case secret_get AGENT_TOKEN_KEY kr of
              Inr (Some token) \<Rightarrow>
                Some \<lparr> ac_proxy_addr = af_proxy_addr f, ac_proxy_fingerprint = af_proxy_fingerprint f,
                       ac_agent_name = af_agent_name f, ac_token = token \<rparr>
            | _ \<Rightarrow> None)))"

definition agent_infos :: "ServerFile option \<Rightarrow> relay_state option \<Rightarrow> RelayAgentInfo list" where
  "agent_infos file server =
     map (\<lambda>name.
            let live = Option.bind server (\<lambda>s. rs_agents s name)
            in \<lparr> ra_name = name, ra_connected = (live \<noteq> None), ra_host = map_option ag_host live,
                 ra_version = map_option ag_version live \<rparr>)
       (case file of None \<Rightarrow> [] | Some f \<Rightarrow> sf_agents f)"

section \<open>The agent's control connection\<close>

definition register_msg :: "AgentConfig \<Rightarrow> string \<Rightarrow> string \<Rightarrow> ControlMsg" where
  "register_msg cfg hostname version =
     Register (ac_agent_name cfg) hostname (ac_token cfg) version RELAY_PROTO_VERSION"

definition registration_reply :: "Frame option \<Rightarrow> anyhow + unit" where
  "registration_reply reply =
     (case reply of
        Some (Control (Registered ok message)) \<Rightarrow>
          if ok then Ok () else Err [''the proxy refused this agent: '' @ message]
      | _ \<Rightarrow> Err [''expected a Registered reply''])"

datatype Direction = BackupDirection | RestoreDirection

record agent_state =
  as_sessions :: "string \<rightharpoonup> bool"
  as_cancelled :: "string list"
  as_started :: "(string \<times> Direction \<times> string option \<times> string) list"
  as_sent :: "ControlMsg list"

definition spawn_session :: "string \<Rightarrow> Direction \<Rightarrow> string option \<Rightarrow> string \<Rightarrow> agent_state \<Rightarrow> agent_state" where
  "spawn_session session_id direction inst set_name s =
     s \<lparr> as_sessions := (as_sessions s)(session_id \<mapsto> False),
         as_started := as_started s @ [(session_id, direction, inst, set_name)] \<rparr>"

text \<open>The end of a spawned session.\<close>

definition session_ended :: "string \<Rightarrow> anyhow + u64 \<Rightarrow> agent_state \<Rightarrow> agent_state" where
  "session_ended session_id result s =
     s \<lparr> as_sessions := (as_sessions s)(session_id := None), as_sent := as_sent s @ [session_done session_id result] \<rparr>"

definition serve_frame :: "Frame \<Rightarrow> agent_state \<Rightarrow> (anyhow + unit) \<times> agent_state" where
  "serve_frame frame s =
     (case frame of
        Frame.Data _ \<Rightarrow> (Err [''data frame on the control connection''], s)
      | Control msg \<Rightarrow>
          (case msg of
             ControlMsg.Ping \<Rightarrow> (Ok (), s \<lparr> as_sent := as_sent s @ [ControlMsg.Pong] \<rparr>)
           | StartBackup session_id inst set_name \<Rightarrow> (Ok (), spawn_session session_id BackupDirection inst set_name s)
           | StartRestore session_id inst set_name \<Rightarrow> (Ok (), spawn_session session_id RestoreDirection inst set_name s)
           | Cancel session_id \<Rightarrow>
               (Ok (), case as_sessions s session_id of
                         None \<Rightarrow> s
                       | Some _ \<Rightarrow> s \<lparr> as_sessions := (as_sessions s)(session_id \<mapsto> True) \<rparr>)
           | _ \<Rightarrow> (Err [''unexpected control message from the proxy''], s)))"

text \<open>The loop over the proxy's frames; when it ends every session in flight is cancelled.\<close>

fun serve_frames :: "Frame list \<Rightarrow> agent_state \<Rightarrow> (anyhow + unit) \<times> agent_state" where
  "serve_frames [] s = (Ok (), s)"
| "serve_frames (f # fs) s =
     (case serve_frame f s of (Inl e, s1) \<Rightarrow> (Err e, s1) | (Inr _, s1) \<Rightarrow> serve_frames fs s1)"

definition connection_ended :: "agent_state \<Rightarrow> agent_state" where
  "connection_ended s =
     s \<lparr> as_sessions := Map.empty,
         as_cancelled := as_cancelled s @ filter (\<lambda>i. as_sessions s i \<noteq> None) (remdups (map fst (as_started s))) \<rparr>"

section \<open>A joined agent is welcome\<close>

lemma configured_agents_map:
  "configured_agents kr names = Ok agents \<Longrightarrow>
   map_of (rev agents) name = (if name \<in> set names then kr_secrets kr (agent_token_key name) else None)"
proof (induction names arbitrary: agents)
  case (Cons n ns)
  then show ?case
    by (auto simp: secret_get_def and_then_Ok map_add_def split: option.splits)
qed simp

text \<open>An agent that joins with what \<open>add-agent\<close> printed is welcomed by the proxy, and adding it
  changes no other agent. When the proxy adds an agent and its listener starts on the stored
  configuration, then an agent that stored the printed token and name registers successfully; a
  different token for this name is refused (so adding a name again revokes its old token); and every
  other name keeps the token it had.\<close>

theorem joined_agent_is_welcomed:
  assumes "cli_add_agent name tls token wr file kr = (Ok (prt, fp, n, t), Some f, kr')"
    and "start_server tls2 listen f kr' = Ok tokens" "start_server tls2 listen (unwrap_or default_server_file file) kr = Ok old"
    and "cli_join proxy fp n t wr2 afile kr2 = (Ok (), Some af, kr2')"
    and "relay_start tls3 listen3 None (Some af) kr2' = (None, Some cfg)"
    and "register_msg cfg hst ver = Register nm h tk v proto"
  shows "fst (serve_control tokens c nm h tk v proto s) = Registered True ''welcome'' \<and>
    (t2 \<noteq> t \<longrightarrow> fst (serve_control tokens c nm h t2 v proto s) = Registered False ''bad token'') \<and>
    (other \<noteq> name \<longrightarrow> tokens other = old other)"
proof -
  define f0 where "f0 = unwrap_or default_server_file file"
  have add: "kr' = kr \<lparr> kr_secrets := (kr_secrets kr)(agent_token_key name \<mapsto> token) \<rparr>" "n = name" "t = token"
    "f = (if name \<in> set (sf_agents f0) then f0 else f0 \<lparr> sf_agents := sf_agents f0 @ [name] \<rparr>)"
    using assms(1) by (auto simp: cli_add_agent_def secret_set_def f0_def Let_def split: if_splits sum.splits option.splits)
  obtain agents where a: "configured_agents kr' (sf_agents f) = Ok agents" "tokens = token_table agents"
    using assms(2) by (cases listen) (auto simp: start_server_def)
  obtain before where b: "configured_agents kr (sf_agents f0) = Ok before" "old = token_table before"
    using assms(3) by (cases listen) (auto simp: start_server_def f0_def)
  have "tokens name = Some token"
    using configured_agents_map [OF a(1), of name] add(1,4) by (auto simp: a(2) token_table_def)
  moreover have "tokens other = old other" if "other \<noteq> name"
    using configured_agents_map [OF a(1), of other] configured_agents_map [OF b(1), of other] add(1,4) that
    by (auto simp: a(2) b(2) token_table_def agent_token_key_def)
  moreover have "ac_agent_name cfg = name" "ac_token cfg = token"
    using assms(4,5) add(2,3)
    by (auto simp: cli_join_def secret_set_def relay_start_def secret_get_def Let_def split: option.splits sum.splits)
  ultimately show ?thesis
    using assms(6) add(3)
    by (auto simp: register_msg_def serve_control_def refusal_def)
qed

definition demo_keyring :: keyring where
  "demo_keyring = \<lparr> kr_secrets = [''relayagent:b'' \<mapsto> ''tb''], kr_error = None \<rparr>"

definition demo_server_file :: ServerFile where
  "demo_server_file = \<lparr> sf_enabled = True, sf_bind = ''0.0.0.0'', sf_port = 8317, sf_agents = [''b''] \<rparr>"

theorem joined_agent_is_welcomed_witness:
  "\<exists>tokens. start_server (Ok ''fp'') (Ok ()) (demo_server_file \<lparr> sf_agents := [''b'', ''a''] \<rparr>)
      (demo_keyring \<lparr> kr_secrets := (kr_secrets demo_keyring)(''relayagent:a'' \<mapsto> ''ta'') \<rparr>) = Ok tokens \<and>
    fst (serve_control tokens 1 ''a'' ''h'' ''ta'' ''v'' 1 relay_new) = Registered True ''welcome'' \<and>
    fst (serve_control tokens 1 ''a'' ''h'' ''tb'' ''v'' 1 relay_new) = Registered False ''bad token''"
proof -
  define kr' where "kr' = demo_keyring \<lparr> kr_secrets := (kr_secrets demo_keyring)(''relayagent:a'' \<mapsto> ''ta'') \<rparr>"
  define f where "f = demo_server_file \<lparr> sf_agents := [''b'', ''a''] \<rparr>"
  define cfg where "cfg = \<lparr> ac_proxy_addr = ''p:8317'', ac_proxy_fingerprint = ''fp'', ac_agent_name = ''a'', ac_token = ''ta'' \<rparr>"
  have add: "cli_add_agent ''a'' (Ok ''fp'') ''ta'' (Ok ()) (Some demo_server_file) demo_keyring =
      (Ok (8317, ''fp'', ''a'', ''ta''), Some f, kr')"
    by (simp add: cli_add_agent_def unwrap_or_def demo_server_file_def demo_keyring_def secret_set_def f_def kr'_def
        agent_token_key_def is_alnum_def is_alpha_def)
  obtain tokens where tokens: "start_server (Ok ''fp'') (Ok ()) f kr' = Ok tokens"
    by (simp add: start_server_def f_def kr'_def demo_server_file_def demo_keyring_def secret_get_def agent_token_key_def)
  obtain old where old: "start_server (Ok ''fp'') (Ok ()) (unwrap_or default_server_file (Some demo_server_file)) demo_keyring = Ok old"
    by (simp add: start_server_def unwrap_or_def demo_server_file_def demo_keyring_def secret_get_def agent_token_key_def)
  define af where "af = \<lparr> af_proxy_addr = ''p:8317'', af_proxy_fingerprint = ''fp'', af_agent_name = ''a'' \<rparr>"
  define kr2 where "kr2 = \<lparr> kr_secrets = [AGENT_TOKEN_KEY \<mapsto> ''ta''], kr_error = None \<rparr>"
  have join: "cli_join ''p:8317'' ''fp'' ''a'' ''ta'' (Ok ()) None \<lparr> kr_secrets = Map.empty, kr_error = None \<rparr> =
      (Ok (), Some af, kr2)" and start: "relay_start (Ok ''fp'') (Ok ()) None (Some af) kr2 = (None, Some cfg)"
    by (simp_all add: cli_join_def secret_set_def relay_start_def secret_get_def cfg_def af_def kr2_def)
  have "register_msg cfg ''h'' ''v'' = Register ''a'' ''h'' ''ta'' ''v'' 1"
    by (simp add: register_msg_def cfg_def RELAY_PROTO_VERSION_def)
  from joined_agent_is_welcomed [OF add tokens old join start this, of 1 relay_new "''tb''"] tokens show ?thesis
    by (auto simp: f_def kr'_def)
qed

end
