(* ===== verification/Discover.thy ===== *)
theory Discover
  imports Protocol "HOL-Library.List_Lexorder" "HOL-Library.Char_ord"
begin

text \<open>
  Discovery of SQL Server instances (\<open>pbsgui-engine/src/sql/ssrp.rs\<close>, \<open>sql/discover.rs\<close>): the
  addresses a scan target stands for, the answers of the SQL Server Browser, the instances of the
  local registry, and the merged list. The registry and the datagrams that arrive are parameters.
\<close>

section \<open>Lossy UTF-8\<close>

text \<open>\<open>String::from_utf8_lossy\<close>: for a lead byte the ranges its continuation bytes must lie in. An
  incomplete sequence is replaced up to the byte that breaks it.\<close>

definition utf8_tail :: "nat \<Rightarrow> (nat \<times> nat) list option" where
  "utf8_tail b =
     (let c = (0x80, 0xBF) in
      if b < 0x80 then Some []
      else if b < 0xC2 then None
      else if b < 0xE0 then Some [c]
      else if b = 0xE0 then Some [(0xA0, 0xBF), c]
      else if b = 0xED then Some [(0x80, 0x9F), c]
      else if b < 0xF0 then Some [c, c]
      else if b = 0xF0 then Some [(0x90, 0xBF), c, c]
      else if b < 0xF4 then Some [c, c, c]
      else if b = 0xF4 then Some [(0x80, 0x8F), c, c]
      else None)"

fun tail_match :: "(nat \<times> nat) list \<Rightarrow> bytes \<Rightarrow> nat" where
  "tail_match ((lo, hi) # rs) (b # bs) = (if lo \<le> unat b \<and> unat b \<le> hi then Suc (tail_match rs bs) else 0)"
| "tail_match _ _ = 0"

definition REPLACEMENT :: string where
  "REPLACEMENT = [CHR 0xEF, CHR 0xBF, CHR 0xBD]"

function utf8_lossy :: "bytes \<Rightarrow> string" where
  "utf8_lossy [] = []"
| "utf8_lossy (b # bs) =
     (case utf8_tail (unat b) of
        None \<Rightarrow> REPLACEMENT @ utf8_lossy bs
      | Some rs \<Rightarrow>
          let k = tail_match rs bs in
          (if k = length rs then text_of (b # take k bs) else REPLACEMENT) @ utf8_lossy (drop k bs))"
  by pat_completeness auto
termination by (relation "measure length") auto

section \<open>Scan targets\<close>

text \<open>\<open>Ipv4Addr\<close>: four decimal numbers of at most three digits, without leading zeros.\<close>

definition parse_octet :: "string \<Rightarrow> nat option" where
  "parse_octet s =
     (if s = [] \<or> 3 < length s \<or> 1 < length s \<and> hd s = CHR ''0'' then None
      else case parse_digits 0 s of None \<Rightarrow> None | Some n \<Rightarrow> if n < 256 then Some n else None)"

definition parse_ipv4 :: "string \<Rightarrow> u32 option" where
  "parse_ipv4 s =
     (case map parse_octet (split_on (CHR ''.'') s) of
        [Some a, Some b, Some c, Some d] \<Rightarrow> Some (of_nat (((a * 256 + b) * 256 + c) * 256 + d))
      | _ \<Rightarrow> None)"

definition show_ipv4 :: "u32 \<Rightarrow> string" where
  "show_ipv4 ip =
     join_with ''.'' (map (\<lambda>k. show_nat (unat ip div 256 ^ k mod 256)) [3, 2, 1, 0])"

definition subnet_hosts :: "u32 \<Rightarrow> nat \<Rightarrow> u32 list" where
  "subnet_hosts ip prefix =
     (let bits = 32 - prefix;
          base = and ip (push_bit bits (- 1));
          count = 2 ^ bits;
          (start, stop) = (if prefix \<le> 30 then (1, count - 1) else (0, count))
      in map (\<lambda>i. base + of_nat i) [start..<stop])"

definition expand_target :: "string \<Rightarrow> string list" where
  "expand_target given =
     (let target = trim given in
      case split_once (CHR ''/'') target of
        None \<Rightarrow> if target = [] then [] else [target]
      | Some (net, prefix_text) \<Rightarrow>
          (case (parse_ipv4 (trim net), parse_uint 32 (trim prefix_text)) of
             (Some ip, Some prefix) \<Rightarrow>
               if 22 \<le> prefix \<and> prefix \<le> 32 then map show_ipv4 (subnet_hosts ip prefix) else []
           | _ \<Rightarrow> []))"

section \<open>Answers of the browser\<close>

fun split_pairs :: "string \<Rightarrow> string list" where
  "split_pairs [] = [[]]"
| "split_pairs [x] = [[x]]"
| "split_pairs (x # y # s) =
     (if x = CHR '';'' \<and> y = CHR '';'' then [] # split_pairs s
      else case split_pairs (y # s) of [] \<Rightarrow> [[x]] | p # ps \<Rightarrow> (x # p) # ps)"

record ssrp_fields =
  br_server_name :: string
  br_instance :: string
  br_port :: "u16 option"
  br_clustered :: "bool option"

definition port_number :: "string \<Rightarrow> u16 option" where
  "port_number s = map_option of_nat (parse_uint 16 (trim s))"

definition ssrp_field :: "string \<Rightarrow> string \<Rightarrow> ssrp_fields \<Rightarrow> ssrp_fields" where
  "ssrp_field key val f =
     (let k = to_lower key in
      if k = ''servername'' then f \<lparr> br_server_name := val \<rparr>
      else if k = ''instancename'' then f \<lparr> br_instance := val \<rparr>
      else if k = ''tcp'' then f \<lparr> br_port := port_number val \<rparr>
      else if k = ''isclustered'' then f \<lparr> br_clustered := Some (eq_ignore_case val ''yes'') \<rparr>
      else f)"

fun read_fields :: "string list \<Rightarrow> ssrp_fields \<Rightarrow> ssrp_fields" where
  "read_fields (key # val # rest) f = read_fields rest (ssrp_field key val f)"
| "read_fields _ f = f"

definition server_of :: "string \<Rightarrow> string \<Rightarrow> string" where
  "server_of machine instance_name =
     (if eq_ignore_case instance_name ''MSSQLSERVER'' then machine else machine @ [CHR 92] @ instance_name)"

definition ssrp_instance :: "SqlDiscoverySource \<Rightarrow> string \<Rightarrow> SqlInstance option" where
  "ssrp_instance source chunk =
     (let f = read_fields (split_on (CHR '';'') chunk)
            \<lparr> br_server_name = [], br_instance = [], br_port = None, br_clustered = None \<rparr> in
      if br_server_name f = [] then None
      else
        let instance_name = (if br_instance f = [] then ''MSSQLSERVER'' else br_instance f)
        in Some \<lparr> in_server = server_of (br_server_name f) instance_name, in_instance_name = instance_name,
                  in_host = br_server_name f, in_port = br_port f, in_source = source, in_running = Some True,
                  in_service_account = None, in_auth_mode = Unknown, in_clustered = br_clustered f,
                  in_tcp_enabled = map_option (\<lambda>_. True) (br_port f), in_probe = None, in_probe_error = None \<rparr>)"

definition parse_response :: "bytes \<Rightarrow> SqlDiscoverySource \<Rightarrow> SqlInstance list" where
  "parse_response packet source =
     (if length packet < 3 \<or> hd packet \<noteq> 5 then []
      else List.map_filter (ssrp_instance source) (split_pairs (utf8_lossy (drop 3 packet))))"

text \<open>The socket: whether it can be bound, set to broadcast and written, and what it receives before
  the deadline.\<close>

datatype udp_event = Received bytes | RecvFailed

record udp_env =
  ud_bind :: bool
  ud_set_broadcast :: bool
  ud_send :: bool
  ud_broadcast_events :: "udp_event list"
  ud_scan_events :: "string list \<Rightarrow> udp_event list"

fun collect_answers :: "SqlDiscoverySource \<Rightarrow> udp_event list \<Rightarrow> SqlInstance list" where
  "collect_answers source (Received packet # es) = parse_response packet source @ collect_answers source es"
| "collect_answers source _ = []"

definition broadcast :: "udp_env \<Rightarrow> SqlInstance list" where
  "broadcast U =
     (if \<not> ud_bind U then []
      else if \<not> ud_set_broadcast U then []
      else if \<not> ud_send U then []
      else collect_answers Browser (ud_broadcast_events U))"

definition scan :: "udp_env \<Rightarrow> string list \<Rightarrow> SqlInstance list" where
  "scan U hosts =
     (if hosts = [] then []
      else if \<not> ud_bind U then []
      else collect_answers NetworkScan (ud_scan_events U hosts))"

section \<open>The local registry\<close>

datatype reg_value = RegSz string | RegDword u32

record reg_env =
  rg_open :: "string \<Rightarrow> bool"
  rg_names :: "string \<Rightarrow> string option list"
  rg_value :: "string \<Rightarrow> string \<Rightarrow> reg_value option"
  rg_computer_name :: "string option"

definition reg_string :: "reg_env \<Rightarrow> string \<Rightarrow> string \<Rightarrow> string option" where
  "reg_string R key name = (case rg_value R key name of Some (RegSz s) \<Rightarrow> Some s | _ \<Rightarrow> None)"

definition reg_u32 :: "reg_env \<Rightarrow> string \<Rightarrow> string \<Rightarrow> u32 option" where
  "reg_u32 R key name = (case rg_value R key name of Some (RegDword n) \<Rightarrow> Some n | _ \<Rightarrow> None)"

definition open_key :: "reg_env \<Rightarrow> string \<Rightarrow> string option" where
  "open_key R key = (if rg_open R key then Some key else None)"

definition sub :: "string \<Rightarrow> string \<Rightarrow> string" where
  "sub key name = key @ [CHR 92] @ name"

definition SQL_ROOT :: string where
  "SQL_ROOT = sub (sub ''SOFTWARE'' ''Microsoft'') ''Microsoft SQL Server''"

definition first_port :: "string \<Rightarrow> u16 option" where
  "first_port raw = port_number (hd (split_on (CHR '','') raw))"

fun tcp_port_from :: "reg_env \<Rightarrow> string \<Rightarrow> string list \<Rightarrow> u16 option" where
  "tcp_port_from R ipall [] = None"
| "tcp_port_from R ipall (name # names) =
     (case Option.bind (reg_string R ipall name) first_port of
        Some port \<Rightarrow> Some port
      | None \<Rightarrow> tcp_port_from R ipall names)"

definition tcp_port :: "reg_env \<Rightarrow> string \<Rightarrow> u16 option" where
  "tcp_port R ipall = tcp_port_from R ipall [''TcpPort'', ''TcpDynamicPorts'']"

definition login_mode :: "u32 \<Rightarrow> SqlAuthMode" where
  "login_mode mode = (if mode = 1 then WindowsOnly else if mode = 2 then Mixed else Unknown)"

definition local_instance :: "reg_env \<Rightarrow> string \<Rightarrow> string \<Rightarrow> string \<Rightarrow> SqlInstance option" where
  "local_instance R names_key machine instance_name =
     (case reg_string R names_key instance_name of
        None \<Rightarrow> None
      | Some instance_id \<Rightarrow>
          let inst_root = sub SQL_ROOT instance_id;
              mssql = open_key R (sub inst_root ''MSSQLServer'');
              tcp = Option.bind mssql (\<lambda>k. open_key R (sub (sub k ''SuperSocketNetLib'') ''Tcp''))
          in Some \<lparr> in_server = server_of machine instance_name, in_instance_name = instance_name, in_host = machine,
                    in_port = Option.bind (Option.bind tcp (\<lambda>k. open_key R (sub k ''IPAll''))) (tcp_port R),
                    in_source = LocalRegistry, in_running = None, in_service_account = None,
                    in_auth_mode = (case Option.bind mssql (\<lambda>k. reg_u32 R k ''LoginMode'') of
                                      None \<Rightarrow> Unknown | Some mode \<Rightarrow> login_mode mode),
                    in_clustered = Some (rg_open R (sub inst_root ''Cluster'')),
                    in_tcp_enabled = map_option (\<lambda>enabled. enabled = 1) (Option.bind tcp (\<lambda>k. reg_u32 R k ''Enabled'')),
                    in_probe = None, in_probe_error = None \<rparr>)"

definition local_instances :: "reg_env \<Rightarrow> SqlInstance list" where
  "local_instances R =
     (let names_key = sub (sub SQL_ROOT ''Instance Names'') ''SQL'' in
      if \<not> rg_open R names_key then []
      else
        let machine = (case rg_computer_name R of None \<Rightarrow> ''localhost'' | Some n \<Rightarrow> n)
        in List.map_filter (local_instance R names_key machine) (List.map_filter (\<lambda>n. n) (rg_names R names_key)))"

section \<open>The merged list\<close>

fun dedup_by :: "('a \<Rightarrow> 'a \<Rightarrow> bool) \<Rightarrow> 'a list \<Rightarrow> 'a list" where
  "dedup_by same (x # y # ys) = (if same y x then dedup_by same (x # ys) else x # dedup_by same (y # ys))"
| "dedup_by same xs = xs"

definition found :: "reg_env \<Rightarrow> udp_env \<Rightarrow> bool \<Rightarrow> string list \<Rightarrow> SqlInstance list" where
  "found R U include_network targets =
     local_instances R
       @ (if include_network then broadcast U @ scan U (concat (map expand_target targets)) else [])"

definition discover :: "reg_env \<Rightarrow> udp_env \<Rightarrow> bool \<Rightarrow> string list \<Rightarrow> SqlInstance list" where
  "discover R U include_network targets =
     dedup_by (\<lambda>a b. eq_ignore_case (in_server a) (in_server b))
       (sort_key (\<lambda>i. to_lower (in_server i)) (found R U include_network targets))"

section \<open>Subnets\<close>

lemma subnet_base:
  fixes ip :: u32
  assumes "bits \<le> 10"
  shows "unat (and ip (push_bit bits (- 1))) = unat ip - unat ip mod 2 ^ bits"
proof -
  have "and ip (push_bit bits (- 1)) = push_bit bits (drop_bit bits ip)"
    by (rule bit_eqI) (auto simp: bit_and_iff bit_push_bit_iff bit_drop_bit_eq bit_not_iff bit_mask_iff)
  moreover have "unat (push_bit bits (drop_bit bits ip)) = 2 ^ bits * (unat ip div 2 ^ bits)"
  proof -
    have "2 ^ bits * (unat ip div 2 ^ bits) < 2 ^ 32"
      using unsigned_less [of ip, where 'a = nat] by (simp add: le_less_trans [OF times_div_less_eq_dividend])
    moreover have "unat (of_nat (2 ^ bits) :: u32) = 2 ^ bits"
      using assms power_strict_increasing [of bits 32 "2 :: nat"] by (simp add: unat_of_nat del: of_nat_power)
    moreover have "unat ip div 2 ^ bits < 2 ^ 32"
      using unsigned_less [of ip, where 'a = nat] by (simp add: le_less_trans [OF div_le_dividend])
    ultimately show ?thesis
      by (simp add: push_bit_eq_mult drop_bit_eq_div unat_word_ariths unat_div_distrib mult.commute)
  qed
  ultimately show ?thesis
    by (simp add: minus_mod_eq_mult_div)
qed

text \<open>The addresses that share the first \<open>prefix\<close> bits, and the first and the last of them.\<close>

definition in_subnet :: "u32 \<Rightarrow> nat \<Rightarrow> u32 \<Rightarrow> bool" where
  "in_subnet ip prefix a = (unat a div 2 ^ (32 - prefix) = unat ip div 2 ^ (32 - prefix))"

definition edge_address :: "nat \<Rightarrow> u32 \<Rightarrow> bool" where
  "edge_address prefix a = (unat a mod 2 ^ (32 - prefix) \<in> {0, 2 ^ (32 - prefix) - 1})"

lemma subnet_offset:
  fixes ip :: u32
  assumes "22 \<le> prefix" "prefix \<le> 32" "i < 2 ^ (32 - prefix)"
  shows "unat (and ip (push_bit (32 - prefix) (- 1)) + of_nat i) = unat ip div 2 ^ (32 - prefix) * 2 ^ (32 - prefix) + i"
proof -
  define m :: nat where "m = 2 ^ (32 - prefix)"
  have "unat (and ip (push_bit (32 - prefix) (- 1))) = unat ip div m * m"
    using subnet_base [of "32 - prefix" ip] assms by (simp add: m_def minus_mod_eq_div_mult)
  moreover have "unat (of_nat i :: u32) = i"
    using assms(3) power_increasing [of "32 - prefix" 32 "2 :: nat"] by (simp add: unat_of_nat)
  moreover have "unat ip div m * m + i < 2 ^ 32"
  proof -
    have "(2 :: nat) ^ 32 = 2 ^ prefix * m"
      using assms by (simp add: m_def flip: power_add)
    moreover have "unat ip div m < 2 ^ prefix"
      using unsigned_less [of ip, where 'a = nat] calculation by (simp add: div_less_iff_less_mult m_def)
    then have "(unat ip div m + 1) * m \<le> 2 ^ prefix * m"
      by (intro mult_le_mono1) simp
    ultimately show ?thesis
      using assms(3) by (simp add: m_def add_mult_distrib)
  qed
  ultimately show ?thesis
    by (simp add: unat_word_ariths m_def)
qed

lemma subnet_hosts_exact:
  fixes ip :: u32
  assumes "22 \<le> prefix" "prefix \<le> 32"
  shows "distinct (subnet_hosts ip prefix)"
    and "set (subnet_hosts ip prefix) = {a. in_subnet ip prefix a \<and> (prefix \<le> 30 \<longrightarrow> \<not> edge_address prefix a)}"
    and "length (subnet_hosts ip prefix) = (if prefix \<le> 30 then 2 ^ (32 - prefix) - 2 else 2 ^ (32 - prefix))"
proof -
  define m :: nat where "m = 2 ^ (32 - prefix)"
  define addr :: "nat \<Rightarrow> u32" where "addr = (\<lambda>i. and ip (push_bit (32 - prefix) (- 1)) + of_nat i)"
  define a b where "a = (if prefix \<le> 30 then 1 else 0 :: nat)" and "b = (if prefix \<le> 30 then m - 1 else m)"
  have hosts: "subnet_hosts ip prefix = map addr [a..<b]"
    by (simp add: subnet_hosts_def Let_def addr_def a_def b_def m_def)
  have off: "unat (addr i) = unat ip div m * m + i" if "i < m" for i
    using subnet_offset [OF assms, of i ip] that by (simp add: addr_def m_def)
  have pos: "0 < m"
    by (simp add: m_def)
  have "inj_on addr {..<m}"
    by (rule inj_onI) (metis add_left_cancel lessThan_iff off)
  then show "distinct (subnet_hosts ip prefix)"
    unfolding hosts distinct_map by (auto simp: a_def b_def elim!: inj_on_subset)
  show "length (subnet_hosts ip prefix) = (if prefix \<le> 30 then 2 ^ (32 - prefix) - 2 else 2 ^ (32 - prefix))"
    unfolding hosts by (simp add: a_def b_def m_def numeral_2_eq_2)
  have all: "x = addr (unat x mod m)" if "in_subnet ip prefix x" for x
    using that off [of "unat x mod m"] pos
    by (metis in_subnet_def m_def div_mult_mod_eq mod_less_divisor unsigned_word_eqI word_unat_eq_iff)
  have parts: "unat (addr i) div m = unat ip div m" "unat (addr i) mod m = i" if "i < m" for i
    using off [OF that] that pos by simp_all
  have "x \<in> addr ` {a..<b} \<longleftrightarrow> in_subnet ip prefix x \<and> (prefix \<le> 30 \<longrightarrow> \<not> edge_address prefix x)" for x
  proof
    assume "x \<in> addr ` {a..<b}"
    then obtain i where i: "x = addr i" "a \<le> i" "i < b"
      by auto
    then have "i < m"
      using pos by (auto simp: b_def split: if_splits)
    then show "in_subnet ip prefix x \<and> (prefix \<le> 30 \<longrightarrow> \<not> edge_address prefix x)"
      using i parts [of i] by (auto simp: in_subnet_def edge_address_def a_def b_def simp flip: m_def)
  next
    assume x: "in_subnet ip prefix x \<and> (prefix \<le> 30 \<longrightarrow> \<not> edge_address prefix x)"
    then have "a \<le> unat x mod m" "unat x mod m < b"
      using mod_less_divisor [OF pos, of "unat x"]
      by (auto simp: a_def b_def edge_address_def simp flip: m_def)
    then show "x \<in> addr ` {a..<b}"
      using all x by (metis atLeastLessThan_iff image_eqI)
  qed
  then show "set (subnet_hosts ip prefix) = {a. in_subnet ip prefix a \<and> (prefix \<le> 30 \<longrightarrow> \<not> edge_address prefix a)}"
    unfolding hosts by auto
qed

lemma octet_roundtrip: "n < 256 \<Longrightarrow> parse_octet (show_nat n) = Some n"
proof -
  assume n: "n < 256"
  have "length (show_nat n) \<le> 3 \<and> (1 < length (show_nat n) \<longrightarrow> hd (show_nat n) \<noteq> CHR ''0'')"
  proof (cases "n < 100")
    case True
    then show ?thesis
      by (cases "n < 10")
        (auto simp: show_nat.simps [of n] show_nat.simps [of "n div 10"] digit_def
          dest!: arg_cong [of _ _ "of_char :: char \<Rightarrow> nat"])
  next
    case False
    then have "n div 10 div 10 < 10" "n div 10 div 10 \<noteq> 0"
      using n by auto
    then show ?thesis
      using False
      by (auto simp: show_nat.simps [of n] show_nat.simps [of "n div 10"] show_nat.simps [of "n div 10 div 10"] digit_def
          dest!: arg_cong [of _ _ "of_char :: char \<Rightarrow> nat"])
  qed
  then show ?thesis
    using n by (simp add: parse_octet_def)
qed

lemma show_nat_no_dot: "CHR ''.'' \<notin> set (show_nat n)"
  using show_nat_digits by (fastforce simp: is_digit_def)

lemma ipv4_roundtrip: "parse_ipv4 (show_ipv4 ip) = Some ip"
proof -
  have "((unat ip div 256 ^ 3 mod 256 * 256 + unat ip div 256 ^ 2 mod 256) * 256 + unat ip div 256 ^ 1 mod 256) * 256
      + unat ip div 256 ^ 0 mod 256 = unat ip"
    (is "?sum = _")
  proof -
    define x where "x = unat ip"
    have "x div 256 ^ 3 = x div 256 div 256 div 256" "x div 256 ^ 2 = x div 256 div 256" "x div 256 ^ 1 = x div 256"
      by (simp_all flip: div_mult2_eq)
    moreover have "x div 256 div 256 div 256 mod 256 = x div 256 div 256 div 256"
      using unsigned_less [of ip, where 'a = nat] by (simp add: x_def flip: div_mult2_eq)
    ultimately show ?thesis
      unfolding x_def by (simp only: power_0 div_by_1 div_mult_mod_eq)
  qed
  then have "of_nat ?sum = ip"
    by (simp only: of_nat_unat ucast_id)
  moreover have "parse_ipv4 (show_ipv4 ip) = Some (of_nat ?sum)"
    by (simp add: parse_ipv4_def show_ipv4_def join_with_def split_on_append split_on_single show_nat_no_dot
        octet_roundtrip)
  ultimately show ?thesis
    by simp
qed

text \<open>C34: A scan target written as a network stands for exactly the addresses of that network, each
  once and each printed so that it parses back; the network and broadcast addresses are left out
  of networks that have them, the addition never wraps, and a target never stands for more than
  1022 addresses: larger networks are refused.\<close>

theorem subnet_scan_exact:
  assumes "split_once (CHR ''/'') (trim target) = Some (net, len)"
    and "parse_ipv4 (trim net) = Some ip" and "parse_uint 32 (trim len) = Some prefix"
  shows "distinct (expand_target target) \<and> length (expand_target target) \<le> 1022
    \<and> (\<forall>a. show_ipv4 a \<in> set (expand_target target)
         \<longleftrightarrow> 22 \<le> prefix \<and> prefix \<le> 32 \<and> in_subnet ip prefix a \<and> (prefix \<le> 30 \<longrightarrow> \<not> edge_address prefix a))
    \<and> (\<forall>host \<in> set (expand_target target). \<exists>a. parse_ipv4 host = Some a \<and> host = show_ipv4 a)"
proof (cases "22 \<le> prefix \<and> prefix \<le> 32")
  case False
  then have "expand_target target = []"
    using assms by (auto simp: expand_target_def Let_def)
  then show ?thesis
    using False by auto
next
  case True
  have inj: "inj show_ipv4"
    by (rule injI) (metis ipv4_roundtrip option.inject)
  have hosts: "expand_target target = map show_ipv4 (subnet_hosts ip prefix)"
    using assms True by (simp add: expand_target_def Let_def)
  have "(2 :: nat) ^ (32 - prefix) \<le> 2 ^ 10"
    using True by (intro power_increasing) auto
  moreover have "(2 :: nat) ^ (32 - prefix) \<le> 2 ^ 1" if "\<not> prefix \<le> 30"
    using True that by (intro power_increasing) auto
  ultimately have "length (subnet_hosts ip prefix) \<le> 1022"
    using True by (auto simp: subnet_hosts_exact(3))
  then show ?thesis
    using True inj subnet_hosts_exact(1, 2) [of prefix ip]
    by (auto simp: hosts distinct_map inj_image_mem_iff ipv4_roundtrip elim: inj_on_subset)
qed

theorem subnet_scan_exact_witness:
  "expand_target ''10.1.2.77/30'' = [''10.1.2.77'', ''10.1.2.78'']
    \<and> distinct (expand_target ''10.1.2.77/30'') \<and> show_ipv4 0x0A01024D \<in> set (expand_target ''10.1.2.77/30'')"
proof -
  have e: "expand_target ''10.1.2.77/30'' = [''10.1.2.77'', ''10.1.2.78'']"
    by code_simp
  have "split_once (CHR ''/'') (trim ''10.1.2.77/30'') = Some (''10.1.2.77'', ''30'')"
    "parse_ipv4 (trim ''10.1.2.77'') = Some 0x0A01024D" "parse_uint 32 (trim ''30'') = Some 30"
    by code_simp+
  from subnet_scan_exact [OF this] show ?thesis
    using e by (auto simp: in_subnet_def edge_address_def)
qed

section \<open>One entry per instance\<close>

definition server_key :: "SqlInstance \<Rightarrow> string" where
  "server_key i = to_lower (in_server i)"

lemma dedup_hd: "xs \<noteq> [] \<Longrightarrow> dedup_by same xs \<noteq> [] \<and> hd (dedup_by same xs) = hd xs"
  by (induction same xs rule: dedup_by.induct) auto

lemma dedup_subset: "set (dedup_by same xs) \<subseteq> set xs"
  by (induction same xs rule: dedup_by.induct) auto

lemma dedup_sorted:
  fixes key :: "'a \<Rightarrow> 'k :: linorder"
  assumes "sorted (map key xs)"
  shows "sorted (map key (dedup_by (\<lambda>a b. key a = key b) xs))
    \<and> distinct (map key (dedup_by (\<lambda>a b. key a = key b) xs))
    \<and> (\<forall>x. x \<in> set (dedup_by (\<lambda>a b. key a = key b) xs) \<longleftrightarrow> find (\<lambda>y. key y = key x) xs = Some x)"
  using assms
proof (induction "\<lambda>a b. key a = key b" xs rule: dedup_by.induct)
  case (1 x y ys)
  define rest where "rest = dedup_by (\<lambda>a b. key a = key b) (y # ys)"
  show ?case
  proof (cases "key y = key x")
    case True
    then have "sorted (map key (x # ys))"
      using 1(3) by auto
    from 1(1) [OF True this] show ?thesis
      using True by auto
  next
    case False
    have "set rest \<subseteq> set (y # ys)"
      unfolding rest_def by (rule dedup_subset)
    then have less: "key x < key z" if "z \<in> set rest" for z
      using 1(3) False that by (fastforce simp: less_le)
    moreover have "find (\<lambda>z. key z = key u) (y # ys) = Some u \<longleftrightarrow> u \<in> set rest" for u
      using 1(2) [OF False] 1(3) by (simp add: rest_def)
    moreover have "find (\<lambda>z. key z = key x) (x # y # ys) = Some x"
      by simp
    ultimately show ?thesis
      using 1(2) [OF False] 1(3) False unfolding dedup_by.simps rest_def [symmetric]
      by (auto simp: less_imp_le split: if_splits) (metis less_irrefl)+
  qed
qed auto

lemma find_sort_key: "find (\<lambda>y. f y = k) (sort_key f xs) = find (\<lambda>y. f y = k) xs"
proof -
  have hd_find: "find P ys = (case filter P ys of [] \<Rightarrow> None | y # _ \<Rightarrow> Some y)" for P and ys :: "'a list"
    by (induction ys) auto
  show ?thesis
    unfolding hd_find by (simp add: sort_key_stable)
qed

lemma local_instances_source: "x \<in> set (local_instances R) \<Longrightarrow> in_source x = LocalRegistry"
  by (auto simp: local_instances_def local_instance_def Let_def List.map_filter_def split: if_splits option.splits)

lemma answers_source: "x \<in> set (collect_answers source es) \<Longrightarrow> in_source x = source"
  by (induction source es rule: collect_answers.induct)
    (auto simp: parse_response_def ssrp_instance_def Let_def List.map_filter_def split: if_splits)

lemma found_local: "x \<in> set (found R U net targets) \<Longrightarrow> in_source x = LocalRegistry \<longleftrightarrow> x \<in> set (local_instances R)"
  by (auto simp: found_def broadcast_def scan_def local_instances_source dest: answers_source split: if_splits)

lemma find_exists: "x \<in> set xs \<Longrightarrow> P x \<Longrightarrow> \<exists>y. find P xs = Some y \<and> P y \<and> y \<in> set xs"
  by (induction xs) auto

lemma find_append_left: "find P xs = Some y \<Longrightarrow> find P (xs @ ys) = Some y"
  by (induction xs) auto

text \<open>C35: The discovered list is sorted by server name and names every server once, whatever the case
  its name is written in. It leaves out no server that was found, and of several reports of a
  server it keeps the first one: an instance known from the local registry is never replaced by
  what the network says about it.\<close>

theorem discovery_merges:
  "sorted (map server_key (discover R U net targets)) \<and> distinct (map server_key (discover R U net targets))
    \<and> (\<forall>i. i \<in> set (discover R U net targets)
         \<longleftrightarrow> find (\<lambda>x. server_key x = server_key i) (found R U net targets) = Some i)
    \<and> server_key ` set (discover R U net targets) = server_key ` set (found R U net targets)
    \<and> server_key ` set (local_instances R)
        = server_key ` {i. i \<in> set (discover R U net targets) \<and> in_source i = LocalRegistry}"
proof -
  define fs where "fs = found R U net targets"
  define ds where "ds = discover R U net targets"
  have "ds = dedup_by (\<lambda>a b. server_key a = server_key b) (sort_key server_key fs)"
    by (simp add: ds_def fs_def discover_def eq_ignore_case_def server_key_def [abs_def])
  then have main: "sorted (map server_key ds) \<and> distinct (map server_key ds)
      \<and> (\<forall>i. i \<in> set ds \<longleftrightarrow> find (\<lambda>x. server_key x = server_key i) fs = Some i)"
    using dedup_sorted [of server_key "sort_key server_key fs"] by (simp add: find_sort_key)
  have first: "\<exists>i \<in> set ds. server_key i = server_key x \<and> find (\<lambda>y. server_key y = server_key x) fs = Some i"
    if "x \<in> set fs" for x
    using find_exists [OF that, of "\<lambda>y. server_key y = server_key x"] main by auto
  have sub: "set ds \<subseteq> set fs"
    using main by (metis (mono_tags, lifting) find_Some_iff nth_mem subsetI)
  have keys: "server_key ` set ds = server_key ` set fs"
  proof
    show "server_key ` set ds \<subseteq> server_key ` set fs"
      using sub by blast
    show "server_key ` set fs \<subseteq> server_key ` set ds"
      using first by (metis image_eqI image_subsetI)
  qed
  have "\<exists>i. i \<in> set ds \<and> in_source i = LocalRegistry \<and> server_key x = server_key i"
    if x: "x \<in> set (local_instances R)" for x
  proof -
    obtain i where i: "find (\<lambda>y. server_key y = server_key x) (local_instances R) = Some i"
        "i \<in> set (local_instances R)" "server_key i = server_key x"
      using find_exists [OF x, of "\<lambda>y. server_key y = server_key x"] by auto
    then have "find (\<lambda>y. server_key y = server_key x) fs = Some i"
      by (simp add: fs_def found_def find_append_left)
    then have "i \<in> set ds"
      using main unfolding i(3) [symmetric] by blast
    then show ?thesis
      using i(2, 3) local_instances_source by metis
  qed
  then have "server_key ` set (local_instances R) \<subseteq> server_key ` {i. i \<in> set ds \<and> in_source i = LocalRegistry}"
    by blast
  moreover have "{i. i \<in> set ds \<and> in_source i = LocalRegistry} \<subseteq> set (local_instances R)"
    using sub found_local [of _ R U net targets] unfolding fs_def by blast
  ultimately have "server_key ` set (local_instances R) = server_key ` {i. i \<in> set ds \<and> in_source i = LocalRegistry}"
    by blast
  with main keys show ?thesis
    by (simp add: ds_def fs_def)
qed

section \<open>Answers read back\<close>

lemma utf8_lossy_ascii: "\<forall>c \<in> set s. of_char c < (128 :: nat) \<Longrightarrow> utf8_lossy (bytes_of s) = s"
proof (induction s)
  case (Cons c s)
  then have n: "unat (of_nat (of_char c) :: byte) = of_char c" and "of_char c < (128 :: nat)"
    by (simp_all add: unat_of_nat)
  then have "utf8_tail (unat (of_nat (of_char c) :: byte)) = Some []"
    by (simp add: utf8_tail_def Let_def)
  then show ?case
    using Cons n by (simp add: bytes_of_def text_of_def)
qed (simp add: bytes_of_def)

fun plain :: "string \<Rightarrow> bool" where
  "plain [] = True"
| "plain [x] = (x \<noteq> CHR '';'')"
| "plain (x # y # s) = (\<not> (x = CHR '';'' \<and> y = CHR '';'') \<and> plain (y # s))"

lemma split_pairs_plain: "plain s \<Longrightarrow> split_pairs (s @ CHR '';'' # CHR '';'' # rest) = s # split_pairs rest"
  by (induction s rule: plain.induct) auto

lemma plain_no_sep: "CHR '';'' \<notin> set s \<Longrightarrow> plain s"
  by (induction s rule: plain.induct) auto

lemma plain_join: "s \<noteq> [] \<Longrightarrow> CHR '';'' \<notin> set s \<Longrightarrow> t \<noteq> [] \<Longrightarrow> hd t \<noteq> CHR '';'' \<Longrightarrow> plain t \<Longrightarrow> plain (s @ CHR '';'' # t)"
  by (induction s rule: plain.induct) (auto simp: neq_Nil_conv)

record advert =
  ad_server :: string
  ad_instance :: string
  ad_clustered :: bool
  ad_version :: string
  ad_port :: u16

definition advert_fields :: "advert \<Rightarrow> string list" where
  "advert_fields a =
     [''ServerName'', ad_server a, ''InstanceName'', ad_instance a, ''IsClustered'', if ad_clustered a then ''Yes'' else ''No'',
      ''Version'', ad_version a, ''tcp'', show_nat (unat (ad_port a))]"

definition advert_packet :: "byte \<Rightarrow> byte \<Rightarrow> advert list \<Rightarrow> bytes" where
  "advert_packet lo hi as = [5, lo, hi] @ bytes_of (concat (map (\<lambda>a. join_with '';'' (advert_fields a) @ '';;'') as))"

definition advert_instance :: "SqlDiscoverySource \<Rightarrow> advert \<Rightarrow> SqlInstance" where
  "advert_instance source a =
     \<lparr> in_server = server_of (ad_server a) (ad_instance a), in_instance_name = ad_instance a, in_host = ad_server a,
       in_port = Some (ad_port a), in_source = source, in_running = Some True, in_service_account = None,
       in_auth_mode = Unknown, in_clustered = Some (ad_clustered a), in_tcp_enabled = Some True, in_probe = None,
       in_probe_error = None \<rparr>"

definition clean :: "string \<Rightarrow> bool" where
  "clean s = (s \<noteq> [] \<and> list_all (\<lambda>c. c \<noteq> CHR '';'' \<and> of_char c < (128 :: nat)) s)"

definition clean_advert :: "advert \<Rightarrow> bool" where
  "clean_advert a = (clean (ad_server a) \<and> clean (ad_instance a) \<and> clean (ad_version a))"

lemma clean_show_nat: "clean (show_nat n)"
  using show_nat_digits [of _ n] by (fastforce simp: clean_def list_all_iff is_digit_def)

lemma join_cons: "join_with c (x # y # ys) = x @ c @ join_with c (y # ys)"
  by (simp add: join_with_def)

lemma clean_facts: "clean s \<Longrightarrow> s \<noteq> [] \<and> CHR '';'' \<notin> set s \<and> hd s \<noteq> CHR '';'' \<and> list_all (\<lambda>c. of_char c < (128 :: nat)) s"
  by (cases s) (auto simp: clean_def list_all_iff)

lemma join_plain:
  "xs \<noteq> [] \<Longrightarrow> list_all clean xs \<Longrightarrow>
     plain (join_with '';'' xs) \<and> join_with '';'' xs \<noteq> [] \<and> hd (join_with '';'' xs) \<noteq> CHR '';''
       \<and> list_all (\<lambda>c. of_char c < (128 :: nat)) (join_with '';'' xs)"
proof (induction xs rule: induct_list012)
  case (2 x)
  then show ?case
    using clean_facts [of x] by (simp add: join_with_def plain_no_sep)
next
  case (3 x y zs)
  define t where "t = join_with '';'' (y # zs)"
  have "plain t \<and> t \<noteq> [] \<and> hd t \<noteq> CHR '';'' \<and> list_all (\<lambda>c. of_char c < (128 :: nat)) t"
    using 3 by (simp add: t_def)
  then show ?case
    using clean_facts [of x] 3(4) plain_join [of x t] by (simp add: join_cons flip: t_def)
qed simp

lemma split_join_clean: "xs \<noteq> [] \<Longrightarrow> list_all clean xs \<Longrightarrow> split_on (CHR '';'') (join_with '';'' xs) = xs"
proof (induction xs rule: induct_list012)
  case (2 x)
  then show ?case
    by (auto simp: join_with_def clean_def list_all_iff intro: split_on_single)
next
  case (3 x y zs)
  then have "CHR '';'' \<notin> set x"
    by (auto simp: clean_def list_all_iff)
  then show ?case
    using 3 by (simp add: join_cons split_on_append)
qed simp

lemma advert_fields_clean: "clean_advert a \<Longrightarrow> list_all clean (advert_fields a)"
  by (simp add: advert_fields_def clean_advert_def clean_show_nat) (simp add: clean_def)

lemma advert_read:
  assumes "clean_advert a"
  shows "ssrp_instance source (join_with '';'' (advert_fields a)) = Some (advert_instance source a)"
proof -
  have port: "port_number (show_nat (unat (ad_port a))) = Some (ad_port a)"
  proof -
    have "trim (show_nat (unat (ad_port a))) = show_nat (unat (ad_port a))"
      by (intro trim_no_ws) (auto dest!: show_nat_digits simp: is_ws_def is_digit_def)
    then show ?thesis
      using unsigned_less [of "ad_port a", where 'a = nat] parse_uint_show [of "unat (ad_port a)" 16]
      by (simp add: port_number_def)
  qed
  have keys: "to_lower ''ServerName'' = ''servername''" "to_lower ''InstanceName'' = ''instancename''"
    "to_lower ''IsClustered'' = ''isclustered''" "to_lower ''Version'' = ''version''" "to_lower ''tcp'' = ''tcp''"
    "eq_ignore_case ''Yes'' ''yes''" "\<not> eq_ignore_case ''No'' ''yes''"
    by code_simp+
  have "ad_server a \<noteq> []" "ad_instance a \<noteq> []"
    using assms by (auto simp: clean_advert_def clean_def)
  then show ?thesis
    using split_join_clean [OF _ advert_fields_clean [OF assms]]
    by (simp add: ssrp_instance_def advert_instance_def ssrp_field_def keys port Let_def) (simp add: advert_fields_def ssrp_field_def keys port)
qed

lemma adverts_read:
  "list_all clean_advert as \<Longrightarrow>
     List.map_filter (ssrp_instance source) (split_pairs (concat (map (\<lambda>a. join_with '';'' (advert_fields a) @ '';;'') as)))
       = map (advert_instance source) as"
proof (induction as)
  case Nil
  show ?case
    by (simp add: List.map_filter_def ssrp_instance_def Let_def)
next
  case (Cons a as)
  then have "plain (join_with '';'' (advert_fields a))"
    using join_plain [OF _ advert_fields_clean, of a] by (simp add: advert_fields_def)
  then show ?case
    using Cons by (simp add: split_pairs_plain List.map_filter_def advert_read)
qed

text \<open>What a SQL Server Browser announces is read back: from an answer that lists instances with
  their names, cluster flags and ports, exactly these instances are reported, each as running and
  reachable over TCP.\<close>

theorem browser_answer_roundtrip:
  assumes "list_all clean_advert as"
  shows "parse_response (advert_packet lo hi as) source = map (advert_instance source) as"
proof -
  have "\<forall>c \<in> set (concat (map (\<lambda>a. join_with '';'' (advert_fields a) @ '';;'') as)). of_char c < (128 :: nat)"
  proof -
    have "list_all (\<lambda>c. of_char c < (128 :: nat)) (join_with '';'' (advert_fields a))" if "a \<in> set as" for a
      using assms join_plain [OF _ advert_fields_clean, of a] that by (simp add: list_all_iff advert_fields_def)
    then show ?thesis
      by (auto simp: list_all_iff)
  qed
  then show ?thesis
    using adverts_read [OF assms, of source]
    by (simp add: parse_response_def advert_packet_def utf8_lossy_ascii)
qed

theorem browser_answer_roundtrip_witness:
  "parse_response (advert_packet 0 0
       [\<lparr> ad_server = ''STANLEY'', ad_instance = ''MSSQLSERVER'', ad_clustered = False, ad_version = ''16.0'', ad_port = 1433 \<rparr>,
        \<lparr> ad_server = ''STANLEY'', ad_instance = ''SQLEXPRESS'', ad_clustered = True, ad_version = ''15.0'', ad_port = 49677 \<rparr>]) Browser
     = map (advert_instance Browser)
       [\<lparr> ad_server = ''STANLEY'', ad_instance = ''MSSQLSERVER'', ad_clustered = False, ad_version = ''16.0'', ad_port = 1433 \<rparr>,
        \<lparr> ad_server = ''STANLEY'', ad_instance = ''SQLEXPRESS'', ad_clustered = True, ad_version = ''15.0'', ad_port = 49677 \<rparr>]"
  by (rule browser_answer_roundtrip) code_simp

end
