(* ===== verification/Probe.thy ===== *)
theory Probe
  imports SqlRestore
begin

text \<open>
  Connecting to a SQL Server instance and asking it about itself (\<open>pbsgui-engine/src/sql/probe.rs\<close>,
  \<open>sql/check.rs\<close>): identity, topology and databases for the probe, the state of a database that
  the backup plan is decided on, and the readiness checks. The TCP connection, the login and the
  answers to queries are parameters. Server names, roles and states are ASCII words.
\<close>

section \<open>Connecting\<close>

datatype AuthMethod = AuthSqlServer string string | AuthIntegrated | AuthWindows string string

record 'q tds_env =
  td_tcp :: "string \<Rightarrow> u16 \<Rightarrow> anyhow + unit"
  td_nodelay :: "anyhow + unit"
  td_login :: "string \<Rightarrow> u16 \<Rightarrow> AuthMethod \<Rightarrow> anyhow + unit"
  td_query :: "'q sql_client"

definition password_or :: "string \<Rightarrow> string option \<Rightarrow> anyhow + string" where
  "password_or context_text password = (case password of None \<Rightarrow> Err [context_text] | Some p \<Rightarrow> Ok p)"

definition auth_method :: "SqlAuth \<Rightarrow> string option \<Rightarrow> anyhow + AuthMethod" where
  "auth_method auth password =
     (case auth of
        SqlLogin username \<Rightarrow>
          and_then (password_or ''SQL login requires a password'' password) (\<lambda>p. Ok (AuthSqlServer username p))
      | Integrated \<Rightarrow> Ok AuthIntegrated
      | WindowsAccount username \<Rightarrow>
          and_then (password_or ''Windows account requires a password'' password) (\<lambda>p. Ok (AuthWindows username p))
      | AzureAd _ \<Rightarrow> Err [''Azure AD authentication is not yet supported''])"

definition connect_host :: "string \<Rightarrow> string" where
  "connect_host server = hd (split_on (CHR 92) server)"

definition sql_connect :: "'q tds_env \<Rightarrow> string \<Rightarrow> u16 option \<Rightarrow> SqlAuth \<Rightarrow> string option \<Rightarrow> anyhow + unit" where
  "sql_connect T server given_port auth password =
     (let machine = connect_host server; p = unwrap_or 1433 given_port in
      and_then (auth_method auth password) (\<lambda>method.
      and_then (with_context (''connecting to '' @ machine @ '':'' @ show_nat (unat p)) (td_tcp T machine p)) (\<lambda>_.
      and_then (td_nodelay T) (\<lambda>_.
      with_context ''SQL Server login failed'' (td_login T machine p method)))))"

section \<open>Queries\<close>

definition sq :: "string \<Rightarrow> string" where
  "sq s = [CHR 39] @ s @ [CHR 39]"

definition server_property :: "string \<Rightarrow> string \<Rightarrow> string" where
  "server_property name typ = ''CAST(SERVERPROPERTY('' @ sq name @ '') AS '' @ typ @ '')''"

definition IDENTITY_SQL :: string where
  "IDENTITY_SQL =
     ''SELECT '' @ server_property ''ProductVersion'' ''nvarchar(128)'' @ '', ''
       @ server_property ''Edition'' ''nvarchar(128)'' @ '', '' @ server_property ''IsClustered'' ''int'' @ '', ''
       @ server_property ''IsHadrEnabled'' ''int'' @ '', '' @ server_property ''MachineName'' ''nvarchar(128)'' @ '', ''
       @ ''CAST(ISNULL(SERVERPROPERTY('' @ sq ''ComputerNamePhysicalNetBIOS'' @ ''), SERVERPROPERTY('' @ sq ''MachineName''
       @ '')) AS nvarchar(128))''"

definition DATABASES_SQL :: string where
  "DATABASES_SQL =
     ''SELECT d.name, d.recovery_model_desc, d.state_desc, d.log_reuse_wait_desc, ''
       @ ''CASE WHEN drs.database_id IS NOT NULL THEN 1 ELSE 0 END, ''
       @ ''CAST(sys.fn_hadr_backup_is_preferred_replica(d.name) AS int), ''
       @ ''CASE WHEN d.database_id <= 4 THEN 1 ELSE 0 END FROM sys.databases d ''
       @ ''LEFT JOIN sys.dm_hadr_database_replica_states drs ''
       @ ''ON drs.database_id = d.database_id AND drs.is_local = 1 WHERE d.database_id <> 2 ORDER BY d.name''"

definition AG_DETAILS_SQL :: string where
  "AG_DETAILS_SQL =
     ''SELECT TOP 1 ag.name, rs.role_desc FROM sys.availability_groups ag ''
       @ ''JOIN sys.availability_replicas ar ON ar.group_id = ag.group_id ''
       @ ''JOIN sys.dm_hadr_availability_replica_states rs ON rs.replica_id = ar.replica_id WHERE rs.is_local = 1''"

text \<open>Columns by position; NULL is empty or zero.\<close>

definition string_at :: "sql_row \<Rightarrow> nat \<Rightarrow> string" where
  "string_at row idx = unwrap_or [] (row_text row (show_nat idx))"

definition int_at :: "sql_row \<Rightarrow> nat \<Rightarrow> int" where
  "int_at row idx = unwrap_or 0 (row_int row (show_nat idx))"

definition row_or :: "string \<Rightarrow> sql_row list list \<Rightarrow> anyhow + sql_row" where
  "row_or context_text results = (case into_row results of None \<Rightarrow> Err [context_text] | Some row \<Rightarrow> Ok row)"

section \<open>The probe\<close>

record Identity =
  id_product_version :: string
  id_edition :: string
  id_is_clustered :: bool
  id_is_hadr :: bool
  id_machine_name :: string
  id_physical_node :: string

definition identity :: "'q sql_client \<Rightarrow> 'q \<Rightarrow> (anyhow + Identity) \<times> 'q" where
  "identity client q =
     (let (r, q1) = client IDENTITY_SQL q
      in (and_then r (\<lambda>results. and_then (row_or ''identity query returned no rows'' results) (\<lambda>row.
            Ok \<lparr> id_product_version = string_at row 0, id_edition = string_at row 1,
                 id_is_clustered = (int_at row 2 = 1), id_is_hadr = (int_at row 3 = 1),
                 id_machine_name = string_at row 4, id_physical_node = string_at row 5 \<rparr>)), q1))"

definition database_of_row :: "sql_row \<Rightarrow> SqlDatabase" where
  "database_of_row row =
     (let in_ag = (int_at row 4 = 1) in
      \<lparr> sd_name = string_at row 0, sd_recovery_model = string_at row 1, sd_state = string_at row 2,
        sd_log_reuse_wait = row_text row (show_nat 3), sd_in_availability_group = in_ag,
        sd_is_preferred_backup_replica = (if in_ag then Some (row_int row (show_nat 5) = Some 1) else None),
        sd_system = (int_at row 6 = 1) \<rparr>)"

definition databases :: "'q sql_client \<Rightarrow> 'q \<Rightarrow> (anyhow + SqlDatabase list) \<times> 'q" where
  "databases client q =
     (let (r, q1) = client DATABASES_SQL q
      in (and_then r (\<lambda>results. Ok (map database_of_row (first_rows results))), q1))"

definition ag_details :: "'q sql_client \<Rightarrow> 'q \<Rightarrow> (anyhow + string \<times> string) \<times> 'q" where
  "ag_details client q =
     (let (r, q1) = client AG_DETAILS_SQL q
      in (and_then r (\<lambda>results. and_then (row_or ''no local availability replica'' results) (\<lambda>row.
            Ok (string_at row 0, to_lower (string_at row 1)))), q1))"

definition topology :: "'q sql_client \<Rightarrow> Identity \<Rightarrow> SqlDatabase list \<Rightarrow> 'q \<Rightarrow> SqlTopology \<times> 'q" where
  "topology client i dbs q =
     (if id_is_hadr i then
        let (r, q1) = ag_details client q;
            (group_name, role) = (case r of Inl _ \<Rightarrow> (''unknown'', ''unknown'') | Inr d \<Rightarrow> d)
        in (AvailabilityGroup group_name role (list_ex (\<lambda>d. sd_is_preferred_backup_replica d = Some True) dbs), q1)
      else if id_is_clustered i then (FailoverClusterInstance (id_machine_name i) (id_physical_node i), q)
      else (Standalone, q))"

definition probe ::
  "'q tds_env \<Rightarrow> string \<Rightarrow> u16 option \<Rightarrow> SqlAuth \<Rightarrow> string option \<Rightarrow> 'q \<Rightarrow> (anyhow + SqlProbe) \<times> 'q" where
  "probe T server given_port auth password q =
     (case sql_connect T server given_port auth password of
        Inl e \<Rightarrow> (Err e, q)
      | Inr _ \<Rightarrow>
          (case identity (td_query T) q of
             (Inl e, q1) \<Rightarrow> (Err e, q1)
           | (Inr i, q1) \<Rightarrow>
               (case databases (td_query T) q1 of
                  (Inl e, q2) \<Rightarrow> (Err e, q2)
                | (Inr dbs, q2) \<Rightarrow>
                    let (t, q3) = topology (td_query T) i dbs q2
                    in (Ok \<lparr> pr_product_version = id_product_version i, pr_edition = id_edition i,
                             pr_topology = t, pr_databases = dbs \<rparr>, q3))))"

section \<open>The state of a database\<close>

definition db_state_query :: "string \<Rightarrow> string" where
  "db_state_query database =
     ''SELECT CAST(CASE WHEN d.replica_id IS NULL THEN 0 ELSE 1 END AS int) AS in_ag, ''
       @ ''CAST(CASE WHEN d.replica_id IS NULL THEN 1 ''
       @ ''WHEN sys.fn_hadr_backup_is_preferred_replica(d.name) = 1 THEN 1 ELSE 0 END AS int) AS preferred, ''
       @ ''rs.role_desc AS role, CAST(CASE WHEN d.recovery_model_desc = '' @ sq ''SIMPLE''
       @ '' THEN 1 ELSE 0 END AS int) AS simple, CAST(d.is_read_only AS int) AS read_only, ''
       @ ''CAST(CASE WHEN drs.last_log_backup_lsn IS NULL THEN 0 ELSE 1 END AS int) AS log_chain ''
       @ ''FROM sys.databases d LEFT JOIN sys.dm_hadr_availability_replica_states rs ''
       @ ''ON rs.replica_id = d.replica_id AND rs.is_local = 1 ''
       @ ''LEFT JOIN sys.database_recovery_status drs ON drs.database_id = d.database_id WHERE d.name = ''
       @ literal database"

definition basic_ag_query :: "string \<Rightarrow> string" where
  "basic_ag_query database =
     ''SELECT CAST(ag.basic_features AS int) AS basic FROM sys.databases d ''
       @ ''JOIN sys.availability_replicas ar ON ar.replica_id = d.replica_id ''
       @ ''JOIN sys.availability_groups ag ON ag.group_id = ar.group_id WHERE d.name = '' @ literal database"

definition is_basic_ag :: "'q sql_client \<Rightarrow> string \<Rightarrow> 'q \<Rightarrow> bool \<times> 'q" where
  "is_basic_ag client database q =
     (let (r, q1) = client (basic_ag_query database) q;
          row = (case r of Inr results \<Rightarrow> into_row results | Inl _ \<Rightarrow> None)
      in (Option.bind row (\<lambda>r. row_int r ''basic'') = Some 1, q1))"

definition row_in_ag :: "sql_row \<Rightarrow> bool" where
  "row_in_ag row = (row_int row ''in_ag'' = Some 1)"

definition role_of_row :: "sql_row \<Rightarrow> Role" where
  "role_of_row row =
     (if \<not> row_in_ag row then RoleStandalone
      else case row_text row ''role'' of
             Some r \<Rightarrow> if eq_ignore_case r ''PRIMARY'' then RolePrimary else RoleSecondary
           | None \<Rightarrow> RoleSecondary)"

definition state_of_row :: "sql_row \<Rightarrow> DbState" where
  "state_of_row row =
     \<lparr> ds_role = role_of_row row, ds_preferred = (row_int row ''preferred'' \<noteq> Some 0),
       ds_simple_recovery = (row_int row ''simple'' = Some 1), ds_read_only = (row_int row ''read_only'' = Some 1),
       ds_log_chain = (row_int row ''log_chain'' = Some 1) \<rparr>"

definition db_state :: "'q sql_client \<Rightarrow> string \<Rightarrow> 'q \<Rightarrow> (anyhow + DbState) \<times> 'q" where
  "db_state client database q =
     (let (r, q1) = client (db_state_query database) q in
      case and_then r (row_or (''database ['' @ database @ ''] not found on this instance'')) of
        Inl e \<Rightarrow> (Err e, q1)
      | Inr row \<Rightarrow>
          let s = state_of_row row in
          if row_in_ag row then
            let (basic, q2) = is_basic_ag client database q1
            in (Ok (if basic then s \<lparr> ds_preferred := (ds_role s = RolePrimary) \<rparr> else s), q2)
          else (Ok s, q1))"

definition data_size_query :: "string \<Rightarrow> string" where
  "data_size_query database =
     ''SELECT CAST(SUM(CAST(size AS bigint)) * 8192 AS bigint) FROM sys.master_files WHERE database_id = DB_ID(''
       @ literal database @ '') AND type = 0''"

definition scalar :: "'q sql_client \<Rightarrow> string \<Rightarrow> 'q \<Rightarrow> sql_row option \<times> 'q" where
  "scalar client sql q =
     (let (r, q1) = client sql q in (case r of Inl _ \<Rightarrow> None | Inr results \<Rightarrow> into_row results, q1))"

definition data_size_bytes :: "'q sql_client \<Rightarrow> string \<Rightarrow> 'q \<Rightarrow> u64 option \<times> 'q" where
  "data_size_bytes client database q =
     (let (row, q1) = scalar client (data_size_query database) q
      in (case Option.bind row (\<lambda>r. row_int r ''0'') of
            None \<Rightarrow> None
          | Some v \<Rightarrow> if 0 < v then Some (of_int v) else None, q1))"

section \<open>Readiness checks\<close>

definition check_ok :: "string \<Rightarrow> string \<Rightarrow> SqlCheck" where
  "check_ok name detail = \<lparr> ck_name = name, ck_status = CheckOk, ck_detail = detail, ck_hint = None \<rparr>"

definition check_fail :: "string \<Rightarrow> string \<Rightarrow> string \<Rightarrow> SqlCheck" where
  "check_fail name detail hint = \<lparr> ck_name = name, ck_status = CheckFail, ck_detail = detail, ck_hint = Some hint \<rparr>"

definition CONNECT_HINT :: string where
  "CONNECT_HINT =
     ''Make sure the SQL Server service is running and TCP/IP is enabled in SQL Server Configuration Manager (Protocols > TCP/IP), then restart the service. If the error mentions ''
       @ sq ''login failed'' @ '', the account this connection uses needs a SQL Server login on this instance. For a remote instance with the service account, that is the computer account (DOMAIN''
       @ [CHR 92] @ ''HOSTNAME$); otherwise edit the connection to use a Windows account or a SQL login.''"

definition check ::
  "'q tds_env \<Rightarrow> string \<Rightarrow> u16 option \<Rightarrow> SqlAuth \<Rightarrow> string option \<Rightarrow> 'q \<Rightarrow> SqlCheck list \<times> 'q" where
  "check T server given_port auth password q =
     (case sql_connect T server given_port auth password of
        Inl e \<Rightarrow> ([check_fail ''Connectivity'' (alt_text e) CONNECT_HINT], q)
      | Inr _ \<Rightarrow>
          let (name_row, q1) = scalar (td_query T) ''SELECT SUSER_SNAME()'' q;
              principal = Option.bind name_row (\<lambda>r. row_text r ''0'');
              (admin_row, q2) = scalar (td_query T) SYSADMIN_QUERY q1;
              is_sysadmin = (Option.bind admin_row (\<lambda>r. row_int r ''0'') = Some 1)
          in ([check_ok ''Connectivity'' ''Connected to the instance.'']
              @ (case principal of None \<Rightarrow> [] | Some name \<Rightarrow> [check_ok ''Login'' (''Connected as '' @ name @ ''.'')])
              @ [if is_sysadmin
                 then check_ok ''sysadmin role'' ''The connection is a sysadmin, which VDI backup requires.''
                 else check_fail ''sysadmin role''
                   ''VDI backup requires the connecting login to be in the sysadmin server role.''
                   (''In SSMS, connected as an administrator, run: ALTER SERVER ROLE sysadmin ADD MEMBER [''
                     @ unwrap_or ''your login'' principal @ ''];'')],
              q2))"

section \<open>What the answers decide\<close>

lemma db_state_secondary:
  assumes "db_state client database q = (Ok s, q')"
    and "fst (client (db_state_query database) q) = Ok results" and "into_row results = Some row"
    and "row_in_ag row" and "\<forall>r. row_text row ''role'' = Some r \<longrightarrow> \<not> eq_ignore_case r ''PRIMARY''"
  shows "ds_role s = RoleSecondary"
    and "fst (is_basic_ag client database (snd (client (db_state_query database) q))) \<Longrightarrow> \<not> ds_preferred s"
  using assms
  by (auto simp: db_state_def Let_def row_or_def state_of_row_def role_of_row_def split_beta split: option.splits if_splits)

text \<open>C20: A replica that SQL Server does not report as the primary of the availability group never takes
  a backup that starts or resets a log chain: whatever the protection plan and the kind of run, it
  takes a log backup or a copy-only full, or nothing. In a Basic availability group, whose
  secondaries allow no backups, it takes nothing at all, also when the backup preference names it.\<close>

theorem secondary_never_starts_chain:
  assumes "db_state client database q = (Ok s, q')"
    and "fst (client (db_state_query database) q) = Ok results" and "into_row results = Some row"
    and "row_in_ag row" and "\<forall>r. row_text row ''role'' = Some r \<longrightarrow> \<not> eq_ignore_case r ''PRIMARY''"
    and "decide plan run s local_full = Backup kind copy_only note_text"
  shows "(kind = Log \<or> kind = Full \<and> copy_only)
    \<and> \<not> fst (is_basic_ag client database (snd (client (db_state_query database) q)))"
  using db_state_secondary [OF assms(1-5)] assms(6)
  by (auto simp: decide_def split: PlanKind.splits SqlRun.splits if_splits)

definition demo_replica :: "int \<Rightarrow> nat sql_client" where
  "demo_replica basic sql q =
     (Ok [[\<lparr> row_text = (\<lambda>c. if c = ''role'' then Some ''RESOLVING'' else None),
             row_int = (\<lambda>c. if c = ''in_ag'' \<or> c = ''preferred'' \<or> c = ''log_chain'' then Some 1
                            else if c = ''basic'' then Some basic else Some 0) \<rparr>]], Suc q)"

theorem secondary_never_starts_chain_witness:
  "\<exists>s. db_state (demo_replica 0) ''db'' 0 = (Ok s, 2) \<and> decide PlanPointInTime RunLog s True = Backup Log False None
     \<and> \<not> fst (is_basic_ag (demo_replica 0) ''db'' (snd (demo_replica 0 (db_state_query ''db'') 0)))"
proof -
  define s where "s = \<lparr> ds_role = RoleSecondary, ds_preferred = True, ds_simple_recovery = False, ds_read_only = False,
    ds_log_chain = True \<rparr>"
  obtain row where row: "fst (demo_replica 0 (db_state_query ''db'') 0) = Ok [[row]]" "into_row [[row]] = Some row"
      "row_in_ag row" "row_text row ''role'' = Some ''RESOLVING''"
    by (simp add: demo_replica_def into_row_def first_rows_def row_in_ag_def)
  have st: "db_state (demo_replica 0) ''db'' 0 = (Ok s, 2)"
    by (simp add: s_def db_state_def demo_replica_def Let_def row_or_def into_row_def first_rows_def state_of_row_def
        role_of_row_def row_in_ag_def is_basic_ag_def eq_ignore_case_def to_lower_def to_lower_char_def)
  have dec: "decide PlanPointInTime RunLog s True = Backup Log False None"
    by (simp add: decide_def s_def)
  have "\<not> eq_ignore_case ''RESOLVING'' ''PRIMARY''"
    by code_simp
  then have "\<forall>r. row_text row ''role'' = Some r \<longrightarrow> \<not> eq_ignore_case r ''PRIMARY''"
    by (simp add: row(4))
  from secondary_never_starts_chain [OF st row(1-3) this dec] st dec show ?thesis
    by blast
qed

text \<open>The readiness checks are all green exactly when the connection succeeds and the login is a
  sysadmin, and a check carries a hint exactly when it is not green.\<close>

theorem checks_green_iff_ready:
  "list_all (\<lambda>c. ck_status c = CheckOk) (fst (check T server p auth password q))
     \<longleftrightarrow> is_ok (sql_connect T server p auth password)
       \<and> Option.bind (fst (scalar (td_query T) SYSADMIN_QUERY (snd (scalar (td_query T) ''SELECT SUSER_SNAME()'' q))))
           (\<lambda>r. row_int r ''0'') = Some 1"
    "list_all (\<lambda>c. (ck_hint c = None) = (ck_status c = CheckOk)) (fst (check T server p auth password q))"
  by (auto simp: check_def check_ok_def check_fail_def Let_def split_beta split: sum.splits option.splits)

end
