(* ===== verification/Handler.thy ===== *)
theory Handler
  imports FileRestore SqlHealth RelaySetup Discover Probe
begin

text \<open>
  The request handler of the engine (\<open>pbsgui-engine/src/handler.rs\<close>): every request of the protocol
  with its replies and its effect on the stores, the credential store, the settings files, the
  running backups, the restore folder and SQL Server.

  The world of the engine collects what requests change. What they only call is the environment;
  the settings, stores and secrets a run reads are those of the world at that moment.
\<close>

section \<open>World and environment\<close>

record 'q engine_world =
  ew_sched :: sched_world
  ew_conns :: "SqlConnection json_store"
  ew_servers :: "PbsServer json_store"
  ew_keyring :: keyring
  ew_notify_file :: "bytes option"
  ew_metrics_file :: "bytes option"
  ew_endpoint :: "(string \<times> u16) option"
  ew_folder :: export_world
  ew_sql :: "'q sql_world"

record ('a, 'p, 'b, 'q) engine_env =
  ee_sched :: "('a, 'p, 'b) sched_env"
  ee_conn_writer :: "SqlConnection writer"
  ee_server_writer :: "PbsServer writer"
  ee_random :: "string + arr32"
  ee_pbs :: pbs_env
  ee_permissions :: "ApiClient \<Rightarrow> string \<Rightarrow> PbsError + ReadEvent list"
  ee_tar :: tar_env
  ee_export :: export_env
  ee_vdi :: "SqlConnection \<Rightarrow> string option \<Rightarrow> 'q vdi_env"
  ee_tds :: "'q tds_env"
  ee_registry :: reg_env
  ee_udp :: udp_env
  ee_notify_parse :: "bytes \<Rightarrow> NotificationSettings option"
  ee_notify_print :: "NotificationSettings \<Rightarrow> bytes"
  ee_metrics_parse :: "bytes \<Rightarrow> MetricsSettings option"
  ee_metrics_print :: "MetricsSettings \<Rightarrow> bytes"
  ee_config_dir :: "string option"
  ee_config_write :: "(nat \<times> string) option"
  ee_relay_file :: "ServerFile option"
  ee_relay :: "relay_state option"
  ee_run_order :: "string list"
  ee_gui_gone :: "nat option"

definition notify_settings :: "('a, 'p, 'b, 'q) engine_env \<Rightarrow> 'q engine_world \<Rightarrow> NotificationSettings" where
  "notify_settings E w = notify_load (ee_notify_parse E) (ew_notify_file w)"

definition metrics_settings :: "('a, 'p, 'b, 'q) engine_env \<Rightarrow> 'q engine_world \<Rightarrow> MetricsSettings" where
  "metrics_settings E w = metrics_load (ee_metrics_parse E) (ew_metrics_file w)"

definition run_env_of :: "('a, 'p, 'b, 'q) engine_env \<Rightarrow> 'q engine_world \<Rightarrow> ('a, 'p, 'b) run_env" where
  "run_env_of E w =
     (sv_run (ee_sched E)) \<lparr> re_conns := ew_conns w, re_servers := ew_servers w, re_keyring := ew_keyring w,
        re_settings := notify_settings E w \<rparr>"

definition sched_env_of :: "('a, 'p, 'b, 'q) engine_env \<Rightarrow> 'q engine_world \<Rightarrow> ('a, 'p, 'b) sched_env" where
  "sched_env_of E w = (ee_sched E) \<lparr> sv_run := run_env_of E w, sv_settings := metrics_settings E w \<rparr>"

definition stores_of :: "('a, 'p, 'b, 'q) engine_env \<Rightarrow> 'q engine_world \<Rightarrow> 'a stores_env" where
  "stores_of E w =
     \<lparr> se_signer = re_signer (sv_run (ee_sched E)), se_libs = re_libs (sv_run (ee_sched E)),
       se_jobs = sl_store (ew_sched w), se_conns = ew_conns w, se_servers = ew_servers w, se_keyring = ew_keyring w \<rparr>"

text \<open>Settings are written in place; a failed write leaves what it had written.\<close>

definition write_settings :: "('a, 'p, 'b, 'q) engine_env \<Rightarrow> bytes \<Rightarrow> bytes option \<Rightarrow> (string + unit) \<times> bytes option" where
  "write_settings E content old =
     (case ee_config_dir E of
        Some e \<Rightarrow> (Err e, old)
      | None \<Rightarrow>
          (case ee_config_write E of
             Some (n, e) \<Rightarrow> (Err e, Some (take n content))
           | None \<Rightarrow> (Ok (), Some content)))"

section \<open>Replies\<close>

definition enc_key_reply :: "string + EncryptionKeyInfo \<Rightarrow> Reply" where
  "enc_key_reply result = (case result of Inr info \<Rightarrow> EncryptionKey (Some info) | Inl e \<Rightarrow> ErrorReply e)"

definition sql_password :: "keyring \<Rightarrow> string option \<Rightarrow> string option \<Rightarrow> string + string option" where
  "sql_password kr password connection_id =
     (case (password, connection_id) of
        (Some p, _) \<Rightarrow> Ok (Some p)
      | (None, Some i) \<Rightarrow> secret_get (sql_secret_key i) kr
      | (None, None) \<Rightarrow> Ok None)"

definition saved_reply :: "string \<Rightarrow> string + unit \<Rightarrow> Reply" where
  "saved_reply i result = (case result of Inr _ \<Rightarrow> Saved i | Inl e \<Rightarrow> ErrorReply e)"

definition deleted_reply :: "string + unit \<Rightarrow> Reply" where
  "deleted_reply result = (case result of Inr _ \<Rightarrow> Deleted | Inl e \<Rightarrow> ErrorReply e)"

definition list_reply :: "('x list \<Rightarrow> Reply) \<Rightarrow> 'x json_store \<Rightarrow> Reply" where
  "list_reply found_items st = (case js_load_error st of Some e \<Rightarrow> ErrorReply e | None \<Rightarrow> found_items (js_items st))"

definition result_reply :: "(anyhow \<Rightarrow> string) \<Rightarrow> ('x \<Rightarrow> Reply) \<Rightarrow> anyhow + 'x \<Rightarrow> Reply" where
  "result_reply text ok result = (case result of Inr x \<Rightarrow> ok x | Inl e \<Rightarrow> ErrorReply (text e))"

section \<open>Testing a server\<close>

definition no_privilege :: "string \<Rightarrow> string \<Rightarrow> string" where
  "no_privilege acl user =
     ''Reached PBS and the token authenticates, but it has no effective Datastore.Backup on /datastore/'' @ acl
       @ ''. PBS API tokens use privilege separation: a token'' @ [CHR 39]
       @ ''s rights are the intersection of the token'' @ [CHR 39] @ ''s and its user'' @ [CHR 39]
       @ ''s roles, so both need the DatastoreBackup role on this path. If only the token has it, grant the user ''
       @ sq user @ '' too, e.g. on the PBS host:'' @ [CHR 10] @ ''  proxmox-backup-manager acl update /datastore/'' @ acl
       @ '' DatastoreBackup --auth-id '' @ sq user"

definition unreachable_text :: "PbsError \<Rightarrow> string" where
  "unreachable_text e =
     (let detail = pbs_error_text e in
      if infix_of ''401'' detail then ''The PBS token id or secret was not accepted (401).''
      else if infix_of ''certificate'' detail \<or> infix_of ''fingerprint'' detail
        then ''Could not verify the PBS certificate (fingerprint mismatch?): '' @ detail
      else ''Could not reach PBS: '' @ detail)"

text \<open>\<open>None\<close>: the reading of the answer panics.\<close>

definition test_pbs_server ::
  "('a, 'p, 'b, 'q) engine_env \<Rightarrow> keyring \<Rightarrow> PbsServer \<Rightarrow> string option \<Rightarrow> (anyhow + string) option" where
  "test_pbs_server E kr server given =
     (let L = re_libs (sv_run (ee_sched E));
          secret = (case given of
              Some s \<Rightarrow> if s \<noteq> [] then Ok (Some s) else lift_err (secret_get (pbs_secret_key (ps_id server)) kr)
            | None \<Rightarrow> lift_err (secret_get (pbs_secret_key (ps_id server)) kr))
      in case secret of
           Inl e \<Rightarrow> Some (Err e)
         | Inr None \<Rightarrow> Some (Err [''no token secret was entered or stored''])
         | Inr (Some s) \<Rightarrow>
             (case and_then (lift_pbs (repo_from_str (ps_repository server))) (\<lambda>repo.
                     and_then (lift_pbs (api_from_repository repo s (ps_fingerprint server))) (\<lambda>api. Ok (repo, api))) of
                Inl e \<Rightarrow> Some (Err e)
              | Inr (repo, api) \<Rightarrow>
                  let ds = datastore repo; ns = namespace repo;
                      acl = (case ns of Some n \<Rightarrow> if n \<noteq> [] then ds @ ''/'' @ n else ds | None \<Rightarrow> ds);
                      answer = (case ee_permissions E api (permissions_path L ds ns) of
                          Inl e \<Rightarrow> Some (Inl e)
                        | Inr events \<Rightarrow> can_backup L ds ns events)
                  in map_option (\<lambda>r. case r of
                       Inr True \<Rightarrow>
                         Ok (''Reached PBS; the token can back up to datastore '' @ [CHR 34] @ acl @ [CHR 34] @ ''.'')
                     | Inr False \<Rightarrow>
                         Err [no_privilege acl (hd (split_on (CHR ''!'') (unwrap_or [] (auth_id repo))))]
                     | Inl e \<Rightarrow> Err [unreachable_text e]) answer))"

section \<open>Running a job\<close>

definition forwarded :: "nat option \<Rightarrow> Reply list \<Rightarrow> Reply list" where
  "forwarded gone events = (case gone of None \<Rightarrow> events | Some n \<Rightarrow> take (Suc n) events)"

text \<open>The replies of the run are what it adds to the channel; sending stops after the first failure.\<close>

definition run_job_request ::
  "('a, 'p, 'b, 'q) engine_env \<Rightarrow> task_end \<Rightarrow> string \<Rightarrow> 'q engine_world \<Rightarrow> Reply list \<times> 'q engine_world" where
  "run_job_request E fin job_id w =
     (case get_job (sl_store (ew_sched w)) job_id of
        None \<Rightarrow> ([ErrorReply (''no such job: '' @ job_id)], w)
      | Some job \<Rightarrow>
          let V = sched_env_of E w; sw = ew_sched w; rw = sl_run sw;
              (success, message, status, rw1) =
                (case fin of
                   Ran e \<Rightarrow>
                     (case run_job (sv_run V) e job rw of
                        (Inr report, rw1) \<Rightarrow> (True, rr_message report, report_status report, rw1)
                      | (Inl m, rw1) \<Rightarrow> (False, m, m, rw1))
                 | Panicked m rw1 \<Rightarrow> (False, ''job task failed: '' @ m, ''job task failed: '' @ m, rw1));
              events = drop (length (rw_events rw)) (rw_events rw1);
              (now, rw2) = unix_now (sv_run V) rw1;
              (_, st) = record_run (sv_writer V) job_id now status (sl_store sw);
              sw1 = refresh_textfile V (sw \<lparr> sl_run := rw2, sl_store := st \<rparr>)
          in (Accepted job_id # forwarded (ee_gui_gone E) events @ [Finished success message],
              w \<lparr> ew_sched := sw1 \<rparr>))"

section \<open>Stores and secrets\<close>

definition delete_job_request :: "('a, 'p, 'b, 'q) engine_env \<Rightarrow> string \<Rightarrow> 'q engine_world \<Rightarrow> Reply list \<times> 'q engine_world" where
  "delete_job_request E job_id w =
     (let (_, kr) = clear_key job_id (ew_keyring w);
          (r, st) = delete_job (sv_writer (ee_sched E)) job_id (sl_store (ew_sched w))
      in ([deleted_reply r], w \<lparr> ew_keyring := kr, ew_sched := (ew_sched w) \<lparr> sl_store := st \<rparr> \<rparr>))"

text \<open>A connection or server is saved with its secret, if one is given; the secret first.\<close>

definition save_with_secret ::
  "('x \<Rightarrow> string) \<Rightarrow> 'x writer \<Rightarrow> string \<Rightarrow> 'x \<Rightarrow> string option \<Rightarrow> keyring \<Rightarrow> 'x json_store
     \<Rightarrow> (string + unit) \<times> keyring \<times> 'x json_store" where
  "save_with_secret ident wr key item secret kr st =
     (case ensure_writable st of
        Inl e \<Rightarrow> (Err e, kr, st)
      | Inr _ \<Rightarrow>
          (case (case secret of None \<Rightarrow> (Ok (), kr) | Some s \<Rightarrow> secret_set key s kr) of
             (Inl e, kr1) \<Rightarrow> (Err e, kr1, st)
           | (Inr _, kr1) \<Rightarrow> let (r, st1) = js_save ident wr item st in (r, kr1, st1)))"

definition delete_with_secret ::
  "('x \<Rightarrow> string) \<Rightarrow> 'x writer \<Rightarrow> string \<Rightarrow> string \<Rightarrow> keyring \<Rightarrow> 'x json_store \<Rightarrow> (string + unit) \<times> keyring \<times> 'x json_store" where
  "delete_with_secret ident wr key i kr st =
     (let (r, st1) = js_delete ident wr i st
      in (r, if is_ok r then snd (secret_delete key kr) else kr, st1))"

definition save_notifications ::
  "('a, 'p, 'b, 'q) engine_env \<Rightarrow> NotificationSettings \<Rightarrow> string option \<Rightarrow> string option \<Rightarrow> 'q engine_world
     \<Rightarrow> Reply list \<times> 'q engine_world" where
  "save_notifications E settings smtp webhook w =
     (let (r, w1) =
            (case set_smtp_password smtp (ew_keyring w) of
               (Inl e, kr) \<Rightarrow> (Err e, w \<lparr> ew_keyring := kr \<rparr>)
             | (Inr _, kr) \<Rightarrow>
                 (case set_webhook_url webhook kr of
                    (Inl e, kr1) \<Rightarrow> (Err e, w \<lparr> ew_keyring := kr1 \<rparr>)
                  | (Inr _, kr1) \<Rightarrow>
                      let (r, f) = write_settings E (ee_notify_print E settings) (ew_notify_file w)
                      in (r, w \<lparr> ew_keyring := kr1, ew_notify_file := f \<rparr>)))
      in ([saved_reply ''notifications'' r], w1))"

definition save_metrics ::
  "('a, 'p, 'b, 'q) engine_env \<Rightarrow> MetricsSettings \<Rightarrow> 'q engine_world \<Rightarrow> Reply list \<times> 'q engine_world" where
  "save_metrics E settings w =
     (case write_settings E (ee_metrics_print E settings) (ew_metrics_file w) of
        (Inl e, f) \<Rightarrow> ([ErrorReply e], w \<lparr> ew_metrics_file := f \<rparr>)
      | (Inr _, f) \<Rightarrow>
          let w1 = w \<lparr> ew_metrics_file := f \<rparr>; V = sched_env_of E w1; sw = ew_sched w1;
              body = metrics_render (re_floats (sv_run V)) (fst (sv_version V)) (snd (sv_version V))
                       (rw_metrics (sl_run sw)) (js_items (sl_store sw));
              (endpoint, files) = metrics_apply (fst (sv_io V)) (snd (sv_io V)) (metrics_settings E w1) body
                       (ew_endpoint w1, sl_textfile sw)
          in ([Metrics settings], w1 \<lparr> ew_endpoint := endpoint, ew_sched := sw \<lparr> sl_textfile := files \<rparr> \<rparr>))"

section \<open>Requests\<close>

text \<open>How a step on one part of the world is one on the whole.\<close>

definition on_sql :: "('q \<Rightarrow> 'r \<times> 'q) \<Rightarrow> 'q engine_world \<Rightarrow> 'r \<times> 'q engine_world" where
  "on_sql f w = (let (r, q) = f (sw_server (ew_sql w)) in (r, w \<lparr> ew_sql := (ew_sql w) \<lparr> sw_server := q \<rparr> \<rparr>))"

definition on_keyring :: "(keyring \<Rightarrow> 'r \<times> keyring) \<Rightarrow> 'q engine_world \<Rightarrow> 'r \<times> 'q engine_world" where
  "on_keyring f w = (let (r, kr) = f (ew_keyring w) in (r, w \<lparr> ew_keyring := kr \<rparr>))"

definition on_folder :: "(export_world \<Rightarrow> 'r \<times> export_world) \<Rightarrow> 'q engine_world \<Rightarrow> 'r \<times> 'q engine_world" where
  "on_folder f w = (let (r, x) = f (ew_folder w) in (r, w \<lparr> ew_folder := x \<rparr>))"

definition probe_request ::
  "('a, 'p, 'b, 'q) engine_env \<Rightarrow> string \<Rightarrow> u16 option \<Rightarrow> SqlAuth \<Rightarrow> string option \<Rightarrow> string option \<Rightarrow> 'q engine_world
     \<Rightarrow> Reply \<times> 'q engine_world" where
  "probe_request E server p auth password connection_id w =
     (case sql_password (ew_keyring w) password connection_id of
        Inl e \<Rightarrow> (ErrorReply e, w)
      | Inr pw \<Rightarrow> apfst (result_reply alt_text ProbeResult) (on_sql (probe (ee_tds E) server p auth pw) w))"

definition check_request ::
  "('a, 'p, 'b, 'q) engine_env \<Rightarrow> string \<Rightarrow> u16 option \<Rightarrow> SqlAuth \<Rightarrow> string option \<Rightarrow> string option \<Rightarrow> 'q engine_world
     \<Rightarrow> Reply \<times> 'q engine_world" where
  "check_request E server p auth password connection_id w =
     (case sql_password (ew_keyring w) password connection_id of
        Inl e \<Rightarrow> (ErrorReply e, w)
      | Inr pw \<Rightarrow> apfst SqlChecks (on_sql (check (ee_tds E) server p auth pw) w))"

definition save_connection_request ::
  "('a, 'p, 'b, 'q) engine_env \<Rightarrow> SqlConnection \<Rightarrow> string option \<Rightarrow> 'q engine_world \<Rightarrow> Reply \<times> 'q engine_world" where
  "save_connection_request E conn secret w =
     (let (r, kr, st) = save_with_secret sc_id (ee_conn_writer E) (sql_secret_key (sc_id conn)) conn secret (ew_keyring w) (ew_conns w)
      in (saved_reply (sc_id conn) r, w \<lparr> ew_keyring := kr, ew_conns := st \<rparr>))"

definition delete_connection_request ::
  "('a, 'p, 'b, 'q) engine_env \<Rightarrow> string \<Rightarrow> 'q engine_world \<Rightarrow> Reply \<times> 'q engine_world" where
  "delete_connection_request E i w =
     (let (r, kr, st) = delete_with_secret sc_id (ee_conn_writer E) (sql_secret_key i) i (ew_keyring w) (ew_conns w)
      in (deleted_reply r, w \<lparr> ew_keyring := kr, ew_conns := st \<rparr>))"

definition save_server_request ::
  "('a, 'p, 'b, 'q) engine_env \<Rightarrow> PbsServer \<Rightarrow> string option \<Rightarrow> 'q engine_world \<Rightarrow> Reply \<times> 'q engine_world" where
  "save_server_request E server secret w =
     (let (r, kr, st) = save_with_secret ps_id (ee_server_writer E) (pbs_secret_key (ps_id server)) server secret (ew_keyring w) (ew_servers w)
      in (saved_reply (ps_id server) r, w \<lparr> ew_keyring := kr, ew_servers := st \<rparr>))"

definition delete_server_request ::
  "('a, 'p, 'b, 'q) engine_env \<Rightarrow> string \<Rightarrow> 'q engine_world \<Rightarrow> Reply \<times> 'q engine_world" where
  "delete_server_request E i w =
     (let (r, kr, st) = delete_with_secret ps_id (ee_server_writer E) (pbs_secret_key i) i (ew_keyring w) (ew_servers w)
      in (deleted_reply r, w \<lparr> ew_keyring := kr, ew_servers := st \<rparr>))"

definition save_job_reply ::
  "('a, 'p, 'b, 'q) engine_env \<Rightarrow> Job \<Rightarrow> 'q engine_world \<Rightarrow> Reply \<times> 'q engine_world" where
  "save_job_reply E job w =
     (let (r, st) = save_job_request (sv_writer (ee_sched E)) job (sl_store (ew_sched w))
      in (saved_reply (j_id job) r, w \<lparr> ew_sched := (ew_sched w) \<lparr> sl_store := st \<rparr> \<rparr>))"

definition cancel_request :: "string \<Rightarrow> 'q engine_world \<Rightarrow> Reply \<times> 'q engine_world" where
  "cancel_request job_id w =
     (let sw = ew_sched w; rw = sl_run sw; (running, reg) = cancel_job job_id (rw_registry rw)
      in (Finished running (if running then ''cancelling the running backup'' else ''no run is in progress for this job''),
          w \<lparr> ew_sched := sw \<lparr> sl_run := rw \<lparr> rw_registry := reg \<rparr> \<rparr> \<rparr>))"

definition test_notification_request ::
  "('a, 'p, 'b, 'q) engine_env \<Rightarrow> NotifyChannel \<Rightarrow> 'q engine_world \<Rightarrow> Reply \<times> 'q engine_world" where
  "test_notification_request E channel w =
     (let R = run_env_of E w; sw = ew_sched w; rw = sl_run sw;
          (r, sent) = send_test (re_floats R) (re_channels R) (ew_keyring w) (notify_settings E w) channel
      in (case r of Inr _ \<Rightarrow> Finished True ''test notification sent'' | Inl e \<Rightarrow> Finished False e,
          w \<lparr> ew_sched := sw \<lparr> sl_run := rw \<lparr> rw_sent := rw_sent rw @ sent \<rparr> \<rparr> \<rparr>))"

definition one :: "Reply \<times> 'q engine_world \<Rightarrow> Reply list \<times> 'q engine_world" where
  "one rw = ([fst rw], snd rw)"

fun handle :: "('a, 'p, 'b, 'q) engine_env \<Rightarrow> task_end \<Rightarrow> Request \<Rightarrow> 'q engine_world \<Rightarrow> Reply list \<times> 'q engine_world" where
  "handle E fin Request.Ping w = ([Reply.Pong], w)"
| "handle E fin ListJobs w = ([list_reply Jobs (sl_store (ew_sched w))], w)"
| "handle E fin (SaveJob job) w = one (save_job_reply E job w)"
| "handle E fin (DeleteJob i) w = delete_job_request E i w"
| "handle E fin (RunJob i) w = run_job_request E fin i w"
| "handle E fin (CancelJob i) w = one (cancel_request i w)"
| "handle E fin ListRunning w = ([Running (running_snapshot (ee_run_order E) (rw_registry (sl_run (ew_sched w))))], w)"
| "handle E fin (ListSnapshots i) w =
     ([result_reply top_text Snapshots (list_job_snapshots (stores_of E w) (ee_pbs E) i)], w)"
| "handle E fin (ListFiles i t) w =
     ([result_reply top_text FileList (list_files (stores_of E w) (ee_pbs E) (ee_tar E) i t)], w)"
| "handle E fin (RestoreFiles i t files destination creds) w =
     on_folder (restore_job (stores_of E w) (ee_pbs E) (ee_tar E) (ee_export E) i t files destination creds) w"
| "handle E fin (DiscoverSql include_network targets) w =
     ([SqlInstances (discover (ee_registry E) (ee_udp E) include_network targets)], w)"
| "handle E fin (ProbeSql server p auth password connection_id) w = one (probe_request E server p auth password connection_id w)"
| "handle E fin (CheckSql server p auth password connection_id) w = one (check_request E server p auth password connection_id w)"
| "handle E fin (ListSqlSnapshots i database) w =
     ([result_reply alt_text Snapshots (list_sql_snapshots (stores_of E w) (ee_pbs E) i database)], w)"
| "handle E fin (GetSqlRestoreWindow i database) w =
     ([result_reply alt_text RestoreWindow (get_sql_restore_window (stores_of E w) (ee_pbs E) i database)], w)"
| "handle E fin (RestoreSql i database target point target_connection) w =
     (let (replies, q) = restore_sql (stores_of E w) (ee_pbs E) (ee_vdi E) i database target point target_connection (ew_sql w)
      in (replies, w \<lparr> ew_sql := q \<rparr>))"
| "handle E fin (RestoreSqlToFile i database point destination creds) w =
     on_folder (restore_sql_to_file (stores_of E w) (ee_pbs E) (ee_export E) i database point destination creds) w"
| "handle E fin ListSqlConnections w = ([list_reply SqlConnections (ew_conns w)], w)"
| "handle E fin (SaveSqlConnection conn secret) w = one (save_connection_request E conn secret w)"
| "handle E fin (DeleteSqlConnection i) w = one (delete_connection_request E i w)"
| "handle E fin ListPbsServers w = ([list_reply PbsServers (ew_servers w)], w)"
| "handle E fin (SavePbsServer server secret) w = one (save_server_request E server secret w)"
| "handle E fin (DeletePbsServer i) w = one (delete_server_request E i w)"
| "handle E fin (TestPbsServer server secret) w =
     (case test_pbs_server E (ew_keyring w) server secret of
        None \<Rightarrow> ([], w)
      | Some r \<Rightarrow> ([finished_reply r], w))"
| "handle E fin (GenerateEncryptionKey i) w =
     one (apfst enc_key_reply
       (on_keyring (generate (re_signer (sv_run (ee_sched E))) (re_libs (sv_run (ee_sched E))) (ee_random E) i) w))"
| "handle E fin (ImportEncryptionKey i key) w =
     one (apfst enc_key_reply
       (on_keyring (import_key (re_signer (sv_run (ee_sched E))) (re_libs (sv_run (ee_sched E))) i key) w))"
| "handle E fin (GetEncryptionKey i) w =
     ([case get_key (re_signer (sv_run (ee_sched E))) (re_libs (sv_run (ee_sched E))) i (ew_keyring w) of
         Inr info \<Rightarrow> EncryptionKey info | Inl e \<Rightarrow> ErrorReply e], w)"
| "handle E fin (ClearEncryptionKey i) w =
     one (apfst (\<lambda>r. case r of Inr _ \<Rightarrow> EncryptionKey None | Inl e \<Rightarrow> ErrorReply e) (on_keyring (clear_key i) w))"
| "handle E fin GetNotifications w =
     (let (smtp, webhook) = secret_flags (ew_keyring w) in ([Notifications (notify_settings E w) smtp webhook], w))"
| "handle E fin (SaveNotifications settings smtp webhook) w = save_notifications E settings smtp webhook w"
| "handle E fin (TestNotification channel) w = one (test_notification_request E channel w)"
| "handle E fin GetMetrics w = ([Metrics (metrics_settings E w)], w)"
| "handle E fin (SaveMetrics settings) w = save_metrics E settings w"
| "handle E fin ListRelayAgents w = ([RelayAgents (agent_infos (ee_relay_file E) (ee_relay E))], w)"

section \<open>Runs only report progress\<close>

definition progress :: "Reply list \<Rightarrow> bool" where
  "progress rs = list_all (\<lambda>r. \<not> is_terminal r) rs"

lemma progress_simps [simp]:
  "progress []" "progress (r # rs) \<longleftrightarrow> \<not> is_terminal r \<and> progress rs" "progress (rs @ ss) \<longleftrightarrow> progress rs \<and> progress ss"
  by (auto simp: progress_def)

lemma progress_take: "progress rs \<Longrightarrow> progress (take n rs)"
  by (auto simp: progress_def list_all_iff dest: in_set_takeD)

text \<open>A run adds only progress to its channel. Each of its parts keeps that of any world before it.\<close>

definition talks :: "run_world \<Rightarrow> run_world \<Rightarrow> bool" where
  "talks w w' = (\<exists>evs. rw_events w' = rw_events w @ evs \<and> progress evs)"

named_theorems talks_rules

lemma talks_refl [simp]: "talks w w"
  by (simp add: talks_def)

lemma talks_update [simp]:
  "talks w (w1 \<lparr> rw_sched := a \<rparr>) = talks w w1" "talks w (w1 \<lparr> rw_prints := b \<rparr>) = talks w w1"
  "talks w (w1 \<lparr> rw_metrics := c \<rparr>) = talks w w1" "talks w (w1 \<lparr> rw_registry := d \<rparr>) = talks w w1"
  "talks w (w1 \<lparr> rw_sent := e \<rparr>) = talks w w1" "talks w (w1 \<lparr> rw_tick := f \<rparr>) = talks w w1"
  by (simp_all add: talks_def)

lemma talks_events: "talks w w1 \<Longrightarrow> progress evs \<Longrightarrow> talks w (w1 \<lparr> rw_events := rw_events w1 @ evs \<rparr>)"
  by (auto simp: talks_def)

lemma talks_log [talks_rules]: "talks w w1 \<Longrightarrow> talks w (log_line l w1)"
  by (simp add: log_line_def talks_events)

lemma talks_phase [talks_rules]: "talks w w1 \<Longrightarrow> talks w (report_phase j m w1)"
  by (auto simp: talks_def report_phase_def)

lemma talks_report [talks_rules]: "talks w w1 \<Longrightarrow> talks w (log_report r w1)"
  unfolding log_report_def append_assoc by (intro talks_events) (auto simp: progress_def list_all_iff)

lemma talks_now [talks_rules]: "talks w w1 \<Longrightarrow> talks w (snd (unix_now E w1))"
  by (simp add: unix_now_def)

lemma talks_timers [talks_rules]: "talks w w1 \<Longrightarrow> talks w (sql_timers E job upd w1)"
  by (simp add: sql_timers_def unix_now_def)

lemma talks_count [talks_rules]: "talks w w1 \<Longrightarrow> talks w (count_run E j r st w1)"
  by (simp add: count_run_def unix_now_def)

lemma talks_notify [talks_rules]: "talks w w1 \<Longrightarrow> talks w (notify_outcome E job run oc w1)"
  by (simp add: notify_outcome_def)

lemma talks_release [talks_rules]: "talks w w1 \<Longrightarrow> talks w (release g w1)"
  by (simp add: release_def)

lemma talks_files [talks_rules]:
  "talks w w1 \<Longrightarrow> talks w (snd (backup_files_to_pbs E job srcs ex sid bid crypt w1))"
  by (auto simp: backup_files_to_pbs_def Let_def unix_now_def talks_rules split: sum.splits)

lemma talks_db_ends [talks_rules]:
  "talks w (snd aw) \<Longrightarrow> talks w (snd (fail_db m aw))" "talks w (snd aw) \<Longrightarrow> talks w (snd (skip_db m aw))"
  "talks w (snd aw) \<Longrightarrow> talks w (snd (warn_db m aw))"
  by (simp_all add: fail_db_def skip_db_def warn_db_def talks_rules)

lemma talks_no_chain [talks_rules]: "talks w (snd aw) \<Longrightarrow> talks w (snd (no_chain_db E j role db aw))"
  by (auto simp: no_chain_db_def Let_def unix_now_def split_beta talks_rules)

lemma talks_done [talks_rules]: "talks w (snd aw) \<Longrightarrow> talks w (snd (done_db E j run kind db st aw))"
  by (cases aw) (auto simp: done_db_def Let_def unix_now_def)

lemma talks_backup_db [talks_rules]: "talks w (snd aw) \<Longrightarrow> talks w (snd (backup_db E J db s kind co aw))"
  by (auto simp: backup_db_def Let_def unix_now_def split_beta talks_rules split: sum.splits)

lemma talks_sql_db [talks_rules]: "talks w (snd aw) \<Longrightarrow> talks w (snd (sql_db E J db aw))"
  by (auto simp: sql_db_def Let_def talks_rules split: sum.splits Action.splits option.splits)

lemma talks_sql_dbs [talks_rules]: "talks w (snd aw) \<Longrightarrow> talks w (snd (fold (sql_db E J) dbs aw))"
  by (induction dbs arbitrary: aw) (auto simp: talks_rules)

lemma talks_sql_pbs [talks_rules]:
  "talks w w1 \<Longrightarrow> talks w (snd (backup_sql_to_pbs E cid dbs plan run sid bid crypt comp' j w1))"
  by (auto simp: backup_sql_to_pbs_def Let_def split_beta talks_rules split: sum.splits)

lemma talks_sql_files [talks_rules]: "talks w w1 \<Longrightarrow> talks w (snd (sql_files E conn pw folder dbs n w1))"
  by (induction dbs arbitrary: n w1) (auto simp: Let_def unix_now_def talks_rules split: sum.splits)

lemma talks_sql_folder [talks_rules]: "talks w w1 \<Longrightarrow> talks w (snd (backup_sql_to_folder E cid dbs folder w1))"
  by (auto simp: backup_sql_to_folder_def split_beta talks_rules split: sum.splits)

lemma talks_do_backup [talks_rules]: "talks w w1 \<Longrightarrow> talks w (snd (do_backup E job run w1))"
  by (auto simp: do_backup_def split_beta talks_rules split: JobSource.splits JobDestination.splits sum.splits)

lemma talks_run_inner [talks_rules]: "talks w w1 \<Longrightarrow> talks w (snd (run_inner E job run w1))"
  by (auto simp: run_inner_def split_beta Let_def talks_rules split: sum.splits option.splits)

lemma talks_finish [talks_rules]: "talks w (snd ow) \<Longrightarrow> talks w (snd (finish_run E job run c ow))"
  by (cases ow) (auto simp: finish_run_def Let_def talks_rules)

lemma talks_start: "start_run E job w1 = Some (token, w2) \<Longrightarrow> talks w w1 \<Longrightarrow> talks w w2"
  by (auto simp: start_run_def Let_def unix_now_def split: option.splits)

text \<open>A run that is dropped leaves a world of its own; what it had sent by then is progress too.\<close>

definition fin_talks :: "task_end \<Rightarrow> run_world \<Rightarrow> bool" where
  "fin_talks fin w =
     (case fin of Ran (Completed _) \<Rightarrow> True | Ran (Dropped w') \<Rightarrow> talks w w' | Panicked _ w' \<Rightarrow> talks w w')"

lemma talks_run_job: "fin_talks (Ran e) w \<Longrightarrow> talks w (snd (run_job E e job w))"
  by (auto simp: run_job_def run_job_kind_def fin_talks_def split_beta Let_def talks_rules
      split: option.splits run_end.splits dest!: talks_start [OF _ talks_refl])

section \<open>Streams of a restore\<close>

lemma restore_logs [simp]: "\<not> is_terminal STREAMING" "\<not> is_terminal BUFFERED" "\<not> is_terminal READING_CHAIN"
  by (simp_all add: STREAMING_def BUFFERED_def READING_CHAIN_def)

lemma run_restore_full_progress: "progress (fst (snd (run_restore_full P E ctx db target t foreign w)))"
  by (auto simp: run_restore_full_def Let_def split_beta split: sum.splits)

lemma run_restore_pit_progress: "progress (fst (snd (run_restore_pit P E ctx db target t foreign w)))"
  by (auto simp: run_restore_pit_def Let_def split_beta split: sum.splits)

lemma choose_target_progress: "progress (fst (snd (choose_target S V tc ctx w)))"
  by (auto simp: choose_target_def Let_def split_beta split: sum.splits option.splits)

lemma run_restore_sql_progress: "progress (fst (snd (run_restore_sql S P V i db target point tc w)))"
proof (cases "sql_job_pbs S i")
  case (Inr ctx)
  obtain r logs w1 where c: "choose_target S V tc ctx w = (r, logs, w1)"
    by (cases "choose_target S V tc ctx w")
  have "progress logs"
    using choose_target_progress [of S V tc ctx w] by (simp add: c)
  then show ?thesis
    using Inr by (auto simp: run_restore_sql_def c Let_def split_beta run_restore_full_progress run_restore_pit_progress
        split: sum.splits SqlRestorePoint.splits)
qed (simp add: run_restore_sql_def)

lemma export_items_progress: "progress (fst (snd (export_items P X ctx db dir i items w)))"
  by (induction items arbitrary: i w) (auto simp: Let_def split_beta split: sum.splits)

lemma run_export_progress: "progress (fst (snd (run_restore_sql_to_file S P X i db point dest creds w)))"
  by (auto simp: run_restore_sql_to_file_def export_sql_full_def export_sql_chain_def Let_def split_beta export_items_progress
      split: sum.splits SqlRestorePoint.splits)

lemma restore_to_progress: "progress (fst (snd (restore_to P T X ctx params files dest w)))"
  by (auto simp: restore_to_def Let_def split_beta split: sum.splits option.splits)

lemma run_restore_progress: "progress (fst (snd (run_restore P T X ctx t files dest creds w)))"
  by (auto simp: run_restore_def Let_def split_beta restore_to_progress split: sum.splits)

section \<open>Every request is answered\<close>

definition answered :: "Reply list \<Rightarrow> bool" where
  "answered rs = (\<exists>front r. rs = front @ [r] \<and> progress front \<and> is_terminal r)"

lemma answered_single [simp]: "answered [r] = is_terminal r"
  by (auto simp: answered_def)

lemma answered_stream: "progress logs \<Longrightarrow> is_terminal r \<Longrightarrow> answered (Accepted i # logs @ [r])"
  by (auto simp: answered_def intro!: exI [of _ "Accepted i # logs"])

lemma terminal_replies [simp]:
  "is_terminal (saved_reply i r)" "is_terminal (deleted_reply r)" "is_terminal (enc_key_reply k)" "is_terminal (finished_reply f)"
  "(\<And>x. is_terminal (g x)) \<Longrightarrow> is_terminal (list_reply g st)"
  "(\<And>x. is_terminal (h x)) \<Longrightarrow> is_terminal (result_reply text h res)"
  by (auto simp: saved_reply_def deleted_reply_def enc_key_reply_def finished_reply_def list_reply_def result_reply_def
      split: sum.splits option.splits)

lemma one_answered: "is_terminal (fst rw) \<Longrightarrow> answered (fst (one rw))"
  by (simp add: one_def)

lemma run_job_request_answered:
  assumes "fin_talks fin (sl_run (ew_sched w))"
  shows "answered (fst (run_job_request E fin i w))"
proof (cases "get_job (sl_store (ew_sched w)) i")
  case (Some job)
  define rw where "rw = sl_run (ew_sched w)"
  define rw1 where "rw1 = (case fin of Ran e \<Rightarrow> snd (run_job (sv_run (sched_env_of E w)) e job rw) | Panicked m rw1 \<Rightarrow> rw1)"
  have "talks rw rw1"
  proof (cases fin)
    case (Ran e)
    then show ?thesis
      using assms talks_run_job [of e rw] by (simp add: rw1_def rw_def)
  next
    case (Panicked m w')
    then show ?thesis
      using assms by (simp add: rw1_def rw_def fin_talks_def)
  qed
  then have "progress (drop (length (rw_events rw)) (rw_events rw1))"
    by (auto simp: talks_def)
  then have "progress (forwarded (ee_gui_gone E) (drop (length (rw_events rw)) (rw_events rw1)))"
    by (auto simp: forwarded_def progress_take split: option.splits)
  moreover obtain ok m where "fst (run_job_request E fin i w)
      = Accepted i # forwarded (ee_gui_gone E) (drop (length (rw_events rw)) (rw_events rw1)) @ [Finished ok m]"
    using Some by (cases fin) (auto simp: run_job_request_def Let_def split_beta rw_def rw1_def split: sum.splits)
  ultimately show ?thesis
    using answered_stream by fastforce
qed (simp add: run_job_request_def)

lemma restore_job_answered: "answered (fst (restore_job S P T X i t files dest creds x))"
  using run_restore_progress
  by (auto simp: restore_job_def split_beta Let_def intro!: answered_stream split: sum.splits)

lemma restore_sql_answered: "answered (fst (restore_sql S P V i db target point tc w))"
  using run_restore_sql_progress by (auto simp: restore_sql_def split_beta Let_def intro!: answered_stream)

lemma export_answered: "answered (fst (restore_sql_to_file S P X i db point dest creds w))"
  using run_export_progress by (auto simp: restore_sql_to_file_def split_beta Let_def intro!: answered_stream)


section \<open>What a failed or cancelled request leaves\<close>

lemma persist_write_fails:
  "ensure_writable st = Ok () \<Longrightarrow> is_ok (wr_key wr) \<Longrightarrow> wr_io wr = Some e \<Longrightarrow> persist wr st = (Err e, st)"
  by (auto simp: persist_def signed_serialize_def is_ok_iff Let_def)

lemma js_delete_write_fails:
  "js_load_error st = None \<Longrightarrow> is_ok (wr_key wr) \<Longrightarrow> wr_io wr = Some e
     \<Longrightarrow> js_delete ident wr k st = (Err e, st \<lparr> js_items := filter (\<lambda>i. ident i \<noteq> k) (js_items st) \<rparr>)"
  by (simp add: js_delete_def persist_write_fails ensure_writable_def)

lemma failed_delete_keeps_server_secret:
  assumes "js_load_error (ew_servers w) = None" "is_ok (wr_key (ee_server_writer E))" "wr_io (ee_server_writer E) = Some e"
  shows "ew_keyring (snd (handle E fin (DeletePbsServer i) w)) = ew_keyring w"
  using assms by (simp add: delete_server_request_def delete_with_secret_def js_delete_write_fails one_def)


lemma record_run_status:
  assumes "js_load_error st = None"
  shows "map_option j_last_status (get_job (snd (record_run wr i t status st)) i) = map_option (\<lambda>_. Some status) (get_job st i)"
  using assms
  by (simp add: record_run_def ensure_writable_def get_job_def js_get_def find_update_first option.map_comp comp_def)

lemma dropped_run:
  assumes "rg_running (rw_registry w) (j_id job) = None"
  shows "\<exists>w1. run_job R (Dropped rw) job w = (Ok \<lparr> rr_message = ''cancelled'', rr_warning = False \<rparr>, w1)
    \<and> jr_last_ok (runtime_of (re_floats R) (rw_metrics w1) (j_id job)) = Some False"
  using assms record_run_counts [OF refl, of "re_floats R" "j_id job" RunFailure]
  by (simp add: run_job_def run_job_kind_def start_run_def unix_now_def try_claim_run_def finish_run_def count_run_def release_def
      Let_def split_beta)


text \<open>The notification settings are rewritten in place. When that write fails half way, the request is
  refused, but the settings that were in force are lost as well: the truncated file does not parse
  and is read as the defaults, and no finished run is notified through any channel any more.\<close>

theorem failed_save_silences_notifications:
  assumes "ee_config_dir E = None" and "ee_config_write E = Some (n, e)"
    and "ee_notify_parse E (take n (ee_notify_print E settings)) = None"
    and "handle E fin (SaveNotifications settings None None) w = (replies, w')"
  shows "replies = [ErrorReply e] \<and> notify_settings E w' = notify_default_settings
    \<and> job_finished F C kr (notify_settings E w') outcome = []"
  using assms
  by (auto simp: save_notifications_def set_smtp_password_def set_webhook_url_def write_settings_def saved_reply_def
      notify_settings_def notify_load_def job_finished_def through_channels_def notify_default_settings_def Let_def)

section \<open>A concrete engine\<close>

definition demo_writer_down :: "Job writer" where
  "demo_writer_down =
     \<lparr> wr_signer = \<lparr> sg_print = (\<lambda>_. []), sg_parse = (\<lambda>_. Ok []), sg_env_print = (\<lambda>_. []), sg_env_parse = (\<lambda>_. Err ''x''),
         sg_b64_enc = (\<lambda>_. []), sg_b64_dec = (\<lambda>_. Err ''x''), sg_hmac = (\<lambda>_ _. []) \<rparr>,
       wr_key = Ok [1], wr_io = Some ''disk full'' \<rparr>"

definition demo_engine :: "(bool list, string, string list, unit) engine_env" where
  "demo_engine =
     \<lparr> ee_sched = demo_sched_env \<lparr> sv_writer := demo_writer_down \<rparr>, ee_conn_writer = undefined, ee_server_writer = undefined,
       ee_random = Err ''no entropy'', ee_pbs = demo_pbs_env, ee_permissions = (\<lambda>_ _. Err (Io ''refused'')),
       ee_tar = demo_archive [], ee_export = demo_export_env, ee_vdi = (\<lambda>_ _. demo_vdi_env),
       ee_tds = \<lparr> td_tcp = (\<lambda>_ _. Ok ()), td_nodelay = Ok (), td_login = (\<lambda>_ _ _. Ok ()), td_query = (\<lambda>_ q. (Ok [], q)) \<rparr>,
       ee_registry = \<lparr> rg_open = (\<lambda>_. False), rg_names = (\<lambda>_. []), rg_value = (\<lambda>_ _. None), rg_computer_name = None \<rparr>,
       ee_udp = \<lparr> ud_bind = False, ud_set_broadcast = False, ud_send = False, ud_broadcast_events = [], ud_scan_events = (\<lambda>_. []) \<rparr>,
       ee_notify_parse = (\<lambda>b. if length b = 3 then Some notify_default_settings else None), ee_notify_print = (\<lambda>_. [1, 2, 3]),
       ee_metrics_parse = (\<lambda>_. None), ee_metrics_print = (\<lambda>_. []), ee_config_dir = None,
       ee_config_write = Some (1, ''disk full''), ee_relay_file = None, ee_relay = None, ee_run_order = [], ee_gui_gone = None \<rparr>"

definition demo_engine_world :: "unit engine_world" where
  "demo_engine_world =
     \<lparr> ew_sched = demo_sched_world, ew_conns = se_conns demo_stores, ew_servers = se_servers demo_stores,
       ew_keyring = \<lparr> kr_secrets = [enc_secret_key ''j'' \<mapsto> ''a2V5''], kr_error = None \<rparr>, ew_notify_file = Some [1, 2, 3],
       ew_metrics_file = None, ew_endpoint = None, ew_folder = demo_folder,
       ew_sql = \<lparr> sw_server = (), sw_uuids = 0, sw_issued = [] \<rparr> \<rparr>"


lemma demo_engine_store:
  "js_load_error (sl_store (ew_sched demo_engine_world)) = None" "sl_store (ew_sched demo_engine_world) = demo_jobs"
  "rg_running (rw_registry (sl_run (ew_sched demo_engine_world))) ''j'' = None"
  by (simp_all add: demo_engine_world_def demo_sched_world_def demo_jobs_def demo_world_def registry_init_def)



theorem failed_save_silences_notifications_witness:
  "fst (handle demo_engine (Ran (Completed False)) (SaveNotifications notify_default_settings None None) demo_engine_world)
     = [ErrorReply ''disk full'']"
proof -
  have "ee_config_dir demo_engine = None" "ee_config_write demo_engine = Some (1, ''disk full'')"
    "ee_notify_parse demo_engine (take 1 (ee_notify_print demo_engine notify_default_settings)) = None"
    by (simp_all add: demo_engine_def)
  from failed_save_silences_notifications [OF this prod.collapse [symmetric], where fin = "Ran (Completed False)" and w = demo_engine_world]
  show ?thesis
    by blast
qed

end
