(* ===== verification/Spec2Isabelle.thy ===== *)
theory Spec2Isabelle
  imports Snapshot FixedBackup Restore Handler
begin

text \<open>
  \<^bold>\<open>A verification of the pbsgui backup client.\<close>

  pbsgui backs up files and SQL Server databases to a Proxmox Backup Server (PBS). Its parts, and
  the theories that model them (all source paths are under \<open>src/crates\<close>):

  \<^item> the PBS client library (\<open>pbs-client\<close>): the blob, chunk and index formats, encryption, the REST
    client, and the writer and reader sessions;
  \<^item> the engine (\<open>pbsgui-engine\<close>), a background service: the job stores, the scheduler, backup runs,
    SQL Server backups through virtual devices (locally or through a relay agent on another host),
    restores, metrics and notifications;
  \<^item> the protocol between the user interface and the engine (\<open>pbsgui-ipc\<close>), and the shared
    configuration code (\<open>pbsgui-core\<close>).

  A run claims its job (\<open>RunRegistry\<close>), asks the planner what each database needs (\<open>SqlPlan\<close>), streams
  an archive (\<open>FileSources\<close>) or a virtual device (\<open>VdiDevice\<close>) through a channel (\<open>Streams\<close>) into the
  writer session (\<open>Upload\<close>), and records the outcome (\<open>RunJob\<close>, \<open>Metrics\<close>, \<open>Notify\<close>, \<open>SqlSched\<close>). A restore
  reads the index and the chunks back (\<open>Restore\<close>) and feeds files (\<open>FileRestore\<close>, \<open>SqlExport\<close>) or SQL
  Server (\<open>VdiRun\<close>, \<open>SqlRestore\<close>). Both are started by a request (\<open>Handler\<close>) or, for runs, by the
  scheduler (\<open>SqlHealth\<close>).

  \<^bold>\<open>Modelling.\<close> Structs are records, enums datatypes, machine integers words; a fallible function
  returns a sum whose left side is the error, with the text of the source; \<open>anyhow\<close> errors are the list
  of their contexts, outermost first. Code outside the repository (compression, ciphers, hashes,
  JSON, TLS, HTTP/2, the calendar, SQL Server, COM, the file system, the network) is a parameter: the
  records \<open>libs\<close>, \<open>signer\<close>, \<open>keyring\<close>, \<open>calendar\<close>, \<open>floats\<close>, \<open>channels\<close>, \<open>files_env\<close>, \<open>run_env\<close>, \<open>vdi_env\<close>,
  \<open>pbs_env\<close>, \<open>msg_codec\<close>, \<open>stores_env\<close>, \<open>export_env\<close>, \<open>tar_env\<close>, \<open>tds_env\<close>, \<open>reg_env\<close>, \<open>udp_env\<close>, \<open>sched_env\<close>,
  \<open>engine_env\<close>; what a theorem needs of them is a hypothesis in its statement, and a witness
  instantiates them with concrete functions. Concurrent code is a step relation on an explicit state
  (\<open>Upload\<close>, \<open>RunRegistry\<close>, \<open>RelayServer\<close>), and its theorems hold for every interleaving.

  \<^bold>\<open>The theories.\<close>

  \<^item> \<open>Prelude\<close>: integers, byte strings, results, text operations, reachability and the locale
    \<open>inductive_invariant\<close>. \<open>Libs\<close>: the client's errors and the third-party primitives.
  \<^item> \<open>Blob\<close>, \<open>Crypt\<close>, \<open>Index\<close>, \<open>Chunk\<close> (\<open>blob.rs\<close>, \<open>crypt.rs\<close>, \<open>index.rs\<close>, \<open>manifest.rs\<close>): the formats; every
    encoder is undone by its decoder, decoders accept exactly well-formed input.
  \<^item> \<open>Repository\<close>, \<open>Api\<close>, \<open>Session\<close> (\<open>repository.rs\<close>, \<open>api.rs\<close>, \<open>session.rs\<close>): repository strings, the HTTP/1.1
    client and its chunked coding, certificate pinning, the header reader and strict requests.
  \<^item> \<open>Upload\<close>, \<open>Commit\<close>, \<open>Snapshot\<close>, \<open>FixedBackup\<close> (\<open>session.rs\<close>): the writer. The dynamic backup is a machine
    of a main loop and concurrent uploads; its invariant gives that a commit is only ever sent for a
    complete snapshot, that every run ends, and that the statistics account for every byte.
  \<^item> \<open>Restore\<close> (\<open>session.rs\<close>): the reader; integrity of what is restored, and the windowed pipeline equals
    the sequential download.
  \<^item> \<open>Protocol\<close> (\<open>protocol.rs\<close>, \<open>transport.rs\<close>): messages and both ends of a connection.
  \<^item> \<open>Stores\<close>, \<open>SqlSched\<close>, \<open>Scheduler\<close>, \<open>SnapshotGroups\<close>, \<open>SqlPlan\<close>, \<open>Metrics\<close>, \<open>Notify\<close> (\<open>jobstore.rs\<close>,
    \<open>connstore.rs\<close>, \<open>enckey.rs\<close>, \<open>signed.rs\<close>, \<open>secrets.rs\<close>, \<open>sqlsched.rs\<close>, \<open>scheduler.rs\<close>, \<open>sql/plan.rs\<close>,
    \<open>sql/backupmeta.rs\<close>, \<open>metrics.rs\<close>, \<open>notify.rs\<close>): the state of the engine and its decisions.
  \<^item> \<open>RunRegistry\<close>, \<open>FileSources\<close>, \<open>RunJob\<close>, \<open>RunProps\<close> (\<open>backup.rs\<close>, \<open>archive.rs\<close>, \<open>changedet.rs\<close>): backup runs.
  \<^item> \<open>Streams\<close>, \<open>SqlStatements\<close>, \<open>VdiDevice\<close>, \<open>VdiRun\<close> (\<open>archive.rs\<close>, \<open>sql/vdi.rs\<close>, the AD engine's \<open>stream.rs\<close>):
    channels between threads, T-SQL and its quoting, the device loops, whole backups and restores.
  \<^item> \<open>RelayProto\<close>, \<open>Relay\<close>, \<open>RelayServer\<close>, \<open>RelaySetup\<close> (\<open>relay/\<close>): frames, data connections in both
    directions, the registry of agents and sessions, and the setup commands.
  \<^item> \<open>SqlRestore\<close>, \<open>SqlExport\<close>, \<open>FileRestore\<close> (\<open>handler.rs\<close>, \<open>netdest.rs\<close>, \<open>restore.rs\<close>): restores of SQL
    backups into a server or into files, network destinations, browsing and extraction of file
    backups; a point-in-time restore reaches its target, an export leaves only whole files, an
    extraction writes exactly the selected files.
  \<^item> \<open>SqlHealth\<close> (\<open>scheduler.rs\<close>, \<open>handler.rs\<close>): a pass of the scheduler loop and the watch over the log
    chains; every stalled chain is reported, at most every six hours.
  \<^item> \<open>Discover\<close>, \<open>Probe\<close> (\<open>sql/ssrp.rs\<close>, \<open>sql/discover.rs\<close>, \<open>sql/probe.rs\<close>, \<open>sql/check.rs\<close>): discovery of
    instances, and what an instance says about itself; a replica that is not the primary never
    starts a log chain.
  \<^item> \<open>Handler\<close> (\<open>handler.rs\<close>): the world of the whole engine and the dispatch of every request over the
    operations above; each request is answered by one terminal reply.

  \<^bold>\<open>Bounds and fuel.\<close> Loops recurse on their input or carry a termination proof; none takes fuel,
  except \<open>read_moves\<close>, a specification that reads back clauses, bounded by the length of its text. Inputs
  that arrive over time (socket reads, device commands, reads of a stream) are finite lists, arbitrary
  in every theorem.

  \<^bold>\<open>Not modelled.\<close> The FastCDC boundaries (a library; the chunks are an input), certificate generation,
  the COM calls of VDI and VSS, the Windows service control, the tar format, the creation of the pipe
  and its access list, the relay's reconnect loop, the Active Directory engine apart from its stream
  (calls of VSS and of the directory's own recovery tool), and the desktop shell, which forwards
  requests.
\<close>

end
